(* ===== verification/Sjfs_Prelude.thy ===== *)
theory Sjfs_Prelude
  imports Main "HOL-Library.Word"
begin

unbundle bit_operations_syntax

text \<open>
  Shared vocabulary of the development: the machine integers of the C sources, the outcome of a
  C function (a value, a thread that never returns, or undefined behaviour), the state-passing
  combinators in which every operation is written, and generic lemmas on byte lists, little-endian
  numbers and alignment.
\<close>

section \<open>Collections of rewrite rules\<close>

named_theorems run_simps \<open>evaluation of one step of a state-passing operation\<close>
named_theorems keeps \<open>which operations keep a property of the state\<close>
named_theorems layout_simps \<open>sizes and offsets of the structs of the sources\<close>

section \<open>Machine integers\<close>

type_synonym byte = "8 word"
type_synonym ushort = "16 word"
type_synonym uint = "32 word"
type_synonym ulong = "64 word"

section \<open>Outcomes of C code\<close>

text \<open>
  \<open>Ret\<close> is a function that returned, \<open>Hang\<close> a thread that sleeps for ever on a semaphore, and
  \<open>Crash\<close> undefined behaviour of C: an access outside an object, through a pointer that is not
  live, a bad \<open>kfree\<close>, or an overflow of a signed integer.
\<close>

datatype fault = OutOfBounds | BadPointer | BadFree | SignedOverflow

datatype 'a outcome = Ret 'a | Hang | Crash fault

type_synonym ('s, 'a) km = "'s \<Rightarrow> ('a \<times> 's) outcome"

definition retK :: "'a \<Rightarrow> ('s, 'a) km" where
  "retK x = (\<lambda>s. Ret (x, s))"

definition bindK :: "('s, 'a) km \<Rightarrow> ('a \<Rightarrow> ('s, 'b) km) \<Rightarrow> ('s, 'b) km" where
  "bindK m f = (\<lambda>s. case m s of Ret (x, s') \<Rightarrow> f x s' | Hang \<Rightarrow> Hang | Crash e \<Rightarrow> Crash e)"

definition thenK :: "('s, 'a) km \<Rightarrow> ('s, 'b) km \<Rightarrow> ('s, 'b) km" where
  "thenK m n = bindK m (\<lambda>_. n)"

definition getK :: "('s \<Rightarrow> 'a) \<Rightarrow> ('s, 'a) km" where
  "getK f = (\<lambda>s. Ret (f s, s))"

definition modK :: "('s \<Rightarrow> 's) \<Rightarrow> ('s, unit) km" where
  "modK f = (\<lambda>s. Ret ((), f s))"

definition crashK :: "fault \<Rightarrow> ('s, 'a) km" where
  "crashK e = (\<lambda>s. Crash e)"

lemma retK_run [run_simps]: "retK x s = Ret (x, s)"
  by (simp add: retK_def)

lemma getK_run [run_simps]: "getK f s = Ret (f s, s)"
  by (simp add: getK_def)

lemma modK_run [run_simps]: "modK f s = Ret ((), f s)"
  by (simp add: modK_def)

lemma crashK_run [run_simps]: "crashK e s = Crash e"
  by (simp add: crashK_def)

lemma bindK_run [run_simps]:
  "bindK m f s = (case m s of Ret r \<Rightarrow> f (fst r) (snd r) | Hang \<Rightarrow> Hang | Crash e \<Rightarrow> Crash e)"
  by (simp add: bindK_def split: outcome.splits)

lemma thenK_run [run_simps]:
  "thenK m n s = (case m s of Ret r \<Rightarrow> n (snd r) | Hang \<Rightarrow> Hang | Crash e \<Rightarrow> Crash e)"
  by (simp add: thenK_def run_simps)

text \<open>The combinators form a monad, so a block of code may be cut anywhere without changing it.\<close>

lemma bindK_assoc: "bindK (bindK m f) g = bindK m (\<lambda>x. bindK (f x) g)"
  by (simp add: bindK_def fun_eq_iff split: outcome.splits)

lemma bindK_retK [simp]: "bindK (retK x) f = f x"
  by (simp add: bindK_def retK_def)

lemma bindK_ret_right: "bindK m retK = m"
  by (simp add: bindK_def retK_def fun_eq_iff split: outcome.splits)

lemma bindK_eq_RetD:
  "bindK m f s = Ret r \<Longrightarrow> \<exists>x s'. m s = Ret (x, s') \<and> f x s' = Ret r"
  by (auto simp: bindK_def split: outcome.splits)

lemma bindK_Ret: "m s = Ret (x, s') \<Longrightarrow> bindK m f s = f x s'"
  by (simp add: bindK_def)

lemma thenK_Ret: "m s = Ret (x, s') \<Longrightarrow> thenK m n s = n s'"
  by (simp add: thenK_def bindK_Ret)

text \<open>
  A property of final states that holds whenever the operation returns. \<open>keepsK\<close> composes along
  the combinators, which is how the frame and leak lemmas of the components are proved.
\<close>

definition keepsK :: "('s \<Rightarrow> bool) \<Rightarrow> ('s, 'a) km \<Rightarrow> bool" where
  "keepsK P m \<longleftrightarrow> (\<forall>s x s'. P s \<longrightarrow> m s = Ret (x, s') \<longrightarrow> P s')"

lemma keepsK_retK [keeps]: "keepsK P (retK x)"
  by (auto simp: keepsK_def retK_def)

lemma keepsK_getK [keeps]: "keepsK P (getK f)"
  by (auto simp: keepsK_def getK_def)

lemma keepsK_crashK [keeps]: "keepsK P (crashK e)"
  by (auto simp: keepsK_def crashK_def)

lemma keepsK_modK: "(\<And>s. P s \<Longrightarrow> P (f s)) \<Longrightarrow> keepsK P (modK f)"
  by (auto simp: keepsK_def modK_def)

lemma keepsK_bindK [keeps]: "keepsK P m \<Longrightarrow> (\<And>x. keepsK P (f x)) \<Longrightarrow> keepsK P (bindK m f)"
  unfolding keepsK_def by (blast dest: bindK_eq_RetD)

lemma keepsK_thenK [keeps]: "keepsK P m \<Longrightarrow> keepsK P n \<Longrightarrow> keepsK P (thenK m n)"
  unfolding thenK_def by (intro keeps)

lemma keepsK_if [keeps]: "keepsK P m \<Longrightarrow> keepsK P n \<Longrightarrow> keepsK P (if b then m else n)"
  by simp

lemma keepsKD: "keepsK P m \<Longrightarrow> m s = Ret (x, s') \<Longrightarrow> P s \<Longrightarrow> P s'"
  by (auto simp: keepsK_def)

text \<open>An operation that never returns from a state with \<open>P\<close>: it hangs or is undefined behaviour.\<close>

definition neverK :: "('s \<Rightarrow> bool) \<Rightarrow> ('s, 'a) km \<Rightarrow> bool" where
  "neverK P m \<longleftrightarrow> (\<forall>s r. P s \<longrightarrow> m s \<noteq> Ret r)"

lemma neverK_bind_left: "neverK P m \<Longrightarrow> neverK P (bindK m f)"
  unfolding neverK_def by (auto dest!: bindK_eq_RetD)

lemma neverK_bind_right: "keepsK P m \<Longrightarrow> (\<And>x. neverK P (f x)) \<Longrightarrow> neverK P (bindK m f)"
  unfolding neverK_def keepsK_def by (metis bindK_eq_RetD)

lemma neverK_then_left: "neverK P m \<Longrightarrow> neverK P (thenK m n)"
  unfolding thenK_def by (rule neverK_bind_left)

lemma neverK_then_right: "keepsK P m \<Longrightarrow> neverK P n \<Longrightarrow> neverK P (thenK m n)"
  unfolding thenK_def by (rule neverK_bind_right)

section \<open>Byte lists\<close>

text \<open>\<open>overwrite off xs bs\<close> overwrites \<open>bs\<close> from \<open>off\<close> on with \<open>xs\<close>: the effect of \<open>memcpy\<close>.\<close>

definition overwrite :: "nat \<Rightarrow> 'a list \<Rightarrow> 'a list \<Rightarrow> 'a list" where
  "overwrite off xs bs = take off bs @ xs @ drop (off + length xs) bs"

definition bytes_at :: "nat \<Rightarrow> nat \<Rightarrow> 'a list \<Rightarrow> 'a list" where
  "bytes_at off n bs = take n (drop off bs)"

lemma length_overwrite [simp]: "off + length xs \<le> length bs \<Longrightarrow> length (overwrite off xs bs) = length bs"
  by (simp add: overwrite_def)

lemma length_bytes_at [simp]: "off + n \<le> length bs \<Longrightarrow> length (bytes_at off n bs) = n"
  by (simp add: bytes_at_def)

lemma bytes_at_overwrite_same [simp]:
  "off + length xs \<le> length bs \<Longrightarrow> bytes_at off (length xs) (overwrite off xs bs) = xs"
  by (simp add: bytes_at_def overwrite_def)

lemma nth_overwrite:
  assumes "off + length xs \<le> length bs" "i < length bs"
  shows "overwrite off xs bs ! i = (if off \<le> i \<and> i < off + length xs then xs ! (i - off) else bs ! i)"
  using assms by (auto simp: overwrite_def nth_append)

lemma bytes_at_overwrite_disjoint:
  assumes "off + length xs \<le> length bs" "p + n \<le> length bs" "p + n \<le> off \<or> off + length xs \<le> p"
  shows "bytes_at p n (overwrite off xs bs) = bytes_at p n bs"
proof (rule nth_equalityI)
  show "length (bytes_at p n (overwrite off xs bs)) = length (bytes_at p n bs)"
    using assms by simp
  fix i assume "i < length (bytes_at p n (overwrite off xs bs))"
  then have "i < n" using assms by simp
  then show "bytes_at p n (overwrite off xs bs) ! i = bytes_at p n bs ! i"
    using assms by (auto simp: bytes_at_def nth_overwrite)
qed

lemma overwrite_full: "length xs = length bs \<Longrightarrow> overwrite 0 xs bs = xs"
  by (simp add: overwrite_def)

lemma overwrite_none: "overwrite off [] bs = bs"
  by (simp add: overwrite_def)

lemma bytes_at_full: "length bs = n \<Longrightarrow> bytes_at 0 n bs = bs"
  by (simp add: bytes_at_def)

lemma overwrite_nth: "off < length bs \<Longrightarrow> overwrite off [b] bs = bs[off := b]"
  by (simp add: overwrite_def upd_conv_take_nth_drop)

lemma bytes_at_one: "off < length bs \<Longrightarrow> bytes_at off 1 bs = [bs ! off]"
  by (simp add: bytes_at_def take_Suc_conv_app_nth)

lemma bytes_at_append_left: "off + n \<le> length xs \<Longrightarrow> bytes_at off n (xs @ ys) = bytes_at off n xs"
  by (simp add: bytes_at_def)

lemma bytes_at_append_right: "bytes_at (length xs + off) n (xs @ ys) = bytes_at off n ys"
  by (simp add: bytes_at_def)

section \<open>Little-endian numbers\<close>

fun le_bytes :: "nat \<Rightarrow> nat \<Rightarrow> byte list" where
  "le_bytes 0 v = []"
| "le_bytes (Suc n) v = of_nat (v mod 256) # le_bytes n (v div 256)"

fun le_value :: "byte list \<Rightarrow> nat" where
  "le_value [] = 0"
| "le_value (b # bs) = unat b + 256 * le_value bs"

lemma length_le_bytes [simp]: "length (le_bytes n v) = n"
  by (induction n arbitrary: v) simp_all

lemma unat_byte_mod [simp]: "unat (of_nat (v mod 256) :: byte) = v mod 256"
  by (simp add: unat_of_nat)

lemma unat_byte_less: "unat (b :: byte) < 256"
  by (rule order_less_le_trans [OF unsigned_less]) simp

lemma le_value_bytes: "le_value (le_bytes n v) = v mod 256 ^ n"
proof (induction n arbitrary: v)
  case 0
  then show ?case by simp
next
  case (Suc n)
  then show ?case by (simp add: mod_mult2_eq)
qed

lemma le_value_bound: "le_value bs < 256 ^ length bs"
proof (induction bs)
  case Nil
  then show ?case by simp
next
  case (Cons b bs)
  then have "256 * Suc (le_value bs) \<le> 256 * 256 ^ length bs"
    by (intro mult_le_mono2) simp
  then show ?case
    using unat_byte_less [of b] by simp
qed

lemma le_bytes_value: "le_bytes (length bs) (le_value bs) = bs"
proof (induction bs)
  case Nil
  then show ?case by simp
next
  case (Cons b bs)
  have "(unat b + 256 * le_value bs) mod 256 = unat b"
    and "(unat b + 256 * le_value bs) div 256 = le_value bs"
    using unat_byte_less [of b] by auto
  then show ?case using Cons by simp
qed

section \<open>Alignment\<close>

definition align_up :: "nat \<Rightarrow> nat \<Rightarrow> nat" where
  "align_up n a = (n + (a - 1)) div a * a"

lemma align_up_ge: "0 < a \<Longrightarrow> n \<le> align_up n a"
  using div_mult_mod_eq [of "n + (a - 1)" a] mod_less_divisor [of a "n + (a - 1)"]
  unfolding align_up_def by linarith

lemma align_up_dvd: "a dvd align_up n a"
  by (simp add: align_up_def)

lemma align_up_lt: "0 < a \<Longrightarrow> align_up n a < n + a"
  using div_times_less_eq_dividend [of "n + (a - 1)" a] unfolding align_up_def by linarith

end
