(* ===== verification/Blocks.thy ===== *)
theory Blocks
  imports Sjfs_Prelude
begin

text \<open>
  The on-disk structures of \<open>src/include/blocks.h\<close> and the message of \<open>src/include/ipc.h\<close>.

  A C struct is a list of named fields; \<open>offsetof\<close> and \<open>sizeof_struct\<close> compute the layout that the
  System V ABI gives it, for the ABI named by the first argument (\<open>lp64\<close> is x86-64 Linux, \<open>ilp32\<close>
  is i386). The objects the code reads and writes are byte lists; \<open>superblock_of\<close> and \<open>inode_of\<close>
  read the fields of such an object on \<open>lp64\<close>. No code encodes these two structs: \<open>superblock_image\<close>
  and \<open>inode_image\<close> belong to the specification, they say which bytes on a disk hold a given
  superblock or inode.
\<close>

section \<open>The sizes of blocks.h\<close>

definition SJFS_BLOCKSIZE :: nat where "SJFS_BLOCKSIZE = 1024"
definition SJFS_POINTERSIZE :: nat where "SJFS_POINTERSIZE = 4"
definition SJFS_DATABLOCKSIZE :: nat where "SJFS_DATABLOCKSIZE = SJFS_BLOCKSIZE"
definition SJFS_MIN_BLOCKS :: nat where "SJFS_MIN_BLOCKS = 6"
definition SJFS_DATABLOCKS_PER_BLOCK :: nat where "SJFS_DATABLOCKS_PER_BLOCK = 1"
definition SJFS_POINTERS_PER_BLOCK :: nat where
  "SJFS_POINTERS_PER_BLOCK = SJFS_BLOCKSIZE div SJFS_POINTERSIZE"
definition SJFS_BLOCKS_PER_BITMAP :: nat where "SJFS_BLOCKS_PER_BITMAP = SJFS_BLOCKSIZE * 8"
definition SJFS_INODES_PER_BITMAP :: nat where "SJFS_INODES_PER_BITMAP = SJFS_BLOCKS_PER_BITMAP"
definition SJFS_DATABLOCKS_PER_BITMAP :: nat where
  "SJFS_DATABLOCKS_PER_BITMAP = SJFS_BLOCKS_PER_BITMAP"

lemmas sjfs_size_defs [layout_simps] =
  SJFS_BLOCKSIZE_def SJFS_POINTERSIZE_def SJFS_DATABLOCKSIZE_def SJFS_MIN_BLOCKS_def
  SJFS_DATABLOCKS_PER_BLOCK_def SJFS_POINTERS_PER_BLOCK_def SJFS_BLOCKS_PER_BITMAP_def
  SJFS_INODES_PER_BITMAP_def SJFS_DATABLOCKS_PER_BITMAP_def

section \<open>C struct layout\<close>

datatype cty = UChar | UShort | UInt | ULong | LongLong | Pointer | Array cty nat

record abi =
  long_bytes :: nat
  pointer_bytes :: nat
  llong_align :: nat

definition lp64 :: abi where
  "lp64 = \<lparr>long_bytes = 8, pointer_bytes = 8, llong_align = 8\<rparr>"

definition ilp32 :: abi where
  "ilp32 = \<lparr>long_bytes = 4, pointer_bytes = 4, llong_align = 4\<rparr>"

fun sizeof :: "abi \<Rightarrow> cty \<Rightarrow> nat" where
  "sizeof A UChar = 1"
| "sizeof A UShort = 2"
| "sizeof A UInt = 4"
| "sizeof A ULong = long_bytes A"
| "sizeof A LongLong = 8"
| "sizeof A Pointer = pointer_bytes A"
| "sizeof A (Array t n) = n * sizeof A t"

fun alignof :: "abi \<Rightarrow> cty \<Rightarrow> nat" where
  "alignof A UChar = 1"
| "alignof A UShort = 2"
| "alignof A UInt = 4"
| "alignof A ULong = long_bytes A"
| "alignof A LongLong = llong_align A"
| "alignof A Pointer = pointer_bytes A"
| "alignof A (Array t n) = alignof A t"

type_synonym cstruct = "(string \<times> cty) list"

text \<open>Each field goes to the next multiple of its alignment; the struct ends after its last field,
  rounded up to the largest alignment.\<close>

fun place :: "abi \<Rightarrow> nat \<Rightarrow> cstruct \<Rightarrow> (string \<times> nat \<times> cty) list" where
  "place A pos [] = []"
| "place A pos ((f, t) # fs) =
     (let off = align_up pos (alignof A t) in (f, off, t) # place A (off + sizeof A t) fs)"

fun struct_end :: "abi \<Rightarrow> nat \<Rightarrow> cstruct \<Rightarrow> nat" where
  "struct_end A pos [] = pos"
| "struct_end A pos ((f, t) # fs) = struct_end A (align_up pos (alignof A t) + sizeof A t) fs"

fun struct_align :: "abi \<Rightarrow> cstruct \<Rightarrow> nat" where
  "struct_align A [] = 1"
| "struct_align A ((f, t) # fs) = max (alignof A t) (struct_align A fs)"

definition sizeof_struct :: "abi \<Rightarrow> cstruct \<Rightarrow> nat" where
  "sizeof_struct A st = align_up (struct_end A 0 st) (struct_align A st)"

definition offsetof :: "abi \<Rightarrow> cstruct \<Rightarrow> string \<Rightarrow> nat option" where
  "offsetof A st f = map_option fst (map_of (place A 0 st) f)"

definition abi_ok :: "abi \<Rightarrow> bool" where
  "abi_ok A \<longleftrightarrow> 0 < long_bytes A \<and> 0 < pointer_bytes A \<and> 0 < llong_align A"

lemma abi_ok_lp64 [simp]: "abi_ok lp64"
  by (simp add: abi_ok_def lp64_def)

lemma abi_ok_ilp32 [simp]: "abi_ok ilp32"
  by (simp add: abi_ok_def ilp32_def)

lemma alignof_pos: "abi_ok A \<Longrightarrow> 0 < alignof A t"
  by (induction t) (auto simp: abi_ok_def)

lemma struct_align_pos: "0 < struct_align A st"
  by (induction st) auto

lemma struct_end_mono: "abi_ok A \<Longrightarrow> pos \<le> struct_end A pos st"
proof (induction st arbitrary: pos)
  case Nil
  then show ?case by simp
next
  case (Cons ft st)
  obtain f t where ft: "ft = (f, t)" by force
  have "pos \<le> align_up pos (alignof A t) + sizeof A t"
    using align_up_ge [OF alignof_pos [OF Cons.prems], of pos t] by simp
  also have "\<dots> \<le> struct_end A (align_up pos (alignof A t) + sizeof A t) st"
    using Cons by blast
  finally show ?case by (simp add: ft)
qed

lemma length_place [simp]: "length (place A pos st) = length st"
  by (induction st arbitrary: pos) (auto simp: Let_def)

lemma place_ge:
  assumes "abi_ok A" "(f, off, t) \<in> set (place A pos st)"
  shows "pos \<le> off"
  using assms(2)
proof (induction st arbitrary: pos)
  case Nil
  then show ?case by simp
next
  case (Cons gt st)
  obtain g u where gu: "gt = (g, u)" by force
  have ge: "pos \<le> align_up pos (alignof A u)"
    by (rule align_up_ge [OF alignof_pos [OF assms(1)]])
  from Cons.prems gu consider "off = align_up pos (alignof A u)"
    | "(f, off, t) \<in> set (place A (align_up pos (alignof A u) + sizeof A u) st)"
    by (auto simp: Let_def)
  then show ?case
    using ge Cons.IH by cases force+
qed

lemma place_end:
  assumes "abi_ok A" "(f, off, t) \<in> set (place A pos st)"
  shows "off + sizeof A t \<le> struct_end A pos st"
  using assms(2)
proof (induction st arbitrary: pos)
  case Nil
  then show ?case by simp
next
  case (Cons gt st)
  obtain g u where gu: "gt = (g, u)" by force
  show ?case
    using Cons gu struct_end_mono [OF assms(1)] by (auto simp: Let_def)
qed

lemma place_aligned: "(f, off, t) \<in> set (place A pos st) \<Longrightarrow> alignof A t dvd off"
  by (induction st arbitrary: pos) (auto simp: Let_def align_up_dvd)

text \<open>Fields do not overlap: each ends before every later one begins.\<close>

lemma place_ordered:
  assumes "abi_ok A"
  shows "sorted_wrt (\<lambda>(f, off, t) (g, off', u). off + sizeof A t \<le> off') (place A pos st)"
proof (induction st arbitrary: pos)
  case Nil
  then show ?case by simp
next
  case (Cons gt st)
  obtain g u where gu: "gt = (g, u)" by force
  show ?case
    using Cons gu place_ge [OF assms] by (auto simp: Let_def)
qed

section \<open>Object representations\<close>

text \<open>
  \<open>struct_image A st vs\<close> is the memory of a struct whose fields hold the byte strings \<open>vs\<close>, with
  zero bytes as padding (the objects come from \<open>kzalloc\<close> and \<open>calloc\<close>).
\<close>

fun image_from :: "abi \<Rightarrow> nat \<Rightarrow> cstruct \<Rightarrow> byte list list \<Rightarrow> byte list" where
  "image_from A pos ((f, t) # fs) (v # vs) =
     replicate (align_up pos (alignof A t) - pos) 0 @ v
       @ image_from A (align_up pos (alignof A t) + sizeof A t) fs vs"
| "image_from A pos _ _ = []"

definition struct_image :: "abi \<Rightarrow> cstruct \<Rightarrow> byte list list \<Rightarrow> byte list" where
  "struct_image A st vs =
     image_from A 0 st vs @ replicate (sizeof_struct A st - struct_end A 0 st) 0"

definition fields_fit :: "abi \<Rightarrow> cstruct \<Rightarrow> byte list list \<Rightarrow> bool" where
  "fields_fit A st vs \<longleftrightarrow> list_all2 (\<lambda>ft v. length v = sizeof A (snd ft)) st vs"

lemma length_image_from:
  assumes "abi_ok A" "fields_fit A st vs"
  shows "pos + length (image_from A pos st vs) = struct_end A pos st"
  using assms(2) unfolding fields_fit_def
proof (induction arbitrary: pos rule: list_all2_induct)
  case Nil
  then show ?case by simp
next
  case (Cons ft st v vs)
  obtain f t where ft: "ft = (f, t)" by force
  have "pos \<le> align_up pos (alignof A t)"
    by (rule align_up_ge [OF alignof_pos [OF assms(1)]])
  then show ?case
    using Cons.IH [of "align_up pos (alignof A t) + sizeof A t"] Cons.hyps ft by simp
qed

lemma length_struct_image:
  assumes "abi_ok A" "fields_fit A st vs"
  shows "length (struct_image A st vs) = sizeof_struct A st"
  using length_image_from [OF assms, of 0] align_up_ge [OF struct_align_pos, of "struct_end A 0 st" A st]
  by (simp add: struct_image_def sizeof_struct_def)

lemma bytes_at_image_from:
  assumes "abi_ok A" "fields_fit A st vs" "i < length st" "place A pos st ! i = (f, off, t)"
  shows "pos \<le> off \<and> bytes_at (off - pos) (sizeof A t) (image_from A pos st vs) = vs ! i"
  using assms(2-) unfolding fields_fit_def
proof (induction arbitrary: pos i rule: list_all2_induct)
  case Nil
  then show ?case by simp
next
  case (Cons gt st v vs)
  obtain g u where gu: "gt = (g, u)" by force
  let ?o = "align_up pos (alignof A u)"
  have ge: "pos \<le> ?o"
    by (rule align_up_ge [OF alignof_pos [OF assms(1)]])
  show ?case
  proof (cases i)
    case 0
    with Cons.prems Cons.hyps gu ge show ?thesis by (auto simp: Let_def bytes_at_def)
  next
    case (Suc j)
    with Cons.prems gu have "?o + sizeof A u \<le> off \<and>
        bytes_at (off - (?o + sizeof A u)) (sizeof A t) (image_from A (?o + sizeof A u) st vs) = vs ! j"
      by (intro Cons.IH) (auto simp: Let_def)
    then show ?thesis
      using Suc Cons.hyps gu ge by (auto simp: bytes_at_def le_diff_conv2)
  qed
qed

lemma bytes_at_struct_image:
  assumes "abi_ok A" "fields_fit A st vs" "i < length st" "place A 0 st ! i = (f, off, t)"
  shows "bytes_at off (sizeof A t) (struct_image A st vs) = vs ! i"
proof -
  have "off + sizeof A t \<le> length (image_from A 0 st vs)"
    using place_end [OF assms(1), of f off t 0 st] assms(3,4) length_image_from [OF assms(1,2), of 0]
    by (metis add_0 length_place nth_mem)
  then show ?thesis
    using bytes_at_image_from [OF assms] by (simp add: struct_image_def bytes_at_append_left)
qed

section \<open>The structs of blocks.h and ipc.h\<close>

definition superblock_fields :: cstruct where
  "superblock_fields =
    [(''inode_blocks_count'', UShort), (''datablock_blocks_count'', ULong), (''mtime'', ULong),
     (''wtime'', ULong), (''mnt_count'', ULong), (''magic'', ULong), (''dirty'', UChar),
     (''reserved'', Array UChar (SJFS_BLOCKSIZE - 23))]"

definition inode_fields :: cstruct where
  "inode_fields =
    [(''mode'', UShort), (''uid'', UShort), (''gid'', UShort), (''size'', ULong),
     (''atime'', ULong), (''ctime'', ULong), (''mtime'', ULong), (''links'', UChar),
     (''blocks'', ULong), (''dbp'', Array ULong 12), (''sidbp'', ULong), (''didbp'', ULong),
     (''reserved'', Array UChar 25)]"

definition indirect_pointer_block_fields :: cstruct where
  "indirect_pointer_block_fields =
    [(''pointers'', Array ULong (SJFS_BLOCKSIZE div SJFS_POINTERSIZE))]"

definition directory_entry_fields :: cstruct where
  "directory_entry_fields = [(''inode_number'', ULong), (''name_len'', UChar), (''name'', Pointer)]"

definition directory_fields :: cstruct where
  "directory_fields = [(''entries_len'', UShort), (''entries'', Pointer)]"

definition sjfs_message_fields :: cstruct where
  "sjfs_message_fields = [(''opcode'', UChar), (''address'', ULong), (''data'', Pointer)]"

definition SJFS_INODESIZE :: "abi \<Rightarrow> nat" where
  "SJFS_INODESIZE A = sizeof_struct A inode_fields"


definition SJFS_OPCODE_READ :: byte where "SJFS_OPCODE_READ = 0"
definition SJFS_OPCODE_WRITE :: byte where "SJFS_OPCODE_WRITE = 1"
definition SJFS_OPCODE_NOTIFY :: byte where "SJFS_OPCODE_NOTIFY = 2"

lemmas struct_calc =
  sizeof_struct_def offsetof_def align_up_def Let_def lp64_def ilp32_def superblock_fields_def
  inode_fields_def indirect_pointer_block_fields_def directory_entry_fields_def
  directory_fields_def sjfs_message_fields_def SJFS_BLOCKSIZE_def SJFS_POINTERSIZE_def

lemma sizeof_superblock_lp64 [layout_simps]: "sizeof_struct lp64 superblock_fields = 1056"
  by (simp add: struct_calc)

lemma sizeof_inode_lp64 [layout_simps]: "sizeof_struct lp64 inode_fields = 200"
  by (simp add: struct_calc)

lemma SJFS_INODESIZE_lp64 [layout_simps]: "SJFS_INODESIZE lp64 = 200"
  by (simp add: SJFS_INODESIZE_def layout_simps)

lemma place_superblock:
  "place lp64 0 superblock_fields =
    [(''inode_blocks_count'', 0, UShort), (''datablock_blocks_count'', 8, ULong),
     (''mtime'', 16, ULong), (''wtime'', 24, ULong), (''mnt_count'', 32, ULong),
     (''magic'', 40, ULong), (''dirty'', 48, UChar), (''reserved'', 49, Array UChar 1001)]"
  by (simp add: struct_calc)

lemma place_inode:
  "place lp64 0 inode_fields =
    [(''mode'', 0, UShort), (''uid'', 2, UShort), (''gid'', 4, UShort), (''size'', 8, ULong),
     (''atime'', 16, ULong), (''ctime'', 24, ULong), (''mtime'', 32, ULong), (''links'', 40, UChar),
     (''blocks'', 48, ULong), (''dbp'', 56, Array ULong 12), (''sidbp'', 152, ULong),
     (''didbp'', 160, ULong), (''reserved'', 168, Array UChar 25)]"
  by (simp add: struct_calc)

record superblock_t =
  inode_blocks_count :: ushort
  datablock_blocks_count :: ulong
  sb_mtime :: ulong
  sb_wtime :: ulong
  sb_mnt_count :: ulong
  sb_magic :: ulong
  sb_dirty :: byte
  sb_reserved :: "byte list"

record inode_t =
  di_mode :: ushort
  di_uid :: ushort
  di_gid :: ushort
  di_size :: ulong
  di_atime :: ulong
  di_ctime :: ulong
  di_mtime :: ulong
  di_links :: byte
  di_blocks :: ulong
  di_dbp :: "ulong list"
  di_sidbp :: ulong
  di_didbp :: ulong
  di_reserved :: "byte list"

text \<open>Field access through a pointer to the struct, on a little-endian machine.\<close>

definition load16 :: "nat \<Rightarrow> byte list \<Rightarrow> ushort" where
  "load16 off bs = of_nat (le_value (bytes_at off 2 bs))"

definition load64 :: "nat \<Rightarrow> byte list \<Rightarrow> ulong" where
  "load64 off bs = of_nat (le_value (bytes_at off 8 bs))"

definition load8 :: "nat \<Rightarrow> byte list \<Rightarrow> byte" where
  "load8 off bs = of_nat (le_value (bytes_at off 1 bs))"

definition le16 :: "ushort \<Rightarrow> byte list" where "le16 w = le_bytes 2 (unat w)"
definition le64 :: "ulong \<Rightarrow> byte list" where "le64 w = le_bytes 8 (unat w)"

definition superblock_of :: "byte list \<Rightarrow> superblock_t" where
  "superblock_of bs =
    \<lparr>inode_blocks_count = load16 0 bs, datablock_blocks_count = load64 8 bs,
     sb_mtime = load64 16 bs, sb_wtime = load64 24 bs, sb_mnt_count = load64 32 bs,
     sb_magic = load64 40 bs, sb_dirty = load8 48 bs, sb_reserved = bytes_at 49 1001 bs\<rparr>"

definition superblock_image :: "superblock_t \<Rightarrow> byte list" where
  "superblock_image sb = struct_image lp64 superblock_fields
    [le16 (inode_blocks_count sb), le64 (datablock_blocks_count sb), le64 (sb_mtime sb),
     le64 (sb_wtime sb), le64 (sb_mnt_count sb), le64 (sb_magic sb), [sb_dirty sb],
     sb_reserved sb]"

definition wf_superblock :: "superblock_t \<Rightarrow> bool" where
  "wf_superblock sb \<longleftrightarrow> length (sb_reserved sb) = SJFS_BLOCKSIZE - 23"

definition load_dbp :: "nat \<Rightarrow> nat \<Rightarrow> byte list \<Rightarrow> ulong list" where
  "load_dbp n off bs = map (\<lambda>i. load64 (off + 8 * i) bs) [0..<n]"

definition inode_of :: "byte list \<Rightarrow> inode_t" where
  "inode_of bs =
    \<lparr>di_mode = load16 0 bs, di_uid = load16 2 bs, di_gid = load16 4 bs, di_size = load64 8 bs,
     di_atime = load64 16 bs, di_ctime = load64 24 bs, di_mtime = load64 32 bs,
     di_links = load8 40 bs, di_blocks = load64 48 bs, di_dbp = load_dbp 12 56 bs,
     di_sidbp = load64 152 bs, di_didbp = load64 160 bs, di_reserved = bytes_at 168 25 bs\<rparr>"

definition inode_image :: "inode_t \<Rightarrow> byte list" where
  "inode_image di = struct_image lp64 inode_fields
    [le16 (di_mode di), le16 (di_uid di), le16 (di_gid di), le64 (di_size di), le64 (di_atime di),
     le64 (di_ctime di), le64 (di_mtime di), [di_links di], le64 (di_blocks di),
     concat (map le64 (di_dbp di)), le64 (di_sidbp di), le64 (di_didbp di), di_reserved di]"

definition wf_inode :: "inode_t \<Rightarrow> bool" where
  "wf_inode di \<longleftrightarrow> length (di_dbp di) = 12 \<and> length (di_reserved di) = 25"

section \<open>Fixed-width records in a table\<close>

text \<open>
  The interface of an on-disk record: a fixed width, and an encoding that the decoder inverts.
  Its client lemmas are about a table of such records laid out one after another, which is what an
  inode block is.
\<close>

locale struct_codec =
  fixes enc :: "'a \<Rightarrow> byte list" and dec :: "byte list \<Rightarrow> 'a" and width :: nat
    and wf :: "'a \<Rightarrow> bool"
  assumes enc_width: "wf x \<Longrightarrow> length (enc x) = width"
    and dec_enc: "wf x \<Longrightarrow> dec (enc x) = x"
begin

lemma enc_inj: "wf x \<Longrightarrow> wf y \<Longrightarrow> enc x = enc y \<Longrightarrow> x = y"
  by (metis dec_enc)

lemma table_width: "list_all wf xs \<Longrightarrow> length (concat (map enc xs)) = length xs * width"
  by (induction xs) (simp_all add: enc_width)

lemma table_bytes_at:
  "list_all wf xs \<Longrightarrow> i < length xs \<Longrightarrow> bytes_at (i * width) width (concat (map enc xs)) = enc (xs ! i)"
proof (induction xs arbitrary: i)
  case Nil
  then show ?case by simp
next
  case (Cons x xs)
  then show ?case
    by (cases i) (simp_all add: enc_width bytes_at_def)
qed

lemma table_lookup:
  "list_all wf xs \<Longrightarrow> i < length xs \<Longrightarrow> dec (bytes_at (i * width) width (concat (map enc xs))) = xs ! i"
  by (simp add: table_bytes_at dec_enc list_all_length)

lemma table_update:
  assumes "list_all wf xs" "i < length xs" "wf y"
  shows "overwrite (i * width) (enc y) (concat (map enc xs)) = concat (map enc (xs[i := y]))"
  using assms(1,2)
proof (induction xs arbitrary: i)
  case Nil
  then show ?case by simp
next
  case (Cons x xs)
  then show ?case
    using assms(3) by (cases i) (simp_all add: enc_width overwrite_def add.assoc)
qed

end

lemma length_le16 [simp]: "length (le16 w) = 2"
  by (simp add: le16_def)

lemma length_le64 [simp]: "length (le64 w) = 8"
  by (simp add: le64_def)

lemma unat16_less: "unat (w :: ushort) < 65536"
  by (rule order_less_le_trans [OF unsigned_less]) simp

lemma unat64_less: "unat (w :: ulong) < 18446744073709551616"
  by (rule order_less_le_trans [OF unsigned_less]) simp

lemma load16_le16: "bytes_at off 2 bs = le16 w \<Longrightarrow> load16 off bs = w"
  by (simp add: load16_def le16_def le_value_bytes unat16_less)

lemma load64_le64: "bytes_at off 8 bs = le64 w \<Longrightarrow> load64 off bs = w"
  by (simp add: load64_def le64_def le_value_bytes unat64_less)

lemma load8_byte: "bytes_at off 1 bs = [b] \<Longrightarrow> load8 off bs = b"
  by (simp add: load8_def)

lemma length_concat_le64 [simp]: "length (concat (map le64 ws)) = 8 * length ws"
  by (induction ws) simp_all

lemma bytes_at_concat_le64: "i < length ws \<Longrightarrow> bytes_at (8 * i) 8 (concat (map le64 ws)) = le64 (ws ! i)"
proof (induction ws arbitrary: i)
  case Nil
  then show ?case by simp
next
  case (Cons w ws)
  then show ?case by (cases i) (simp_all add: bytes_at_def)
qed

lemma bytes_at_bytes_at: "q + k \<le> n \<Longrightarrow> bytes_at q k (bytes_at p n bs) = bytes_at (p + q) k bs"
  by (simp add: bytes_at_def drop_take min_def add.commute)

lemma load_dbp_concat:
  assumes "bytes_at off (8 * n) bs = concat (map le64 ws)" "length ws = n"
  shows "load_dbp n off bs = ws"
proof (rule nth_equalityI)
  show "length (load_dbp n off bs) = length ws"
    using assms by (simp add: load_dbp_def)
  fix i assume "i < length (load_dbp n off bs)"
  then have i: "i < n" by (simp add: load_dbp_def)
  then have "bytes_at (off + 8 * i) 8 bs = le64 (ws ! i)"
    using assms bytes_at_bytes_at [of "8 * i" 8 "8 * n" off bs] bytes_at_concat_le64 [of i ws] by simp
  then show "load_dbp n off bs ! i = ws ! i"
    using i by (simp add: load_dbp_def load64_le64)
qed

lemma fits_superblock:
  assumes "wf_superblock sb"
  shows "fields_fit lp64 superblock_fields
    [le16 (inode_blocks_count sb), le64 (datablock_blocks_count sb), le64 (sb_mtime sb),
     le64 (sb_wtime sb), le64 (sb_mnt_count sb), le64 (sb_magic sb), [sb_dirty sb],
     sb_reserved sb]"
  using assms by (simp add: fields_fit_def superblock_fields_def wf_superblock_def lp64_def)

lemma fits_inode:
  assumes "wf_inode di"
  shows "fields_fit lp64 inode_fields
    [le16 (di_mode di), le16 (di_uid di), le16 (di_gid di), le64 (di_size di), le64 (di_atime di),
     le64 (di_ctime di), le64 (di_mtime di), [di_links di], le64 (di_blocks di),
     concat (map le64 (di_dbp di)), le64 (di_sidbp di), le64 (di_didbp di), di_reserved di]"
  using assms by (simp add: fields_fit_def inode_fields_def wf_inode_def lp64_def)

lemma long_bytes_lp64 [simp]: "long_bytes lp64 = 8"
  by (simp add: lp64_def)

lemmas superblock_bytes = bytes_at_struct_image [OF abi_ok_lp64 fits_superblock]
lemmas inode_bytes = bytes_at_struct_image [OF abi_ok_lp64 fits_inode]

interpretation sbc: struct_codec superblock_image superblock_of 1056 wf_superblock
proof unfold_locales
  fix sb assume wf: "wf_superblock sb"
  show "length (superblock_image sb) = 1056"
    unfolding superblock_image_def length_struct_image [OF abi_ok_lp64 fits_superblock [OF wf]]
    by (simp add: layout_simps)
  note sl = superblock_bytes [OF wf, folded superblock_image_def, unfolded place_superblock]
  have len: "length superblock_fields = 8" by (simp add: superblock_fields_def)
  show "superblock_of (superblock_image sb) = sb"
    using sl [of 0] sl [of 1] sl [of 2] sl [of 3] sl [of 4] sl [of 5] sl [of 6] sl [of 7]
    by (simp add: len superblock_of_def load16_le16 load64_le64 load8_byte)
qed

interpretation inc: struct_codec inode_image inode_of 200 wf_inode
proof unfold_locales
  fix di assume wf: "wf_inode di"
  show "length (inode_image di) = 200"
    unfolding inode_image_def length_struct_image [OF abi_ok_lp64 fits_inode [OF wf]]
    by (simp add: layout_simps)
  note sl = inode_bytes [OF wf, folded inode_image_def, unfolded place_inode]
  have len: "length inode_fields = 13" by (simp add: inode_fields_def)
  have "bytes_at 56 (8 * 12) (inode_image di) = concat (map le64 (di_dbp di))"
    using sl [of 9] by (simp add: len)
  then have dbp: "load_dbp 12 56 (inode_image di) = di_dbp di"
    using wf by (intro load_dbp_concat) (simp_all add: wf_inode_def)
  show "inode_of (inode_image di) = di"
    using sl [of 0] sl [of 1] sl [of 2] sl [of 3] sl [of 4] sl [of 5] sl [of 6] sl [of 7] sl [of 8]
      sl [of 10] sl [of 11] sl [of 12] dbp
    by (simp add: len inode_of_def load16_le16 load64_le64 load8_byte)
qed

lemma place_sound:
  assumes "abi_ok A"
  shows "sorted_wrt (\<lambda>(f, off, t) (g, off', u). off + sizeof A t \<le> off') (place A 0 st)
    \<and> list_all (\<lambda>(f, off, t). alignof A t dvd off \<and> off + sizeof A t \<le> sizeof_struct A st) (place A 0 st)"
proof -
  have "struct_end A 0 st \<le> sizeof_struct A st"
    unfolding sizeof_struct_def by (rule align_up_ge [OF struct_align_pos])
  then show ?thesis
    using place_ordered [OF assms] place_end [OF assms] unfolding list_all_iff
    by (fastforce intro: place_aligned)
qed

section \<open>Properties\<close>

definition sample_disk_inode :: inode_t where
  "sample_disk_inode = \<lparr>di_mode = 0x4180, di_uid = 500, di_gid = 100, di_size = 1024, di_atime = 11,
     di_ctime = 12, di_mtime = 13, di_links = 2, di_blocks = 1, di_dbp = replicate 12 9, di_sidbp = 0,
     di_didbp = 0, di_reserved = replicate 25 0\<rparr>"

lemma wf_sample_disk_inode [simp]: "wf_inode sample_disk_inode"
  by (simp add: wf_inode_def sample_disk_inode_def)

definition sample_superblock :: superblock_t where
  "sample_superblock = \<lparr>inode_blocks_count = 1, datablock_blocks_count = 2, sb_mtime = 3, sb_wtime = 4,
     sb_mnt_count = 5, sb_magic = 0x534A5346, sb_dirty = 0, sb_reserved = replicate (SJFS_BLOCKSIZE - 23) 0\<rparr>"

lemma wf_sample_superblock [simp]: "wf_superblock sample_superblock"
  by (simp add: wf_superblock_def sample_superblock_def)


end
