(* ===== verification/Kernel_Api.thy ===== *)
theory Kernel_Api
  imports Blocks
begin

text \<open>
  What the modules use of the Linux kernel.

  The kernel is not part of the sources, so its functions are parameters: a value of the record
  \<open>kernel\<close> is one kernel, every operation takes it as its first argument, and no lemma assumes
  anything of it that is not a named hypothesis (\<open>counting_semaphores\<close>, \<open>memory_ok\<close>, \<open>sends_ok\<close>, ...).
  A call whose effect stays inside the kernel is appended to \<open>calls\<close>, and the kernel's answers may
  depend on the whole history of calls. Only the C heap is concrete: objects are byte lists at
  non-null addresses, and an access outside an object, through a dead pointer or a \<open>kfree\<close> of
  something that is not live is a \<open>Crash\<close>. Whether \<open>kmalloc\<close> returns \<open>NULL\<close>, and what uninitialised
  memory holds, is the kernel's choice.
\<close>

section \<open>Error numbers and file modes\<close>

definition EFAULT :: int where "EFAULT = 14"
definition EBUSY :: int where "EBUSY = 16"
definition ENOMEM :: int where "ENOMEM = 12"
definition ENOSPC :: int where "ENOSPC = 28"

lemmas errno_defs = EFAULT_def EBUSY_def ENOMEM_def ENOSPC_def

definition S_IFMT :: ushort where "S_IFMT = 0xF000"
definition S_IFREG :: ushort where "S_IFREG = 0x8000"
definition S_IFDIR :: ushort where "S_IFDIR = 0x4000"
definition S_IFLNK :: ushort where "S_IFLNK = 0xA000"
definition S_IRWXU :: ushort where "S_IRWXU = 0x1C0"
definition S_IRGRP :: ushort where "S_IRGRP = 0x20"
definition S_IXGRP :: ushort where "S_IXGRP = 0x8"
definition S_IROTH :: ushort where "S_IROTH = 0x4"
definition S_IXOTH :: ushort where "S_IXOTH = 0x1"
definition S_IRWXUGO :: ushort where "S_IRWXUGO = 0x1FF"

lemmas mode_defs = S_IFMT_def S_IFREG_def S_IFDIR_def S_IFLNK_def S_IRWXU_def S_IRGRP_def
  S_IXGRP_def S_IROTH_def S_IXOTH_def S_IRWXUGO_def

section \<open>Kernel data the sources touch\<close>

type_synonym ptr = nat  \<comment> \<open>an address of the heap; 0 is NULL\<close>
type_synonym timespec = "ulong \<times> ulong"  \<comment> \<open>tv_sec, tv_nsec\<close>
type_synonym umode_t = ushort

text \<open>\<open>struct inode\<close>, its fields that the sources read or write. Operation tables are named by
  the symbol of the table.\<close>

record kinode =
  i_ino :: ulong
  i_mode :: umode_t
  i_uid :: uint
  i_gid :: uint
  i_size :: ulong
  i_atime :: timespec
  i_mtime :: timespec
  i_ctime :: timespec
  i_nlink :: uint
  i_blocks :: ulong
  i_private :: ptr
  i_op :: string
  i_fop :: string
  a_ops :: string

record dentry =
  d_name :: "string option"
  d_inode :: "kinode option"

record super_block =
  s_blocksize_bits :: byte
  s_blocksize :: ulong
  s_maxbytes :: ulong
  s_time_gran :: uint
  s_op :: string
  s_magic :: ulong
  s_fs_info :: ptr
  s_root :: "dentry option"

record cn_msg =
  msg_id :: "uint \<times> uint"
  msg_seq :: uint
  msg_ack :: uint
  msg_len :: ushort
  msg_data :: "byte list"

section \<open>Calls whose effect stays inside the kernel\<close>

datatype kcall =
    Current_time | New_inode | Get_next_ino
  | Cn_netlink_send cn_msg | Cn_add_callback "uint \<times> uint" string | Cn_del_callback "uint \<times> uint"
  | Sock_release
  | D_instantiate dentry kinode | Dget dentry | D_make_root "kinode option" | Iput kinode
  | Mapping_set_gfp_mask | Mapping_set_unevictable
  | Save_mount_options | Mount_single string | Mount_nodev string | Kill_litter_super
  | Register_filesystem string | Unregister_filesystem string
  | Call_usermodehelper "string list"
  | Page_symlink kinode string nat
  | Simple_lookup kinode dentry uint | Simple_unlink kinode dentry
  | Simple_link dentry kinode dentry | Simple_rmdir kinode dentry
  | Simple_rename kinode dentry kinode dentry
  | Simple_setattr dentry | Simple_getattr dentry | Generic_permission kinode int
  | Update_time kinode timespec uint
  | Generic_call string  \<comment> \<open>a library handler the source only forwards its arguments to\<close>

datatype parg = PNum int | PStr string

record kernel =
  kmalloc_ok :: "nat \<Rightarrow> nat \<Rightarrow> bool"      \<comment> \<open>does the n-th allocation, of that size, succeed\<close>
  junk :: "nat \<Rightarrow> nat \<Rightarrow> byte"            \<comment> \<open>what uninitialised memory holds\<close>
  sem_down :: "nat \<Rightarrow> nat option"        \<comment> \<open>new count, or None: the thread sleeps\<close>
  sem_trylock :: "nat \<Rightarrow> int \<times> nat"
  sem_up :: "nat \<Rightarrow> nat"
  kret :: "kcall list \<Rightarrow> kcall \<Rightarrow> int"    \<comment> \<open>what a call returns\<close>
  ktime :: "kcall list \<Rightarrow> timespec"
  knew_inode :: "kcall list \<Rightarrow> kinode option"
  knext_ino :: "kcall list \<Rightarrow> ulong"
  inode_init_owner :: "kinode \<Rightarrow> kinode option \<Rightarrow> umode_t \<Rightarrow> kinode"
  inc_nlink :: "kinode \<Rightarrow> kinode"
  set_nlink :: "kinode \<Rightarrow> uint \<Rightarrow> kinode"
  init_special_inode :: "kinode \<Rightarrow> umode_t \<Rightarrow> uint \<Rightarrow> kinode"
  i_uid_write :: "kinode \<Rightarrow> uint \<Rightarrow> kinode"
  i_gid_write :: "kinode \<Rightarrow> uint \<Rightarrow> kinode"
  i_size_write :: "kinode \<Rightarrow> ulong \<Rightarrow> kinode"
  kd_make_root :: "kcall list \<Rightarrow> kinode \<Rightarrow> dentry option"
  CN_NETLINK_USERS :: uint
  sizeof_cn_msg :: nat
  MAX_LFS_FILESIZE :: ulong
  PAGE_CACHE_SIZE :: ulong
  PAGE_CACHE_SHIFT :: byte
  S_ATIME :: uint
  S_MTIME :: uint
  S_CTIME :: uint
  after_msg :: "cn_msg \<Rightarrow> byte list"     \<comment> \<open>what lies behind a message in its socket buffer\<close>

text \<open>What \<open>%s\<close> prints for a pointer to these bytes: everything before the first zero byte.\<close>

definition c_string :: "byte list \<Rightarrow> string" where
  "c_string bs = map (\<lambda>b. char_of (unat b)) (takeWhile (\<lambda>b. b \<noteq> 0) bs)"

record kstate =
  heap :: "ptr \<Rightarrow> byte list option"
  next_ptr :: nat
  klog :: "(string \<times> parg list) list"
  calls :: "kcall list"

text \<open>Documented behaviour of \<open>down\<close>, \<open>down_trylock\<close> and \<open>up\<close> on a counting semaphore.\<close>

definition counting_semaphores :: "kernel \<Rightarrow> bool" where
  "counting_semaphores K \<longleftrightarrow>
     (\<forall>n. sem_down K n = (if n = 0 then None else Some (n - 1)) \<and>
          sem_trylock K n = (if n = 0 then (1, 0) else (0, n - 1)) \<and> sem_up K n = Suc n)"

lemma counting_semaphoresD [simp]:
  assumes "counting_semaphores K"
  shows "sem_down K n = (if n = 0 then None else Some (n - 1))"
    and "sem_trylock K n = (if n = 0 then (1, 0) else (0, n - 1))"
    and "sem_up K n = Suc n"
  using assms by (simp_all add: counting_semaphores_def)

section \<open>Calls, log and heap\<close>

definition printk :: "string \<Rightarrow> parg list \<Rightarrow> ('a kstate_scheme, unit) km" where
  "printk fmt args = modK (\<lambda>s. s\<lparr>klog := klog s @ [(fmt, args)]\<rparr>)"

definition kcall :: "kernel \<Rightarrow> kcall \<Rightarrow> ('a kstate_scheme, int) km" where
  "kcall K c = (\<lambda>s. Ret (kret K (calls s) c, s\<lparr>calls := calls s @ [c]\<rparr>))"

definition CURRENT_TIME :: "kernel \<Rightarrow> ('a kstate_scheme, timespec) km" where
  "CURRENT_TIME K = (\<lambda>s. Ret (ktime K (calls s), s\<lparr>calls := calls s @ [Current_time]\<rparr>))"

definition new_inode :: "kernel \<Rightarrow> ('a kstate_scheme, kinode option) km" where
  "new_inode K = (\<lambda>s. Ret (knew_inode K (calls s), s\<lparr>calls := calls s @ [New_inode]\<rparr>))"

definition get_next_ino :: "kernel \<Rightarrow> ('a kstate_scheme, ulong) km" where
  "get_next_ino K = (\<lambda>s. Ret (knext_ino K (calls s), s\<lparr>calls := calls s @ [Get_next_ino]\<rparr>))"

text \<open>\<open>d_make_root(NULL)\<close> is \<open>NULL\<close>.\<close>

definition d_make_root :: "kernel \<Rightarrow> kinode option \<Rightarrow> ('a kstate_scheme, dentry option) km" where
  "d_make_root K io = (\<lambda>s. Ret (Option.bind io (kd_make_root K (calls s)),
     s\<lparr>calls := calls s @ [D_make_root io]\<rparr>))"

definition kmalloc :: "kernel \<Rightarrow> nat \<Rightarrow> ('a kstate_scheme, ptr) km" where
  "kmalloc K n = (\<lambda>s. let p = next_ptr s in
     if kmalloc_ok K p n
     then Ret (p, s\<lparr>heap := (heap s)(p \<mapsto> map (junk K p) [0..<n]), next_ptr := Suc p\<rparr>)
     else Ret (0, s\<lparr>next_ptr := Suc p\<rparr>))"

definition kzalloc :: "kernel \<Rightarrow> nat \<Rightarrow> ('a kstate_scheme, ptr) km" where
  "kzalloc K n = (\<lambda>s. let p = next_ptr s in
     if kmalloc_ok K p n
     then Ret (p, s\<lparr>heap := (heap s)(p \<mapsto> replicate n 0), next_ptr := Suc p\<rparr>)
     else Ret (0, s\<lparr>next_ptr := Suc p\<rparr>))"

definition kfree :: "ptr \<Rightarrow> ('a kstate_scheme, unit) km" where
  "kfree p = (\<lambda>s. if p = 0 then Ret ((), s)
     else if heap s p = None then Crash BadFree else Ret ((), s\<lparr>heap := (heap s)(p := None)\<rparr>))"

text \<open>\<open>heap_read p off n\<close> and \<open>heap_write p off bs\<close> are the two sides of
  \<open>memcpy\<close> on the object at \<open>p\<close>.\<close>

definition heap_read :: "ptr \<Rightarrow> nat \<Rightarrow> nat \<Rightarrow> ('a kstate_scheme, byte list) km" where
  "heap_read p off n = (\<lambda>s. case heap s p of None \<Rightarrow> Crash BadPointer
     | Some bs \<Rightarrow> if off + n \<le> length bs then Ret (bytes_at off n bs, s) else Crash OutOfBounds)"

definition heap_write :: "ptr \<Rightarrow> nat \<Rightarrow> byte list \<Rightarrow> ('a kstate_scheme, unit) km" where
  "heap_write p off xs = (\<lambda>s. case heap s p of None \<Rightarrow> Crash BadPointer
     | Some bs \<Rightarrow> if off + length xs \<le> length bs
         then Ret ((), s\<lparr>heap := (heap s)(p \<mapsto> overwrite off xs bs)\<rparr>) else Crash OutOfBounds)"

lemma printk_run [run_simps]: "printk fmt args s = Ret ((), s\<lparr>klog := klog s @ [(fmt, args)]\<rparr>)"
  by (simp add: printk_def run_simps)

lemma kcall_run [run_simps]: "kcall K c s = Ret (kret K (calls s) c, s\<lparr>calls := calls s @ [c]\<rparr>)"
  by (simp add: kcall_def)

lemma CURRENT_TIME_run [run_simps]:
  "CURRENT_TIME K s = Ret (ktime K (calls s), s\<lparr>calls := calls s @ [Current_time]\<rparr>)"
  by (simp add: CURRENT_TIME_def)

lemma new_inode_run [run_simps]:
  "new_inode K s = Ret (knew_inode K (calls s), s\<lparr>calls := calls s @ [New_inode]\<rparr>)"
  by (simp add: new_inode_def)

lemma get_next_ino_run [run_simps]:
  "get_next_ino K s = Ret (knext_ino K (calls s), s\<lparr>calls := calls s @ [Get_next_ino]\<rparr>)"
  by (simp add: get_next_ino_def)

lemma d_make_root_run [run_simps]:
  "d_make_root K io s = Ret (Option.bind io (kd_make_root K (calls s)),
     s\<lparr>calls := calls s @ [D_make_root io]\<rparr>)"
  by (simp add: d_make_root_def)

section \<open>The heap invariant\<close>

definition heap_wf :: "'a kstate_scheme \<Rightarrow> bool" where
  "heap_wf s \<longleftrightarrow> 0 < next_ptr s \<and> (\<forall>p. heap s p \<noteq> None \<longrightarrow> 0 < p \<and> p < next_ptr s)"

definition live :: "'a kstate_scheme \<Rightarrow> ptr set" where
  "live s = {p. heap s p \<noteq> None}"

lemma heap_wf_null [simp]: "heap_wf s \<Longrightarrow> heap s 0 = None"
  by (cases "heap s 0") (auto simp: heap_wf_def)

lemma heap_wf_fresh [simp]: "heap_wf s \<Longrightarrow> heap s (next_ptr s) = None"
  by (cases "heap s (next_ptr s)") (auto simp: heap_wf_def)

lemma heap_wf_next [simp]: "heap_wf s \<Longrightarrow> next_ptr s \<noteq> 0" "heap_wf s \<Longrightarrow> 0 < next_ptr s"
  by (simp_all add: heap_wf_def)

text \<open>Operations that leave the heap and the pointer counter alone keep the invariant.\<close>

lemma heap_wf_base_updates [simp]:
  "heap_wf (s\<lparr>klog := l\<rparr>) = heap_wf s" "heap_wf (s\<lparr>calls := c\<rparr>) = heap_wf s"
  by (simp_all add: heap_wf_def)

lemma heap_wf_cong: "heap s' = heap s \<Longrightarrow> next_ptr s' = next_ptr s \<Longrightarrow> heap_wf s' = heap_wf s"
  by (simp add: heap_wf_def)

lemma heap_wf_clear: "heap_wf s \<Longrightarrow> heap_wf (s\<lparr>heap := (heap s)(p := None)\<rparr>)"
  unfolding heap_wf_def by simp

lemma keeps_printk [keeps]: "keepsK heap_wf (printk fmt args)"
  by (auto simp: keepsK_def run_simps heap_wf_def)

lemma keeps_kcall [keeps]: "keepsK heap_wf (kcall K c)"
  by (auto simp: keepsK_def run_simps heap_wf_def)

lemma keeps_CURRENT_TIME [keeps]: "keepsK heap_wf (CURRENT_TIME K)"
  by (auto simp: keepsK_def run_simps heap_wf_def)

lemma keeps_new_inode [keeps]: "keepsK heap_wf (new_inode K)"
  by (auto simp: keepsK_def run_simps heap_wf_def)

lemma keeps_get_next_ino [keeps]: "keepsK heap_wf (get_next_ino K)"
  by (auto simp: keepsK_def run_simps heap_wf_def)

lemma keeps_d_make_root [keeps]: "keepsK heap_wf (d_make_root K io)"
  by (auto simp: keepsK_def run_simps heap_wf_def)

lemma keeps_kmalloc [keeps]: "keepsK heap_wf (kmalloc K n)"
  by (auto simp: keepsK_def kmalloc_def heap_wf_def Let_def less_Suc_eq split: if_splits)

lemma keeps_kzalloc [keeps]: "keepsK heap_wf (kzalloc K n)"
  by (auto simp: keepsK_def kzalloc_def heap_wf_def Let_def less_Suc_eq split: if_splits)

lemma keeps_kfree [keeps]: "keepsK heap_wf (kfree p)"
  unfolding keepsK_def kfree_def
  by (auto split: if_splits intro: heap_wf_clear)

lemma keeps_heap_read [keeps]: "keepsK heap_wf (heap_read p off n)"
  by (auto simp: keepsK_def heap_read_def split: option.splits if_splits)

lemma keeps_heap_write [keeps]: "keepsK heap_wf (heap_write p off xs)"
  by (auto simp: keepsK_def heap_write_def heap_wf_def split: option.splits if_splits)

text \<open>A kernel that never runs out of memory.\<close>

definition memory_ok :: "kernel \<Rightarrow> bool" where
  "memory_ok K \<longleftrightarrow> (\<forall>p n. kmalloc_ok K p n)"

lemma kmalloc_run:
  "memory_ok K \<Longrightarrow> kmalloc K n s = Ret (next_ptr s,
     s\<lparr>heap := (heap s)(next_ptr s \<mapsto> map (junk K (next_ptr s)) [0..<n]), next_ptr := Suc (next_ptr s)\<rparr>)"
  by (simp add: memory_ok_def kmalloc_def Let_def)

lemma kzalloc_run:
  "memory_ok K \<Longrightarrow> kzalloc K n s = Ret (next_ptr s,
     s\<lparr>heap := (heap s)(next_ptr s \<mapsto> replicate n 0), next_ptr := Suc (next_ptr s)\<rparr>)"
  by (simp add: memory_ok_def kzalloc_def Let_def)

text \<open>Reading back what was written, and what lies beside it.\<close>

lemma heap_write_read:
  assumes "heap s p = Some bs" "off + length xs \<le> length bs"
  shows "bindK (heap_write p off xs) (\<lambda>_. heap_read p off (length xs)) s
           = Ret (xs, s\<lparr>heap := (heap s)(p \<mapsto> overwrite off xs bs)\<rparr>)"
  using assms by (simp add: run_simps heap_write_def heap_read_def)

section \<open>A concrete kernel\<close>

text \<open>A kernel that never runs out of memory, with counting semaphores, whose calls return 0 and
  whose clock is the number of calls. The lemmas on it show that the hypotheses used later can hold.\<close>

definition sample_inode :: kinode where
  "sample_inode = \<lparr>i_ino = 3, i_mode = 0, i_uid = 0, i_gid = 0, i_size = 0, i_atime = (0, 0),
     i_mtime = (0, 0), i_ctime = (0, 0), i_nlink = 1, i_blocks = 0, i_private = 0, i_op = '''',
     i_fop = '''', a_ops = ''''\<rparr>"

definition sample_kernel :: kernel where
  "sample_kernel =
    \<lparr>kmalloc_ok = (\<lambda>_ _. True), junk = (\<lambda>_ _. 0xAA),
     sem_down = (\<lambda>n. if n = 0 then None else Some (n - 1)),
     sem_trylock = (\<lambda>n. if n = 0 then (1, 0) else (0, n - 1)), sem_up = Suc,
     kret = (\<lambda>_ _. 0), ktime = (\<lambda>h. (of_nat (length h), 0)), knew_inode = (\<lambda>_. Some sample_inode),
     knext_ino = (\<lambda>h. of_nat (length h)), inode_init_owner = (\<lambda>i dir mode. i\<lparr>i_mode := mode\<rparr>),
     inc_nlink = (\<lambda>i. i\<lparr>i_nlink := i_nlink i + 1\<rparr>), set_nlink = (\<lambda>i n. i\<lparr>i_nlink := n\<rparr>),
     init_special_inode = (\<lambda>i mode dev. i\<lparr>i_mode := mode\<rparr>),
     i_uid_write = (\<lambda>i u. i\<lparr>i_uid := u\<rparr>), i_gid_write = (\<lambda>i g. i\<lparr>i_gid := g\<rparr>),
     i_size_write = (\<lambda>i n. i\<lparr>i_size := n\<rparr>),
     kd_make_root = (\<lambda>_ i. Some \<lparr>d_name = None, d_inode = Some i\<rparr>),
     CN_NETLINK_USERS = 11, sizeof_cn_msg = 20, MAX_LFS_FILESIZE = 0x7FFFFFFFFFFFFFFF,
     PAGE_CACHE_SIZE = 4096, PAGE_CACHE_SHIFT = 12, S_ATIME = 1, S_MTIME = 2, S_CTIME = 4,
     after_msg = (\<lambda>_. [0])\<rparr>"

lemma sample_kernel_ok [simp]: "counting_semaphores sample_kernel" "memory_ok sample_kernel"
  by (simp_all add: counting_semaphores_def memory_ok_def sample_kernel_def)

end
