(* ===== verification/Connector.thy ===== *)
theory Connector
  imports Kernel_Api
begin

text \<open>
  The socket level of \<open>src/kernel_space_module/sjfs.c\<close>: how the module asks the user-space helper
  for a block and waits for the answer. \<open>sjfs_state\<close> holds the static variables of \<open>sjfs.h\<close>.

  The functions here run one thread of the module. User space is the parameter \<open>user\<close>: the
  messages it sends back when the module sends it one. They wait in \<open>inbox\<close> and are delivered,
  each by a run of \<open>cn_callback\<close>, when the thread sleeps on \<open>cb_sem\<close>; a thread that sleeps with
  nothing left to deliver is \<open>Hang\<close>. All interleavings of several readers and callbacks are the
  subject of \<open>Connector_Steps\<close>.
\<close>

section \<open>The state of the module\<close>

record sjfs_state = kstate +
  cn_sem :: nat
  cb_sem :: nat
  cn_counter :: uint
  read_block_buffer :: "byte list"
  inodes_bitmaps_cache :: ptr
  datablocks_bitmaps_cache :: ptr
  nls_socket :: bool  \<comment> \<open>nls and nls->sk_socket are not NULL\<close>
  once :: bool
  inbox :: "cn_msg list"

definition cn_id :: "kernel \<Rightarrow> uint \<times> uint" where
  "cn_id K = (CN_NETLINK_USERS K + 3, 0x456)"

definition cn_name :: string where
  "cn_name = ''sjfs''"

definition SJFS_MAGIC :: ulong where
  "SJFS_MAGIC = 0x534A5346"

section \<open>Semaphores\<close>

definition up_cb :: "kernel \<Rightarrow> (sjfs_state, unit) km" where
  "up_cb K = modK (\<lambda>s. s\<lparr>cb_sem := sem_up K (cb_sem s)\<rparr>)"

definition up_cn :: "kernel \<Rightarrow> (sjfs_state, unit) km" where
  "up_cn K = modK (\<lambda>s. s\<lparr>cn_sem := sem_up K (cn_sem s)\<rparr>)"

definition down_trylock_cb :: "kernel \<Rightarrow> (sjfs_state, int) km" where
  "down_trylock_cb K = (\<lambda>s. case sem_trylock K (cb_sem s) of (r, n) \<Rightarrow> Ret (r, s\<lparr>cb_sem := n\<rparr>))"

definition down_cn :: "kernel \<Rightarrow> (sjfs_state, unit) km" where
  "down_cn K = (\<lambda>s. case sem_down K (cn_sem s) of None \<Rightarrow> Hang | Some n \<Rightarrow> Ret ((), s\<lparr>cn_sem := n\<rparr>))"

section \<open>cn\_callback\<close>

definition callback_len :: "cn_msg \<Rightarrow> nat" where
  "callback_len msg = (if unat (msg_len msg) > SJFS_BLOCKSIZE then SJFS_BLOCKSIZE else unat (msg_len msg))"

definition copy_reply :: "cn_msg \<Rightarrow> (sjfs_state, unit) km" where
  "copy_reply msg = (\<lambda>s. let n = callback_len msg in
     if n \<le> length (msg_data msg) \<and> n \<le> length (read_block_buffer s)
     then Ret ((), s\<lparr>read_block_buffer := overwrite 0 (take n (msg_data msg)) (read_block_buffer s)\<rparr>)
     else Crash OutOfBounds)"

text \<open>\<open>msg->data\<close> need not end with a zero byte; \<open>%s\<close> then reads on behind the message.\<close>

definition callback_log :: "kernel \<Rightarrow> cn_msg \<Rightarrow> string \<times> parg list" where
  "callback_log K msg =
    (''cn_callback %s: idx=%x, val=%x, seq=%u, ack=%u, len=%d: %s.\<newline>'',
     [PStr ''cn_callback'', PNum (uint (fst (msg_id msg))), PNum (uint (snd (msg_id msg))),
      PNum (uint (msg_seq msg)), PNum (uint (msg_ack msg)), PNum (uint (msg_len msg)),
      PStr (if msg_len msg \<noteq> 0 then c_string (msg_data msg @ after_msg K msg) else '''')])"

definition cn_callback :: "kernel \<Rightarrow> cn_msg \<Rightarrow> (sjfs_state, unit) km" where
  "cn_callback K msg =
     bindK (down_trylock_cb K) (\<lambda>r.
       if r = 0 then up_cb K
       else thenK (copy_reply msg)
           (thenK (up_cb K)
             (printk (fst (callback_log K msg)) (snd (callback_log K msg)))))"

text \<open>\<open>down(&cb_sem)\<close>: while the count is 0 the thread sleeps and pending messages are delivered.\<close>

fun down_cb_wait :: "kernel \<Rightarrow> cn_msg list \<Rightarrow> (sjfs_state, unit) km" where
  "down_cb_wait K [] s = (case sem_down K (cb_sem s) of
       None \<Rightarrow> Hang | Some n \<Rightarrow> Ret ((), s\<lparr>cb_sem := n, inbox := []\<rparr>))"
| "down_cb_wait K (m # ms) s = (case sem_down K (cb_sem s) of
       Some n \<Rightarrow> Ret ((), s\<lparr>cb_sem := n, inbox := m # ms\<rparr>)
     | None \<Rightarrow> (case cn_callback K m s of
           Ret r \<Rightarrow> down_cb_wait K ms (snd r) | Hang \<Rightarrow> Hang | Crash e \<Rightarrow> Crash e))"

definition down_cb :: "kernel \<Rightarrow> (sjfs_state, unit) km" where
  "down_cb K = (\<lambda>s. down_cb_wait K (inbox s) s)"

section \<open>The read request\<close>

text \<open>\<open>scnprintf(data, sizeof(data), "%c%u", SJFS_OPCODE_READ, address)\<close> with a five byte
  buffer: at most four characters and the terminating zero, which \<open>m->len\<close> counts too.\<close>

fun decimal :: "nat \<Rightarrow> byte list" where
  "decimal n = (if n < 10 then [of_nat (48 + n)] else decimal (n div 10) @ [of_nat (48 + n mod 10)])"

declare decimal.simps [simp del]

definition scnprintf_bytes :: "nat \<Rightarrow> byte list \<Rightarrow> byte list" where
  "scnprintf_bytes sz text = take (sz - 1) text @ [0]"

definition read_request :: "uint \<Rightarrow> byte list" where
  "read_request address = scnprintf_bytes 5 (SJFS_OPCODE_READ # decimal (unat address))"

definition read_msg :: "kernel \<Rightarrow> uint \<Rightarrow> uint \<Rightarrow> cn_msg" where
  "read_msg K seq address =
    \<lparr>msg_id = cn_id K, msg_seq = seq, msg_ack = 0, msg_len = of_nat (length (read_request address)),
     msg_data = read_request address\<rparr>"

text \<open>A message the kernel refuses to send (a negative return) never reaches user space.\<close>

definition cn_netlink_send :: "kernel \<Rightarrow> (cn_msg \<Rightarrow> cn_msg list) \<Rightarrow> cn_msg \<Rightarrow> (sjfs_state, int) km" where
  "cn_netlink_send K user m = bindK (kcall K (Cn_netlink_send m)) (\<lambda>r.
     thenK (modK (\<lambda>s. if r < 0 then s else s\<lparr>inbox := inbox s @ user m\<rparr>)) (retK r))"

section \<open>sjfs\_read\_block and sjfs\_write\_block\<close>

text \<open>The block is the heap object at \<open>p\<close>, from byte \<open>off\<close> on.\<close>

definition sjfs_read_block ::
  "kernel \<Rightarrow> (cn_msg \<Rightarrow> cn_msg list) \<Rightarrow> uint \<Rightarrow> ptr \<Rightarrow> nat \<Rightarrow> (sjfs_state, int) km" where
  "sjfs_read_block K user address p off =
     bindK (kzalloc K (sizeof_cn_msg K + 5)) (\<lambda>m.
     thenK
       (if m \<noteq> 0 then
          bindK (getK cn_counter) (\<lambda>seq.
          thenK (heap_write m (sizeof_cn_msg K) (read_request address))
         (thenK (down_cn K)
         (thenK (down_cb K)
         (thenK (cn_netlink_send K user (read_msg K seq address))
                (kfree m)))))
        else retK ())
    (thenK (modK (\<lambda>s. s\<lparr>cn_counter := cn_counter s + 1\<rparr>))
    (thenK (down_cb K)
    (thenK (up_cb K)
    (bindK (getK read_block_buffer) (\<lambda>buf.
     thenK (heap_write p off (take SJFS_BLOCKSIZE buf))
    (thenK (up_cn K)
           (retK 0))))))))"

definition sjfs_write_block :: "kernel \<Rightarrow> uint \<Rightarrow> ptr \<Rightarrow> (sjfs_state, int) km" where
  "sjfs_write_block K address block = thenK (down_cn K) (thenK (up_cn K) (retK 0))"

section \<open>What a read does\<close>

text \<open>A user-space program that answers every message with one block, chosen by \<open>D\<close> from the
  payload it received.\<close>

definition reply_msg :: "cn_msg \<Rightarrow> byte list \<Rightarrow> cn_msg" where
  "reply_msg m block = m\<lparr>msg_len := of_nat (length block), msg_data := block\<rparr>"

definition serves :: "(cn_msg \<Rightarrow> cn_msg list) \<Rightarrow> (byte list \<Rightarrow> byte list) \<Rightarrow> bool" where
  "serves user D \<longleftrightarrow> (\<forall>m. user m = [reply_msg m (D (msg_data m))]) \<and> (\<forall>x. length (D x) = SJFS_BLOCKSIZE)"

definition sends_ok :: "kernel \<Rightarrow> bool" where
  "sends_ok K \<longleftrightarrow> (\<forall>h m. 0 \<le> kret K h (Cn_netlink_send m))"

text \<open>No read under way.\<close>

definition conn_idle :: "sjfs_state \<Rightarrow> bool" where
  "conn_idle s \<longleftrightarrow> cn_sem s = 1 \<and> cb_sem s = 1 \<and> inbox s = [] \<and>
     length (read_block_buffer s) = SJFS_BLOCKSIZE \<and> heap_wf s"

text \<open>The state after a read that was answered with \<open>block\<close>.\<close>

definition read_done :: "kernel \<Rightarrow> uint \<Rightarrow> byte list \<Rightarrow> sjfs_state \<Rightarrow> sjfs_state" where
  "read_done K address block s = (let m = read_msg K (cn_counter s) address in
     s\<lparr>next_ptr := Suc (next_ptr s), cn_counter := cn_counter s + 1, read_block_buffer := block,
       calls := calls s @ [Cn_netlink_send m], klog := klog s @ [callback_log K (reply_msg m block)]\<rparr>)"

lemma length_read_request: "length (read_request a) \<le> 5"
  by (simp add: read_request_def scnprintf_bytes_def)

lemma down_cb_run:
  "counting_semaphores K \<Longrightarrow> cb_sem s \<noteq> 0 \<Longrightarrow> down_cb K s = Ret ((), s\<lparr>cb_sem := cb_sem s - 1\<rparr>)"
  by (cases "inbox s") (simp_all add: down_cb_def)

lemma down_cb_asleep:
  "counting_semaphores K \<Longrightarrow> cb_sem s = 0 \<Longrightarrow> inbox s = [] \<Longrightarrow> down_cb K s = Hang"
  by (simp add: down_cb_def)

lemmas conn_defs = cn_netlink_send_def up_cb_def up_cn_def down_cn_def down_trylock_cb_def

lemma reply_fields [simp]:
  "length block = SJFS_BLOCKSIZE \<Longrightarrow> callback_len (reply_msg m block) = SJFS_BLOCKSIZE"
  "msg_data (reply_msg m block) = block"
  by (simp_all add: callback_len_def reply_msg_def SJFS_BLOCKSIZE_def unat_of_nat)

lemma down_cb_answered:
  assumes "counting_semaphores K" "cb_sem s = 0" "inbox s = [reply_msg m block]"
    "length block = SJFS_BLOCKSIZE" "length (read_block_buffer s) = SJFS_BLOCKSIZE"
  shows "down_cb K s = Ret ((), s\<lparr>cb_sem := 0, inbox := [], read_block_buffer := block,
    klog := klog s @ [callback_log K (reply_msg m block)]\<rparr>)"
  using assms
  by (simp add: down_cb_def cn_callback_def run_simps conn_defs copy_reply_def overwrite_def)

lemma read_block_send:
  assumes K: "counting_semaphores K" and idle: "conn_idle s"
    and ok: "kmalloc_ok K (next_ptr s) (sizeof_cn_msg K + 5)" "sends_ok K"
  shows "sjfs_read_block K user address p off s =
    bindK (down_cb K) (\<lambda>_. thenK (up_cb K) (bindK (getK read_block_buffer) (\<lambda>buf.
      thenK (heap_write p off (take SJFS_BLOCKSIZE buf)) (thenK (up_cn K) (retK 0)))))
    (s\<lparr>next_ptr := Suc (next_ptr s), cn_sem := 0, cb_sem := 0,
       calls := calls s @ [Cn_netlink_send (read_msg K (cn_counter s) address)],
       inbox := user (read_msg K (cn_counter s) address), cn_counter := cn_counter s + 1\<rparr>)"
proof -
  let ?m = "read_msg K (cn_counter s) address"
  have "\<not> kret K (calls s) (Cn_netlink_send ?m) < 0"
    using ok(2) by (simp add: sends_ok_def not_less)
  moreover have "(heap s)(next_ptr s := None) = heap s"
    using idle by (simp add: conn_idle_def fun_upd_idem)
  ultimately show ?thesis
    using idle K ok(1) length_read_request [of address]
    by (simp add: sjfs_read_block_def run_simps kzalloc_def Let_def conn_idle_def conn_defs
        heap_write_def kfree_def down_cb_run)
qed

text \<open>An answered read puts the block where it was asked to, and leaves the connection idle.\<close>

lemma read_block_answered:
  assumes K: "counting_semaphores K" "sends_ok K" and user: "serves user D" and idle: "conn_idle s"
    and ok: "kmalloc_ok K (next_ptr s) (sizeof_cn_msg K + 5)"
    and obj: "heap s p = Some bs" "off + SJFS_BLOCKSIZE \<le> length bs"
  shows "sjfs_read_block K user address p off s =
    Ret (0, (read_done K address (D (read_request address)) s)
      \<lparr>heap := (heap s)(p \<mapsto> overwrite off (D (read_request address)) bs)\<rparr>)"
proof -
  let ?m = "read_msg K (cn_counter s) address" and ?b = "D (read_request address)"
  have b: "user ?m = [reply_msg ?m ?b]" "length ?b = SJFS_BLOCKSIZE"
    using user by (simp_all add: serves_def read_msg_def)
  show ?thesis
    unfolding read_block_send [OF K(1) idle ok K(2)]
    using b K obj idle
    by (simp add: run_simps down_cb_answered conn_idle_def conn_defs heap_write_def
        read_done_def Let_def)
qed

lemma conn_idle_read_done:
  assumes "conn_idle s" "length block = SJFS_BLOCKSIZE" "heap s p = Some bs"
  shows "conn_idle ((read_done K a block s)\<lparr>heap := (heap s)(p \<mapsto> bs')\<rparr>)"
  using assms by (auto simp: conn_idle_def read_done_def Let_def heap_wf_def less_Suc_eq)

text \<open>Without an answer the reader sleeps for ever.\<close>

lemma read_block_unanswered:
  assumes "counting_semaphores K" "conn_idle s"
    "kmalloc_ok K (next_ptr s) (sizeof_cn_msg K + 5)" "sends_ok K" "\<And>m. user m = []"
  shows "sjfs_read_block K user address p off s = Hang"
  unfolding read_block_send [OF assms(1,2,3,4)]
  using assms by (simp add: run_simps down_cb_asleep)

text \<open>A buffer that is smaller than a block is overrun.\<close>

lemma read_block_overrun:
  assumes K: "counting_semaphores K" "sends_ok K" and user: "serves user D" and idle: "conn_idle s"
    and ok: "kmalloc_ok K (next_ptr s) (sizeof_cn_msg K + 5)"
    and obj: "heap s p = Some bs" "length bs < off + SJFS_BLOCKSIZE"
  shows "sjfs_read_block K user address p off s = Crash OutOfBounds"
proof -
  let ?m = "read_msg K (cn_counter s) address" and ?b = "D (read_request address)"
  have b: "user ?m = [reply_msg ?m ?b]" "length ?b = SJFS_BLOCKSIZE"
    using user by (simp_all add: serves_def read_msg_def)
  show ?thesis
    unfolding read_block_send [OF K(1) idle ok K(2)]
    using b K obj idle
    by (simp add: run_simps down_cb_answered conn_idle_def conn_defs heap_write_def)
qed

text \<open>When the message cannot be allocated the function still reports success: the block is the
  answer of some earlier read, and \<open>cn_sem\<close> is released without having been taken.\<close>

lemma read_block_no_memory:
  assumes "counting_semaphores K" "conn_idle s"
    "\<not> kmalloc_ok K (next_ptr s) (sizeof_cn_msg K + 5)"
    "heap s p = Some bs" "off + SJFS_BLOCKSIZE \<le> length bs"
  shows "sjfs_read_block K user address p off s =
    Ret (0, s\<lparr>next_ptr := Suc (next_ptr s), cn_counter := cn_counter s + 1, cn_sem := 2,
      heap := (heap s)(p \<mapsto> overwrite off (read_block_buffer s) bs)\<rparr>)"
  using assms
  by (simp add: sjfs_read_block_def run_simps kzalloc_def Let_def conn_idle_def conn_defs
      down_cb_run heap_write_def)

text \<open>\<open>sjfs_write_block\<close> sends nothing.\<close>

lemma write_block_nop:
  "counting_semaphores K \<Longrightarrow> 0 < cn_sem s \<Longrightarrow> sjfs_write_block K a p s = Ret (0, s)"
  by (simp add: sjfs_write_block_def run_simps conn_defs)

section \<open>Which blocks a request can name\<close>

definition undecimal :: "byte list \<Rightarrow> nat" where
  "undecimal bs = foldl (\<lambda>a b. 10 * a + (unat b - 48)) 0 bs"

lemma unat_digit [simp]: "d < 10 \<Longrightarrow> unat (of_nat (48 + d) :: byte) = 48 + d"
  by (simp add: unat_of_nat del: of_nat_add)

lemma undecimal_decimal: "undecimal (decimal n) = n"
proof (induction n rule: decimal.induct)
  case (1 n)
  show ?case
  proof (cases "n < 10")
    case True
    then show ?thesis
      using unat_digit [OF True] by (simp add: decimal.simps [of n] undecimal_def del: of_nat_add)
  next
    case False
    have "n mod 10 < 10" by simp
    from unat_digit [OF this] show ?thesis
      using 1 False by (simp add: decimal.simps [of n] undecimal_def del: of_nat_add)
  qed
qed

lemma length_decimal_bounds:
  "n < 1000 \<Longrightarrow> length (decimal n) \<le> 3" "100 \<le> n \<Longrightarrow> 3 \<le> length (decimal n)"
  by (simp add: decimal.simps [of n] decimal.simps [of "n div 10"] decimal.simps [of "n div 10 div 10"])
     (simp add: decimal.simps [of n] decimal.simps [of "n div 10"] decimal.simps [of "n div 10 div 10"])

text \<open>The number the first three digits spell.\<close>

fun leading3 :: "nat \<Rightarrow> nat" where
  "leading3 n = (if n < 1000 then n else leading3 (n div 10))"

declare leading3.simps [simp del]

lemma leading3_bound: "leading3 n < 1000"
  by (induction n rule: leading3.induct) (subst leading3.simps, simp)

lemma leading3_le: "leading3 n \<le> n"
proof (induction n rule: leading3.induct)
  case (1 n)
  then have "\<not> n < 1000 \<Longrightarrow> leading3 (n div 10) \<le> n"
    by (meson div_le_dividend le_trans)
  then show ?case by (subst leading3.simps) simp
qed

lemma take_decimal: "take 3 (decimal n) = decimal (leading3 n)"
proof (induction n rule: leading3.induct)
  case (1 n)
  show ?case
  proof (cases "n < 1000")
    case True
    then show ?thesis by (subst leading3.simps) (simp add: length_decimal_bounds(1))
  next
    case False
    then have "take 3 (decimal n) = take 3 (decimal (n div 10))"
      using length_decimal_bounds(2) [of "n div 10"] by (simp add: decimal.simps [of n])
    with 1 False show ?thesis by (simp add: leading3.simps [of n])
  qed
qed

lemma read_request_alt: "read_request a = 0 # decimal (leading3 (unat a)) @ [0]"
  using take_decimal [of "unat a"]
  by (simp add: read_request_def scnprintf_bytes_def SJFS_OPCODE_READ_def numeral_eq_Suc)

lemma read_request_eq_iff:
  "read_request a = read_request b \<longleftrightarrow> leading3 (unat a) = leading3 (unat b)"
  unfolding read_request_alt by (metis append1_eq_conv list.inject undecimal_decimal)

section \<open>The heap invariant\<close>

lemma heap_wf_updates [simp]:
  "heap_wf (s\<lparr>cn_sem := n\<rparr>) = heap_wf s" "heap_wf (s\<lparr>cb_sem := n\<rparr>) = heap_wf s"
  "heap_wf (s\<lparr>cn_counter := w\<rparr>) = heap_wf s" "heap_wf (s\<lparr>read_block_buffer := b\<rparr>) = heap_wf s"
  "heap_wf (s\<lparr>inodes_bitmaps_cache := p\<rparr>) = heap_wf s"
  "heap_wf (s\<lparr>datablocks_bitmaps_cache := p\<rparr>) = heap_wf s"
  "heap_wf (s\<lparr>nls_socket := t\<rparr>) = heap_wf s" "heap_wf (s\<lparr>once := t\<rparr>) = heap_wf s"
  "heap_wf (s\<lparr>inbox := ms\<rparr>) = heap_wf s"
  by (simp_all add: heap_wf_def)

lemma keeps_up_cb [keeps]: "keepsK heap_wf (up_cb K)"
  unfolding up_cb_def by (rule keepsK_modK) simp

lemma keeps_up_cn [keeps]: "keepsK heap_wf (up_cn K)"
  unfolding up_cn_def by (rule keepsK_modK) simp

lemma keeps_down_cn [keeps]: "keepsK heap_wf (down_cn K)"
  by (auto simp: keepsK_def down_cn_def split: option.splits)

lemma keeps_down_trylock_cb [keeps]: "keepsK heap_wf (down_trylock_cb K)"
  by (auto simp: keepsK_def down_trylock_cb_def split: prod.splits)

lemma keeps_copy_reply [keeps]: "keepsK heap_wf (copy_reply m)"
  by (auto simp: keepsK_def copy_reply_def Let_def split: if_splits)

lemma keeps_cn_callback [keeps]: "keepsK heap_wf (cn_callback K m)"
  unfolding cn_callback_def by (intro keeps)

text \<open>What every callback keeps, and changes of \<open>cb_sem\<close> and \<open>inbox\<close> do not touch, is kept by
  sleeping on \<open>cb_sem\<close>.\<close>

lemma keepsK_down_cb:
  assumes upd: "\<And>s n ms. P s \<Longrightarrow> P (s\<lparr>cb_sem := n, inbox := ms\<rparr>)"
    and cb: "\<And>m. keepsK P (cn_callback K m)"
  shows "keepsK P (down_cb K)"
proof -
  have "P s \<Longrightarrow> down_cb_wait K ms s = Ret (x, s') \<Longrightarrow> P s'" for ms s x s'
  proof (induction ms arbitrary: s)
    case Nil
    then show ?case by (auto simp: upd split: option.splits)
  next
    case (Cons m ms)
    show ?case
    proof (cases "sem_down K (cb_sem s)")
      case None
      with Cons.prems(2) obtain y s1 where r: "cn_callback K m s = Ret (y, s1)"
          "down_cb_wait K ms s1 = Ret (x, s')"
        by (auto split: outcome.splits)
      with keepsKD [OF cb r(1) Cons.prems(1)] Cons.IH show ?thesis by blast
    next
      case (Some n)
      with Cons.prems show ?thesis by (auto simp: upd)
    qed
  qed
  then show ?thesis by (auto simp: keepsK_def down_cb_def)
qed

lemma keeps_down_cb [keeps]: "keepsK heap_wf (down_cb K)"
  by (rule keepsK_down_cb) (auto intro: keeps)

lemma keeps_cn_netlink_send [keeps]: "keepsK heap_wf (cn_netlink_send K user m)"
  unfolding cn_netlink_send_def by (intro keeps keepsK_modK) simp

lemma keeps_sjfs_read_block [keeps]: "keepsK heap_wf (sjfs_read_block K user a p off)"
  unfolding sjfs_read_block_def by (intro keeps keepsK_modK) simp

lemma keeps_sjfs_write_block [keeps]: "keepsK heap_wf (sjfs_write_block K a p)"
  unfolding sjfs_write_block_def by (intro keeps)

section \<open>What a read leaves alone\<close>

text \<open>Everything that waiting, callbacks and sending do not touch.\<close>

definition kept :: "sjfs_state \<Rightarrow> (ptr \<Rightarrow> byte list option) \<times> uint \<times> ptr \<times> ptr \<times> bool \<times> bool" where
  "kept s = (heap s, cn_counter s, inodes_bitmaps_cache s, datablocks_bitmaps_cache s, nls_socket s, once s)"

lemma keeps_kept [keeps]:
  "keepsK (\<lambda>s. kept s = k) (up_cb K)" "keepsK (\<lambda>s. kept s = k) (up_cn K)"
  "keepsK (\<lambda>s. kept s = k) (down_cn K)" "keepsK (\<lambda>s. kept s = k) (down_trylock_cb K)"
  "keepsK (\<lambda>s. kept s = k) (copy_reply m)" "keepsK (\<lambda>s. kept s = k) (printk f a)"
  by (auto simp: keepsK_def kept_def up_cb_def up_cn_def down_cn_def down_trylock_cb_def copy_reply_def
      run_simps Let_def split: if_splits option.splits prod.splits)

lemma keeps_kept_wait [keeps]:
  "keepsK (\<lambda>s. kept s = k) (cn_callback K m)" "keepsK (\<lambda>s. kept s = k) (down_cb K)"
  "keepsK (\<lambda>s. kept s = k) (cn_netlink_send K user m)"
proof -
  show cb: "keepsK (\<lambda>s. kept s = k) (cn_callback K m)" for m
    unfolding cn_callback_def by (intro keeps)
  then show "keepsK (\<lambda>s. kept s = k) (down_cb K)"
    by (intro keepsK_down_cb) (simp_all add: kept_def)
  show "keepsK (\<lambda>s. kept s = k) (cn_netlink_send K user m)"
    by (auto simp: keepsK_def cn_netlink_send_def run_simps kept_def)
qed

lemma kept_eq:
  "down_cn K s = Ret (x, s') \<Longrightarrow> kept s' = kept s" "down_cb K s = Ret (x, s') \<Longrightarrow> kept s' = kept s"
  "up_cb K s = Ret (x, s') \<Longrightarrow> kept s' = kept s"
  "cn_netlink_send K user msg s = Ret (r, s') \<Longrightarrow> kept s' = kept s"
  by (rule keepsKD [where P = "\<lambda>t. kept t = kept s", rotated], assumption, rule refl, rule keeps)+

lemma thenK_eq_RetD: "thenK m n s = Ret r \<Longrightarrow> \<exists>x s'. m s = Ret (x, s') \<and> n s' = Ret r"
  unfolding thenK_def by (rule bindK_eq_RetD)

text \<open>The request: whatever happens while it is sent, its message is freed.\<close>

lemma request_frame:
  assumes "bindK (getK cn_counter) (\<lambda>sq.
       thenK (heap_write m off bs) (thenK (down_cn K) (thenK (down_cb K)
      (thenK (cn_netlink_send K user (read_msg K sq a)) (kfree m))))) s = Ret (u, s')" "m \<noteq> 0"
  shows "kept s' = ((heap s)(m := None), snd (kept s))"
proof -
  obtain s1 s2 s3 s4 x where w: "heap_write m off bs s = Ret ((), s1)" "down_cn K s1 = Ret ((), s2)"
      "down_cb K s2 = Ret ((), s3)" "cn_netlink_send K user (read_msg K (cn_counter s) a) s3 = Ret (x, s4)"
      "kfree m s4 = Ret (u, s')"
    using assms(1) by (auto simp: bindK_Ret [OF getK_run] dest!: thenK_eq_RetD)
  have "kept s4 = kept s1"
    using kept_eq(1) [OF w(2)] kept_eq(2) [OF w(3)] kept_eq(4) [OF w(4)] by simp
  with w(1,5) assms(2) show ?thesis
    by (auto simp: kept_def heap_write_def kfree_def split: option.splits if_splits)
qed

lemma read_block_heap:
  assumes wf: "heap_wf s" and ret: "sjfs_read_block K user a p off s = Ret (r, s')"
  shows "\<exists>bs. heap s p = Some bs \<and> off + length (take SJFS_BLOCKSIZE (read_block_buffer s')) \<le> length bs \<and> r = 0
    \<and> kept s' = ((heap s)(p \<mapsto> overwrite off (take SJFS_BLOCKSIZE (read_block_buffer s')) bs),
        cn_counter s + 1, snd (snd (kept s)))"
proof -
  let ?send = "\<lambda>m. if m \<noteq> 0 then bindK (getK cn_counter) (\<lambda>sq.
       thenK (heap_write m (sizeof_cn_msg K) (read_request a)) (thenK (down_cn K) (thenK (down_cb K)
      (thenK (cn_netlink_send K user (read_msg K sq a)) (kfree m))))) else retK ()"
  let ?copy = "bindK (getK read_block_buffer) (\<lambda>buf. thenK (heap_write p off (take SJFS_BLOCKSIZE buf))
      (thenK (up_cn K) (retK 0)))"
  let ?rest = "thenK (modK (\<lambda>s. s\<lparr>cn_counter := cn_counter s + 1\<rparr>)) (thenK (down_cb K) (thenK (up_cb K) ?copy))"
  obtain m s1 where m: "kzalloc K (sizeof_cn_msg K + 5) s = Ret (m, s1)"
      and "thenK (?send m) ?rest s1 = Ret (r, s')"
    using ret unfolding sjfs_read_block_def by (blast dest: bindK_eq_RetD)
  then obtain u s2 where send: "?send m s1 = Ret (u, s2)" and "?rest s2 = Ret (r, s')"
    by (blast dest: thenK_eq_RetD)
  moreover define s3 where s3: "s3 = s2\<lparr>cn_counter := cn_counter s2 + 1\<rparr>"
  ultimately have "thenK (down_cb K) (thenK (up_cb K) ?copy) s3 = Ret (r, s')"
    by (simp only: thenK_Ret [OF modK_run])
  then obtain v s4 w s5 where wait: "down_cb K s3 = Ret (v, s4)" "up_cb K s4 = Ret (w, s5)"
      and copy: "?copy s5 = Ret (r, s')"
    by (blast dest: thenK_eq_RetD)
  have fresh: "heap s (next_ptr s) = None" "next_ptr s \<noteq> 0" using wf by simp_all
  have k2: "kept s2 = kept s"
  proof (cases "m = 0")
    case True
    with m send fresh(2) show ?thesis by (auto simp: kzalloc_def Let_def run_simps kept_def split: if_splits)
  next
    case False
    with send have "kept s2 = ((heap s1)(m := None), snd (kept s1))" by (intro request_frame) auto
    with m False fresh show ?thesis by (auto simp: kzalloc_def Let_def kept_def fun_upd_idem split: if_splits)
  qed
  have "kept s4 = kept s3" "kept s5 = kept s4"
    by (rule kept_eq(2) [OF wait(1)], rule kept_eq(3) [OF wait(2)])
  then have k5: "kept s5 = (heap s, cn_counter s + 1, snd (snd (kept s)))"
    using k2 by (simp add: s3 kept_def)
  from copy show ?thesis
    using k5 by (auto simp: run_simps heap_write_def up_cn_def kept_def split: option.splits if_splits)
qed

section \<open>A concrete connection\<close>

text \<open>A user space that serves a given block for every request, and an idle state with one buffer
  of a block at address 3.\<close>

definition sample_user :: "byte list \<Rightarrow> cn_msg \<Rightarrow> cn_msg list" where
  "sample_user block m = [reply_msg m block]"

definition sample_state :: sjfs_state where
  "sample_state =
    \<lparr>heap = [3 \<mapsto> replicate SJFS_BLOCKSIZE 0], next_ptr = 4, klog = [], calls = [],
     cn_sem = 1, cb_sem = 1, cn_counter = 0, read_block_buffer = replicate SJFS_BLOCKSIZE 0,
     inodes_bitmaps_cache = 3, datablocks_bitmaps_cache = 0, nls_socket = False, once = False, inbox = []\<rparr>"

lemma sample_user_serves: "length block = SJFS_BLOCKSIZE \<Longrightarrow> serves (sample_user block) (\<lambda>_. block)"
  by (simp add: serves_def sample_user_def)

lemma sample_kernel_sends [simp]: "sends_ok sample_kernel"
  by (simp add: sends_ok_def sample_kernel_def)

lemma sample_state_idle [simp]: "conn_idle sample_state"
  by (auto simp: conn_idle_def sample_state_def heap_wf_def)

lemma sample_state_fields [simp]:
  "heap sample_state 3 = Some (replicate SJFS_BLOCKSIZE 0)" "calls sample_state = []"
  "cn_counter sample_state = 0" "inodes_bitmaps_cache sample_state = 3" "next_ptr sample_state = 4"
  "cn_sem sample_state = 1" "length (read_block_buffer sample_state) = SJFS_BLOCKSIZE"
  by (simp_all add: sample_state_def)

lemma sample_kmalloc_ok [simp]: "kmalloc_ok sample_kernel p n"
  by (simp add: sample_kernel_def)

text \<open>The same kernel without memory.\<close>

definition sample_kernel_oom :: kernel where
  "sample_kernel_oom = sample_kernel\<lparr>kmalloc_ok := \<lambda>_ _. False\<rparr>"

lemma sample_kernel_oom_ok [simp]:
  "counting_semaphores sample_kernel_oom" "\<not> kmalloc_ok sample_kernel_oom p n"
  by (simp_all add: sample_kernel_oom_def counting_semaphores_def sample_kernel_def)

section \<open>Properties\<close>

text \<open>C5. With user space answering each request by the block it stands for, \<open>sjfs_read_block\<close> on an idle
  connection returns 0, stores exactly that block at the place asked for, changes no other object,
  frees its message, sends exactly one request, and leaves the connection idle.\<close>

theorem read_block_delivers:
  assumes "counting_semaphores K" "sends_ok K" "serves user D" "conn_idle s"
    "kmalloc_ok K (next_ptr s) (sizeof_cn_msg K + 5)"
    "heap s p = Some bs" "off + SJFS_BLOCKSIZE \<le> length bs"
  shows "\<exists>s'. sjfs_read_block K user address p off s = Ret (0, s') \<and> conn_idle s'
    \<and> heap s' = (heap s)(p \<mapsto> overwrite off (D (read_request address)) bs)
    \<and> calls s' = calls s @ [Cn_netlink_send (read_msg K (cn_counter s) address)]
    \<and> cn_counter s' = cn_counter s + 1"
proof -
  let ?b = "D (read_request address)"
  have "length ?b = SJFS_BLOCKSIZE" using assms(3) by (simp add: serves_def)
  from conn_idle_read_done [OF assms(4) this assms(6)] show ?thesis
    using read_block_answered [OF assms, of address] by (auto simp: read_done_def Let_def)
qed

theorem read_block_delivers_witness:
  "\<exists>s'. sjfs_read_block sample_kernel (sample_user (replicate SJFS_BLOCKSIZE 7)) 42 3 0 sample_state = Ret (0, s')
    \<and> heap s' 3 = Some (replicate SJFS_BLOCKSIZE 7) \<and> cn_counter s' = 1"
  using read_block_delivers [OF sample_kernel_ok(1) sample_kernel_sends
      sample_user_serves [of "replicate SJFS_BLOCKSIZE 7"] sample_state_idle sample_kmalloc_ok
      sample_state_fields(1), of 0 42]
  by (auto simp: overwrite_full)

text \<open>C19. When the message cannot be allocated, \<open>sjfs_read_block\<close> still returns 0: the caller gets the
  block of some earlier answer, nothing is sent, and \<open>cn_sem\<close> ends at 2, so that it no longer
  excludes two readers.\<close>

theorem read_without_memory:
  assumes "counting_semaphores K" "conn_idle s"
    "\<not> kmalloc_ok K (next_ptr s) (sizeof_cn_msg K + 5)"
    "heap s p = Some bs" "off + SJFS_BLOCKSIZE \<le> length bs"
  shows "\<exists>s'. sjfs_read_block K user address p off s = Ret (0, s')
    \<and> heap s' = (heap s)(p \<mapsto> overwrite off (read_block_buffer s) bs)
    \<and> calls s' = calls s \<and> cn_sem s' = 2"
  using read_block_no_memory [OF assms] by simp

theorem read_without_memory_witness:
  "\<exists>s'. sjfs_read_block sample_kernel_oom (\<lambda>_. []) 42 3 0 sample_state = Ret (0, s')
    \<and> calls s' = [] \<and> cn_sem s' = 2"
  using read_without_memory [OF sample_kernel_oom_ok(1) sample_state_idle sample_kernel_oom_ok(2)
      sample_state_fields(1), of 0 "\<lambda>_. []" 42]
  by auto

text \<open>C13. For every kernel and every user space, whatever messages arrive and whether or not memory is left:
  when \<open>sjfs_read_block\<close> returns, it returns 0, the block it was given has room for the answer and
  holds the first 1024 bytes of \<open>read_block_buffer\<close> there, every other object is as it was (the message is
  freed again), and of the other variables only the counter has moved, by one.\<close>

theorem read_block_frame:
  assumes "heap_wf s" "sjfs_read_block K user a p off s = Ret (r, s')"
  shows "r = 0 \<and> cn_counter s' = cn_counter s + 1
    \<and> (\<exists>bs. heap s p = Some bs \<and> off + length (take SJFS_BLOCKSIZE (read_block_buffer s')) \<le> length bs
        \<and> heap s' = (heap s)(p \<mapsto> overwrite off (take SJFS_BLOCKSIZE (read_block_buffer s')) bs))
    \<and> inodes_bitmaps_cache s' = inodes_bitmaps_cache s \<and> datablocks_bitmaps_cache s' = datablocks_bitmaps_cache s"
  using read_block_heap [OF assms] by (auto simp: kept_def)

theorem read_block_frame_witness:
  "\<exists>s'. sjfs_read_block sample_kernel_oom (\<lambda>_. []) 42 3 0 sample_state = Ret (0, s') \<and> heap s' 4 = heap sample_state 4
    \<and> cn_counter s' = 1"
proof -
  obtain s' where s': "sjfs_read_block sample_kernel_oom (\<lambda>_. []) 42 3 0 sample_state = Ret (0, s')"
    using read_block_no_memory [OF sample_kernel_oom_ok(1) sample_state_idle sample_kernel_oom_ok(2)
        sample_state_fields(1), of 0 "\<lambda>_. []" 42] by auto
  have "heap_wf sample_state" using sample_state_idle by (simp add: conn_idle_def)
  from read_block_frame [OF this s'] s' show ?thesis by auto
qed

text \<open>C18. The request carries only the first three decimal digits of the block number: two block numbers
  are told apart by user space exactly when those digits differ. Every block below 1000 has a request
  of its own, and every block from 1000 on is taken for a block below 1000.\<close>

theorem request_names_block:
  "(read_request a = read_request b \<longleftrightarrow> leading3 (unat a) = leading3 (unat b))
    \<and> (unat a < 1000 \<longrightarrow> leading3 (unat a) = unat a) \<and> leading3 (unat a) < 1000
    \<and> read_request (of_nat (leading3 (unat a))) = read_request a"
proof -
  define k where "k = leading3 (unat a)"
  have k: "k < 1000" unfolding k_def by (rule leading3_bound)
  then have "unat (of_nat k :: uint) = k" by (simp add: unat_of_nat)
  moreover have "leading3 k = k" using k by (simp add: leading3.simps)
  moreover have "unat a < 1000 \<longrightarrow> k = unat a" by (simp add: k_def leading3.simps)
  ultimately show ?thesis
    using k unfolding k_def [symmetric] read_request_eq_iff by simp
qed

lemma leading3_samples: "leading3 8194 = 819" "leading3 819 = 819" "leading3 818 = 818"
  by (simp_all add: leading3.simps)

theorem request_names_block_witness:
  "read_request 8194 = read_request 819 \<and> read_request 818 \<noteq> read_request 819"
  using request_names_block [THEN conjunct1, of 8194 819] request_names_block [THEN conjunct1, of 818 819]
  by (simp add: leading3_samples)

end
