(* ===== verification/Connector_Steps.thy ===== *)
theory Connector_Steps
  imports Connector
begin

text \<open>
  The block protocol of \<open>src/kernel_space_module/sjfs.c\<close> with any number of concurrent threads inside
  \<open>sjfs_read_block\<close> or \<open>sjfs_write_block\<close> and of concurrent runs of \<open>cn_callback\<close>, one atomic step per
  access to a shared variable. \<open>conn_step E l s\<close> is the step with label \<open>l\<close>, or \<open>None\<close> when it is
  not enabled (a \<open>down\<close> on a count of 0, a callback whose message is too short for the copy).

  The environment \<open>E\<close> says what the kernel's semaphores do, what user space answers, whether
  \<open>kzalloc\<close> may fail and \<open>cn_netlink_send\<close> may refuse a message, and which messages other processes may
  send unasked.
\<close>

section \<open>Program counters\<close>

datatype rpc =
    RIdle   \<comment> \<open>in neither function\<close>
  | RStart  \<comment> \<open>in sjfs_read_block, at kzalloc\<close>
  | RSem    \<comment> \<open>at down(&cn_sem)\<close>
  | WSem    \<comment> \<open>in sjfs_write_block, at down(&cn_sem)\<close>
  | WUp     \<comment> \<open>in sjfs_write_block, at up(&cn_sem)\<close>
  | RCb     \<comment> \<open>at the first down(&cb_sem)\<close>
  | RSend   \<comment> \<open>at cn_netlink_send\<close>
  | RCount  \<comment> \<open>at cn_counter++\<close>
  | RWait   \<comment> \<open>at the second down(&cb_sem)\<close>
  | RUp     \<comment> \<open>at up(&cb_sem)\<close>
  | RCopy   \<comment> \<open>at memcpy(block, read_block_buffer)\<close>
  | RRel    \<comment> \<open>at up(&cn_sem)\<close>

datatype cpc =
    CIdle | CTry cn_msg | CBack | CCopy cn_msg | CUp

text \<open>Program counters are ordered as the statements are.\<close>

fun rpc_rank :: "rpc \<Rightarrow> nat" where
  "rpc_rank RIdle = 0" | "rpc_rank RStart = 1" | "rpc_rank RSem = 2" | "rpc_rank WSem = 3"
| "rpc_rank WUp = 4" | "rpc_rank RCb = 5" | "rpc_rank RSend = 6" | "rpc_rank RCount = 7"
| "rpc_rank RWait = 8" | "rpc_rank RUp = 9" | "rpc_rank RCopy = 10" | "rpc_rank RRel = 11"

lemma rpc_rank_inj: "rpc_rank a = rpc_rank b \<Longrightarrow> a = b"
  by (cases a; cases b) simp_all

instantiation rpc :: linorder
begin

definition less_eq_rpc :: "rpc \<Rightarrow> rpc \<Rightarrow> bool" where
  "less_eq_rpc a b \<longleftrightarrow> rpc_rank a \<le> rpc_rank b"

definition less_rpc :: "rpc \<Rightarrow> rpc \<Rightarrow> bool" where
  "less_rpc a b \<longleftrightarrow> rpc_rank a < rpc_rank b"

instance
  by standard (auto simp: less_eq_rpc_def less_rpc_def dest: rpc_rank_inj)

end

text \<open>A reader or writer holds \<open>cn_sem\<close> from its \<open>down\<close> to its \<open>up\<close>.\<close>

definition crit :: "rpc \<Rightarrow> bool" where
  "crit p \<longleftrightarrow> WUp \<le> p"

lemma crit_simps [simp]:
  "\<not> crit RIdle" "\<not> crit RStart" "\<not> crit RSem" "crit RCb" "crit RSend" "crit RCount" "crit RWait"
  "crit RUp" "crit RCopy" "crit RRel" "crit WUp" "\<not> crit WSem"
  by (simp_all add: crit_def less_eq_rpc_def)

section \<open>States and steps\<close>

record conn =
  n_cn :: nat
  n_cb :: nat
  counter :: uint
  buf :: "byte list"
  pend :: "cn_msg list"  \<comment> \<open>answers of user space, not yet delivered\<close>
  rd_pc :: "nat \<Rightarrow> rpc"
  rd_addr :: "nat \<Rightarrow> uint"
  rd_msg :: "nat \<Rightarrow> cn_msg"
  rd_got :: "nat \<Rightarrow> byte list"
  rd_hist :: "nat \<Rightarrow> (uint \<times> byte list) list"  \<comment> \<open>completed reads\<close>
  cb_pc :: "nat \<Rightarrow> cpc"

record cenv =
  kern :: kernel
  userland :: "cn_msg \<Rightarrow> cn_msg list"
  unsolicited :: "cn_msg \<Rightarrow> bool"
  oom :: bool
  refuses :: bool

datatype label =
    Call nat uint      \<comment> \<open>reader i enters sjfs_read_block\<close>
  | Write nat          \<comment> \<open>thread i enters sjfs_write_block\<close>
  | Alloc nat bool     \<comment> \<open>kzalloc of reader i succeeds or fails\<close>
  | Refuse nat         \<comment> \<open>cn_netlink_send of reader i fails, which the code ignores\<close>
  | Rd nat             \<comment> \<open>the next statement of thread i\<close>
  | Arrive nat         \<comment> \<open>callback c starts on the next answer\<close>
  | Spont nat cn_msg   \<comment> \<open>callback c starts on a message nobody asked for\<close>
  | Cb nat             \<comment> \<open>the next statement of callback c\<close>

definition at_reader :: "conn \<Rightarrow> nat \<Rightarrow> rpc \<Rightarrow> conn" where
  "at_reader s i p = s\<lparr>rd_pc := (rd_pc s)(i := p)\<rparr>"

definition at_cb :: "conn \<Rightarrow> nat \<Rightarrow> cpc \<Rightarrow> conn" where
  "at_cb s c p = s\<lparr>cb_pc := (cb_pc s)(c := p)\<rparr>"

definition reader_step :: "cenv \<Rightarrow> nat \<Rightarrow> conn \<Rightarrow> conn option" where
  "reader_step E i s = (case rd_pc s i of
     RSem \<Rightarrow> map_option (\<lambda>n. at_reader (s\<lparr>n_cn := n\<rparr>) i RCb) (sem_down (kern E) (n_cn s))
   | WSem \<Rightarrow> map_option (\<lambda>n. at_reader (s\<lparr>n_cn := n\<rparr>) i WUp) (sem_down (kern E) (n_cn s))
   | WUp \<Rightarrow> Some (at_reader (s\<lparr>n_cn := sem_up (kern E) (n_cn s)\<rparr>) i RIdle)
   | RCb \<Rightarrow> map_option (\<lambda>n. at_reader (s\<lparr>n_cb := n\<rparr>) i RSend) (sem_down (kern E) (n_cb s))
   | RSend \<Rightarrow> Some (at_reader (s\<lparr>pend := pend s @ userland E (rd_msg s i)\<rparr>) i RCount)
   | RCount \<Rightarrow> Some (at_reader (s\<lparr>counter := counter s + 1\<rparr>) i RWait)
   | RWait \<Rightarrow> map_option (\<lambda>n. at_reader (s\<lparr>n_cb := n\<rparr>) i RUp) (sem_down (kern E) (n_cb s))
   | RUp \<Rightarrow> Some (at_reader (s\<lparr>n_cb := sem_up (kern E) (n_cb s)\<rparr>) i RCopy)
   | RCopy \<Rightarrow> Some (at_reader (s\<lparr>rd_got := (rd_got s)(i := take SJFS_BLOCKSIZE (buf s))\<rparr>) i RRel)
   | RRel \<Rightarrow> Some (at_reader (s\<lparr>n_cn := sem_up (kern E) (n_cn s),
       rd_hist := (rd_hist s)(i := rd_hist s i @ [(rd_addr s i, rd_got s i)])\<rparr>) i RIdle)
   | _ \<Rightarrow> None)"

definition cb_step :: "cenv \<Rightarrow> nat \<Rightarrow> conn \<Rightarrow> conn option" where
  "cb_step E c s = (case cb_pc s c of
     CIdle \<Rightarrow> None
   | CTry m \<Rightarrow> (case sem_trylock (kern E) (n_cb s) of (r, n) \<Rightarrow>
       Some (at_cb (s\<lparr>n_cb := n\<rparr>) c (if r = 0 then CBack else CCopy m)))
   | CBack \<Rightarrow> Some (at_cb (s\<lparr>n_cb := sem_up (kern E) (n_cb s)\<rparr>) c CIdle)
   | CCopy m \<Rightarrow> (let n = callback_len m in
       if n \<le> length (msg_data m) \<and> n \<le> length (buf s)
       then Some (at_cb (s\<lparr>buf := overwrite 0 (take n (msg_data m)) (buf s)\<rparr>) c CUp) else None)
   | CUp \<Rightarrow> Some (at_cb (s\<lparr>n_cb := sem_up (kern E) (n_cb s)\<rparr>) c CIdle))"

fun conn_step :: "cenv \<Rightarrow> label \<Rightarrow> conn \<Rightarrow> conn option" where
  "conn_step E (Call i a) s = (if rd_pc s i = RIdle
     then Some (at_reader (s\<lparr>rd_addr := (rd_addr s)(i := a)\<rparr>) i RStart) else None)"
| "conn_step E (Write i) s = (if rd_pc s i = RIdle then Some (at_reader s i WSem) else None)"
| "conn_step E (Refuse i) s = (if rd_pc s i = RSend \<and> refuses E then Some (at_reader s i RCount) else None)"
| "conn_step E (Alloc i ok) s = (if rd_pc s i \<noteq> RStart then None
     else if ok then Some (at_reader
       (s\<lparr>rd_msg := (rd_msg s)(i := read_msg (kern E) (counter s) (rd_addr s i))\<rparr>) i RSem)
     else if oom E then Some (at_reader s i RCount) else None)"
| "conn_step E (Rd i) s = reader_step E i s"
| "conn_step E (Arrive c) s = (if cb_pc s c \<noteq> CIdle then None
     else (case pend s of [] \<Rightarrow> None | m # ms \<Rightarrow> Some (at_cb (s\<lparr>pend := ms\<rparr>) c (CTry m))))"
| "conn_step E (Spont c m) s = (if cb_pc s c = CIdle \<and> unsolicited E m
     then Some (at_cb s c (CTry m)) else None)"
| "conn_step E (Cb c) s = cb_step E c s"

text \<open>Both semaphores start at 1 and no thread is active.\<close>

definition conn_init :: "byte list \<Rightarrow> conn" where
  "conn_init b = \<lparr>n_cn = 1, n_cb = 1, counter = 0, buf = b, pend = [], rd_pc = (\<lambda>_. RIdle),
     rd_addr = (\<lambda>_. 0), rd_msg = (\<lambda>_. \<lparr>msg_id = (0, 0), msg_seq = 0, msg_ack = 0, msg_len = 0, msg_data = []\<rparr>),
     rd_got = (\<lambda>_. []), rd_hist = (\<lambda>_. []), cb_pc = (\<lambda>_. CIdle)\<rparr>"

fun conn_run :: "cenv \<Rightarrow> label list \<Rightarrow> conn \<Rightarrow> conn option" where
  "conn_run E [] s = Some s"
| "conn_run E (l # ls) s = Option.bind (conn_step E l s) (conn_run E ls)"

inductive conn_reach :: "cenv \<Rightarrow> byte list \<Rightarrow> conn \<Rightarrow> bool" for E b where
  conn_start: "conn_reach E b (conn_init b)"
| conn_more: "conn_reach E b s \<Longrightarrow> conn_step E l s = Some t \<Longrightarrow> conn_reach E b t"

lemma conn_run_reach: "conn_reach E b s \<Longrightarrow> conn_run E ls s = Some t \<Longrightarrow> conn_reach E b t"
proof (induction ls arbitrary: s)
  case Nil
  then show ?case by simp
next
  case (Cons l ls)
  then show ?case by (auto simp: bind_eq_Some_conv intro: conn_more)
qed

section \<open>Invariants of labelled systems\<close>

text \<open>A property that holds at the start and that every step keeps holds in every reachable state.\<close>

locale step_invariant =
  fixes env :: cenv and start :: "byte list" and inv :: "conn \<Rightarrow> bool"
  assumes inv_init: "inv (conn_init start)"
    and inv_step: "inv s \<Longrightarrow> conn_step env l s = Some t \<Longrightarrow> inv t"
begin

lemma reach_inv: "conn_reach env start s \<Longrightarrow> inv s"
  by (induction rule: conn_reach.induct) (auto intro: inv_init inv_step)

lemma run_inv: "conn_run env ls (conn_init start) = Some s \<Longrightarrow> inv s"
  by (blast intro: reach_inv conn_run_reach conn_start)

end

section \<open>Mutual exclusion of readers\<close>

lemmas step_defs = reader_step_def cb_step_def at_reader_def at_cb_def Let_def

definition reliable :: "cenv \<Rightarrow> bool" where
  "reliable E \<longleftrightarrow> counting_semaphores (kern E) \<and> \<not> oom E"

definition one_reader :: "conn \<Rightarrow> bool" where
  "one_reader s \<longleftrightarrow> (n_cn s = 1 \<and> (\<forall>i. \<not> crit (rd_pc s i))) \<or>
     (n_cn s = 0 \<and> (\<exists>i. \<forall>j. crit (rd_pc s j) \<longleftrightarrow> j = i))"

lemma one_reader_cong:
  assumes "n_cn t = n_cn s" "\<And>j. crit (rd_pc t j) = crit (rd_pc s j)"
  shows "one_reader t = one_reader s"
  using assms by (simp add: one_reader_def)

lemma one_reader_enter:
  assumes "one_reader s" "n_cn s \<noteq> 0" "n_cn t = n_cn s - 1" "rd_pc t = (rd_pc s)(i := p)" "crit p"
  shows "one_reader t"
proof -
  have "n_cn t = 0" "\<And>j. crit (rd_pc t j) \<longleftrightarrow> j = i"
    using assms by (auto simp: one_reader_def)
  then show ?thesis by (auto simp: one_reader_def)
qed

lemma one_reader_leave:
  assumes "one_reader s" "crit (rd_pc s i)" "n_cn t = Suc (n_cn s)" "rd_pc t = (rd_pc s)(i := RIdle)"
  shows "one_reader t"
proof -
  have "n_cn s = 0" "\<And>j. crit (rd_pc s j) \<longleftrightarrow> j = i"
    using assms(1,2) unfolding one_reader_def by metis+
  then have "n_cn t = 1" "\<And>j. \<not> crit (rd_pc t j)"
    using assms(3,4) by auto
  then show ?thesis by (auto simp: one_reader_def)
qed

lemma one_reader_moves:
  assumes E: "reliable E" and inv: "one_reader s" and st: "reader_step E i s = Some t"
  shows "one_reader t"
proof -
  have K: "counting_semaphores (kern E)" using E by (simp add: reliable_def)
  have enter: "one_reader t" if "n_cn s \<noteq> 0" "t = at_reader (s\<lparr>n_cn := n_cn s - 1\<rparr>) i p" "crit p" for p
    using that by (intro one_reader_enter [OF inv, of t i p]) (simp_all add: at_reader_def)
  have leave: "one_reader t" if "crit (rd_pc s i)" "n_cn t = Suc (n_cn s)" "rd_pc t = (rd_pc s)(i := RIdle)"
    by (rule one_reader_leave [OF inv that])
  show ?thesis
  proof (cases "rd_pc s i")
    case RSem
    with st K show ?thesis by (intro enter [of RCb]) (auto simp: reader_step_def split: if_splits)
  next
    case WSem
    with st K show ?thesis by (intro enter [of WUp]) (auto simp: reader_step_def split: if_splits)
  next
    case RRel
    with st K show ?thesis by (intro leave) (auto simp: step_defs)
  next
    case WUp
    with st K show ?thesis by (intro leave) (auto simp: step_defs)
  qed (use st inv in \<open>auto simp: step_defs split: if_splits
       intro!: one_reader_cong [where s = s, THEN iffD2]\<close>)
qed

lemma one_reader_step:
  assumes "reliable E" "one_reader s" "conn_step E l s = Some t"
  shows "one_reader t"
proof (cases l)
  case (Rd i)
  with assms show ?thesis by (auto intro: one_reader_moves)
next
  case (Cb c)
  with assms have "n_cn t = n_cn s" "rd_pc t = rd_pc s"
    by (auto simp: step_defs split: cpc.splits if_splits prod.splits)
  with assms show ?thesis by (simp add: one_reader_cong [of t s])
qed (use assms in \<open>auto simp: reliable_def step_defs split: if_splits list.splits
       intro!: one_reader_cong [where s = s, THEN iffD2]\<close>)

interpretation mutex: step_invariant E b "\<lambda>s. reliable E \<longrightarrow> one_reader s" for E b
  by unfold_locales (simp add: one_reader_def conn_init_def, blast dest: one_reader_step)

section \<open>Integrity of the answers\<close>

text \<open>A user space that gets and answers every request once, and nobody else sends.\<close>

definition honest :: "cenv \<Rightarrow> (byte list \<Rightarrow> byte list) \<Rightarrow> bool" where
  "honest E D \<longleftrightarrow> reliable E \<and> serves (userland E) D \<and> \<not> refuses E \<and> (\<forall>m. \<not> unsolicited E m)"

text \<open>\<open>quiet s n\<close>: no message and no callback is under way, and \<open>cb_sem\<close> counts \<open>n\<close>.\<close>

definition quiet :: "conn \<Rightarrow> nat \<Rightarrow> bool" where
  "quiet s n \<longleftrightarrow> n_cb s = n \<and> pend s = [] \<and> (\<forall>c. cb_pc s c = CIdle)"

definition only_cb :: "conn \<Rightarrow> cpc \<Rightarrow> bool" where
  "only_cb s p \<longleftrightarrow> n_cb s = 0 \<and> pend s = [] \<and> (\<exists>c. cb_pc s = (\<lambda>_. CIdle)(c := p))"

definition is_answer :: "byte list \<Rightarrow> cn_msg \<Rightarrow> bool" where
  "is_answer blk m \<longleftrightarrow> callback_len m = SJFS_BLOCKSIZE \<and> msg_data m = blk"

text \<open>Between the request and the second \<open>down\<close>: the answer waits, is being handled, or is in.\<close>

definition answering :: "byte list \<Rightarrow> conn \<Rightarrow> bool" where
  "answering blk s \<longleftrightarrow>
     (\<exists>m. is_answer blk m \<and> n_cb s = 0 \<and> pend s = [m] \<and> (\<forall>c. cb_pc s c = CIdle)) \<or>
     (\<exists>m. is_answer blk m \<and> only_cb s (CTry m)) \<or>
     (\<exists>m. is_answer blk m \<and> only_cb s (CCopy m)) \<or>
     (only_cb s CUp \<and> buf s = blk) \<or>
     (quiet s 1 \<and> buf s = blk)"

definition phase :: "byte list \<Rightarrow> conn \<Rightarrow> nat \<Rightarrow> bool" where
  "phase blk s i \<longleftrightarrow> (case rd_pc s i of
     WUp \<Rightarrow> quiet s 1
   | RCb \<Rightarrow> quiet s 1
   | RSend \<Rightarrow> quiet s 0
   | RCount \<Rightarrow> answering blk s
   | RWait \<Rightarrow> answering blk s
   | RUp \<Rightarrow> quiet s 0 \<and> buf s = blk
   | RCopy \<Rightarrow> quiet s 1 \<and> buf s = blk
   | RRel \<Rightarrow> quiet s 1 \<and> rd_got s i = blk
   | _ \<Rightarrow> True)"

definition requests_ok :: "conn \<Rightarrow> bool" where
  "requests_ok s \<longleftrightarrow> (\<forall>i. rd_pc s i \<in> {RSem, RCb, RSend} \<longrightarrow>
     msg_data (rd_msg s i) = read_request (rd_addr s i))"

definition history_ok :: "(byte list \<Rightarrow> byte list) \<Rightarrow> conn \<Rightarrow> bool" where
  "history_ok D s \<longleftrightarrow> (\<forall>i a blk. (a, blk) \<in> set (rd_hist s i) \<longrightarrow> blk = D (read_request a))"

definition honest_inv :: "(byte list \<Rightarrow> byte list) \<Rightarrow> conn \<Rightarrow> bool" where
  "honest_inv D s \<longleftrightarrow> one_reader s \<and> requests_ok s \<and> history_ok D s \<and>
     length (buf s) = SJFS_BLOCKSIZE \<and>
     (\<forall>i. crit (rd_pc s i) \<longrightarrow> phase (D (read_request (rd_addr s i))) s i) \<and>
     ((\<forall>i. \<not> crit (rd_pc s i)) \<longrightarrow> quiet s 1)"

lemma serves_answer:
  assumes "serves u D"
  shows "\<exists>m'. u m = [m'] \<and> is_answer (D (msg_data m)) m'"
  using assms by (auto simp: serves_def is_answer_def)

lemma requests_ok_step:
  assumes "requests_ok s" "conn_step E l s = Some t"
  shows "requests_ok t"
proof (cases l)
  case (Rd i)
  show ?thesis
    using assms unfolding Rd requests_ok_def
    by (cases "rd_pc s i") (auto simp: step_defs split: if_splits)
next
  case (Cb c)
  show ?thesis
    using assms unfolding Cb requests_ok_def
    by (cases "cb_pc s c") (auto simp: step_defs split: if_splits prod.splits)
qed (use assms in \<open>auto simp: requests_ok_def step_defs read_msg_def split: if_splits list.splits\<close>)

lemma buf_length_step:
  assumes "length (buf s) = SJFS_BLOCKSIZE" "conn_step E l s = Some t"
  shows "length (buf t) = SJFS_BLOCKSIZE"
proof (cases l)
  case (Rd i)
  show ?thesis
    using assms unfolding Rd by (cases "rd_pc s i") (auto simp: step_defs)
next
  case (Cb c)
  show ?thesis
    using assms unfolding Cb by (cases "cb_pc s c") (auto simp: step_defs split: if_splits prod.splits)
qed (use assms in \<open>auto simp: step_defs split: if_splits list.splits\<close>)

lemma answering_cong:
  assumes "n_cb t = n_cb s" "pend t = pend s" "cb_pc t = cb_pc s" "buf t = buf s"
  shows "answering blk t = answering blk s"
  using assms by (simp add: answering_def only_cb_def quiet_def)

lemmas phase_defs = phase_def quiet_def only_cb_def answering_def

text \<open>One statement of the reader that holds \<open>cn_sem\<close>.\<close>

lemma phase_reader_step:
  assumes E: "honest E D" and req: "requests_ok s" and len: "length (buf s) = SJFS_BLOCKSIZE"
    and ph: "crit (rd_pc s i)" "phase (D (read_request (rd_addr s i))) s i"
    and st: "reader_step E i s = Some t"
  shows "if crit (rd_pc t i) then phase (D (read_request (rd_addr s i))) t i else quiet t 1"
proof -
  have K: "counting_semaphores (kern E)" and srv: "serves (userland E) D"
    using E by (simp_all add: honest_def reliable_def)
  let ?blk = "D (read_request (rd_addr s i))"
  show ?thesis
  proof (cases "rd_pc s i")
    case RSend
    then have m: "msg_data (rd_msg s i) = read_request (rd_addr s i)"
      using req by (simp add: requests_ok_def)
    obtain m' where m': "userland E (rd_msg s i) = [m']" "is_answer ?blk m'"
      using serves_answer [OF srv, of "rd_msg s i"] m by auto
    have "quiet s 0" using ph RSend by (simp add: phase_def)
    then have "answering ?blk t"
      using st RSend m' unfolding answering_def by (intro disjI1) (auto simp: step_defs quiet_def)
    moreover have "rd_pc t i = RCount"
      using st RSend by (auto simp: step_defs)
    ultimately show ?thesis by (simp add: phase_def)
  next
    case RCount
    have "answering ?blk s"
      using ph RCount by (simp add: phase_def)
    moreover have "rd_pc t i = RWait" "n_cb t = n_cb s" "pend t = pend s" "cb_pc t = cb_pc s"
      "buf t = buf s"
      using st RCount by (auto simp: step_defs)
    ultimately show ?thesis
      by (simp add: phase_def answering_cong [of t s])
  next
    case RWait
    then have n: "n_cb s \<noteq> 0" and ans: "answering ?blk s"
      using ph st K by (auto simp: step_defs phase_def split: if_splits)
    from ans n have "quiet s 1 \<and> buf s = ?blk"
      unfolding answering_def by (auto simp: only_cb_def)
    then show ?thesis
      using st RWait K by (auto simp: step_defs phase_def quiet_def)
  qed (use st ph K len in \<open>auto simp: step_defs phase_def quiet_def\<close>)
qed

text \<open>When one callback is active and nothing waits, the next callback step is its own.\<close>

lemma only_cb_step:
  assumes "only_cb s p" "p \<noteq> CIdle"
    and st: "conn_step E (Arrive c) s = Some t \<or> conn_step E (Cb c) s = Some t"
  shows "cb_pc s = (\<lambda>_. CIdle)(c := p)" "cb_step E c s = Some t" "n_cb s = 0" "pend s = []"
proof -
  show n: "n_cb s = 0" "pend s = []"
    using assms by (simp_all add: only_cb_def)
  then show cb: "cb_step E c s = Some t"
    using st by (auto split: if_splits)
  then have "cb_pc s c \<noteq> CIdle"
    by (auto simp: cb_step_def)
  then show "cb_pc s = (\<lambda>_. CIdle)(c := p)"
    using assms by (auto simp: only_cb_def split: if_splits)
qed

text \<open>A callback can only be active while the reader waits for its answer.\<close>

lemma phase_cb_step:
  assumes E: "honest E D" and ph: "crit (rd_pc s i)" "phase blk s i"
    and len: "length (buf s) = SJFS_BLOCKSIZE" "length blk = SJFS_BLOCKSIZE"
    and st: "conn_step E (Arrive c) s = Some t \<or> conn_step E (Cb c) s = Some t"
  shows "phase blk t i"
proof -
  have K: "counting_semaphores (kern E)"
    using E by (simp add: honest_def reliable_def)
  have pc: "rd_pc s i \<in> {RCount, RWait}" and ans: "answering blk s"
    using st ph by (cases "rd_pc s i"; force simp: phase_defs cb_step_def)+
  have keep: "rd_pc t i = rd_pc s i"
    using st by (auto simp: step_defs split: cpc.splits if_splits list.splits prod.splits)
  have "answering blk t"
    using ans [unfolded answering_def]
  proof (elim disjE exE conjE)
    fix m assume "is_answer blk m" "n_cb s = 0" "pend s = [m]" "\<forall>c. cb_pc s c = CIdle"
    then have "only_cb t (CTry m)"
      using st unfolding only_cb_def by (intro conjI exI [of _ c]) (auto simp: step_defs fun_eq_iff)
    with \<open>is_answer blk m\<close> show "answering blk t" by (auto simp: answering_def)
  next
    fix m assume "is_answer blk m" "only_cb s (CTry m)"
    then have "only_cb t (CCopy m)"
      using only_cb_step [OF \<open>only_cb s (CTry m)\<close> _ st] K
      unfolding only_cb_def by (intro conjI exI [of _ c]) (auto simp: cb_step_def at_cb_def)
    with \<open>is_answer blk m\<close> show "answering blk t" by (auto simp: answering_def)
  next
    fix m assume "is_answer blk m" "only_cb s (CCopy m)"
    then have "only_cb t CUp \<and> buf t = blk"
      using only_cb_step [OF \<open>only_cb s (CCopy m)\<close> _ st] len
      unfolding only_cb_def
      by (intro conjI exI [of _ c])
         (auto simp: cb_step_def at_cb_def Let_def is_answer_def overwrite_def split: if_splits)
    then show "answering blk t" by (auto simp: answering_def)
  next
    assume "only_cb s CUp" "buf s = blk"
    then have "quiet t 1 \<and> buf t = blk"
      using only_cb_step [OF \<open>only_cb s CUp\<close> _ st] K by (auto simp: cb_step_def at_cb_def quiet_def)
    then show "answering blk t" by (auto simp: answering_def)
  next
    assume "quiet s 1" "buf s = blk"
    then show "answering blk t"
      using st by (auto simp: step_defs quiet_def)
  qed
  with pc keep show ?thesis by (auto simp: phase_def)
qed

lemma history_ok_step:
  assumes hist: "history_ok D s" and st: "conn_step E l s = Some t"
    and ph: "\<And>i. rd_pc s i = RRel \<Longrightarrow> rd_got s i = D (read_request (rd_addr s i))"
  shows "history_ok D t"
proof (cases l)
  case (Rd i)
  show ?thesis
    using hist st ph [of i] unfolding Rd history_ok_def
    by (cases "rd_pc s i") (auto simp: step_defs split: if_splits)
next
  case (Cb c)
  show ?thesis
    using hist st unfolding Cb history_ok_def
    by (cases "cb_pc s c") (auto simp: step_defs split: if_splits prod.splits)
qed (use hist st in \<open>auto simp: history_ok_def step_defs split: if_splits list.splits\<close>)

text \<open>The rest of the invariant, by the kind of step.\<close>

definition phases_ok :: "(byte list \<Rightarrow> byte list) \<Rightarrow> conn \<Rightarrow> bool" where
  "phases_ok D s \<longleftrightarrow>
     (\<forall>i. crit (rd_pc s i) \<longrightarrow> phase (D (read_request (rd_addr s i))) s i) \<and>
     ((\<forall>i. \<not> crit (rd_pc s i)) \<longrightarrow> quiet s 1)"

lemma reader_step_frame:
  assumes "reader_step E i s = Some t"
  shows "rd_addr t = rd_addr s" "j \<noteq> i \<Longrightarrow> rd_pc t j = rd_pc s j"
  using assms by (auto simp: step_defs split: rpc.splits)

lemma phases_ok_reader:
  assumes E: "honest E D" and inv: "honest_inv D s" and st: "reader_step E i s = Some t"
  shows "phases_ok D t"
proof (cases "crit (rd_pc s i)")
  case True
  with inv have only: "\<And>j. crit (rd_pc s j) \<Longrightarrow> j = i"
    by (auto simp: honest_inv_def one_reader_def)
  have *: "if crit (rd_pc t i) then phase (D (read_request (rd_addr s i))) t i else quiet t 1"
    using E inv True st by (intro phase_reader_step) (auto simp: honest_inv_def)
  have only_t: "crit (rd_pc t j) \<Longrightarrow> j = i" for j
    using only reader_step_frame(2) [OF st, of j] by metis
  show ?thesis
    unfolding phases_ok_def using * only_t reader_step_frame(1) [OF st] by (metis)
next
  case False
  have K: "counting_semaphores (kern E)"
    using E by (simp add: honest_def reliable_def)
  from False st have pc: "rd_pc s i \<in> {RSem, WSem}"
    by (cases "rd_pc s i") (auto simp: reader_step_def)
  with st K have "n_cn s \<noteq> 0"
    by (auto simp: reader_step_def split: if_splits)
  then have none: "\<And>j. \<not> crit (rd_pc s j)" and q: "quiet s 1"
    using inv by (auto simp: honest_inv_def one_reader_def)
  have "crit (rd_pc t j) \<longleftrightarrow> j = i" for j
    using none [of j] st pc by (auto simp: step_defs split: if_splits)
  moreover have "phase blk t i" for blk
    using st pc q by (auto simp: step_defs phase_def quiet_def)
  ultimately show ?thesis by (auto simp: phases_ok_def)
qed

lemma phases_ok_cb:
  assumes E: "honest E D" and inv: "honest_inv D s"
    and st: "conn_step E (Arrive c) s = Some t \<or> conn_step E (Cb c) s = Some t"
  shows "phases_ok D t"
proof -
  have frame: "rd_addr t = rd_addr s" "rd_pc t = rd_pc s"
    using st by (auto simp: step_defs split: cpc.splits if_splits list.splits prod.splits)
  have len: "length (D x) = SJFS_BLOCKSIZE" for x
    using E by (simp add: honest_def serves_def)
  have "crit (rd_pc s i) \<Longrightarrow> phase (D (read_request (rd_addr s i))) t i" for i
    using inv phase_cb_step [OF E _ _ _ len st] by (auto simp: honest_inv_def)
  moreover have "\<exists>i. crit (rd_pc s i)"
  proof (rule ccontr)
    assume "\<not> ?thesis"
    then have "quiet s 1" using inv by (auto simp: honest_inv_def)
    then show False using st by (auto simp: quiet_def cb_step_def)
  qed
  ultimately show ?thesis
    using frame by (auto simp: phases_ok_def)
qed

lemma honest_inv_split:
  "honest_inv D s \<longleftrightarrow> one_reader s \<and> requests_ok s \<and> history_ok D s \<and>
     length (buf s) = SJFS_BLOCKSIZE \<and> phases_ok D s"
  by (auto simp: honest_inv_def phases_ok_def)

lemma phase_cong:
  assumes "rd_pc t i = rd_pc s i" "n_cb t = n_cb s" "pend t = pend s" "cb_pc t = cb_pc s"
    "buf t = buf s" "rd_got t i = rd_got s i"
  shows "phase blk t i = phase blk s i"
  using assms by (simp add: phase_def quiet_def answering_cong [of t s] split: rpc.splits)

text \<open>Steps outside the critical section leave the phase of the reader inside it alone.\<close>

lemma phases_ok_entry:
  assumes inv: "phases_ok D s" and out: "\<not> crit (rd_pc s i)" "\<not> crit p"
    and t: "rd_pc t = (rd_pc s)(i := p)" "\<And>j. j \<noteq> i \<Longrightarrow> rd_addr t j = rd_addr s j"
    and frame: "n_cb t = n_cb s" "pend t = pend s" "cb_pc t = cb_pc s" "buf t = buf s"
      "rd_got t = rd_got s"
  shows "phases_ok D t"
proof -
  have crit: "crit (rd_pc t j) \<longleftrightarrow> crit (rd_pc s j)" for j
    using out t(1) by simp
  have "phase blk t j = phase blk s j" if "crit (rd_pc s j)" for blk j
    using that out t frame by (intro phase_cong) auto
  moreover have "crit (rd_pc s j) \<Longrightarrow> rd_addr t j = rd_addr s j" for j
    using out t(2) by metis
  moreover have "quiet t 1 = quiet s 1"
    using frame by (simp add: quiet_def)
  ultimately show ?thesis
    using inv crit by (simp add: phases_ok_def)
qed

lemma honest_inv_step:
  assumes E: "honest E D" and inv: "honest_inv D s" and st: "conn_step E l s = Some t"
  shows "honest_inv D t"
proof -
  have "phases_ok D t"
  proof (cases l)
    case (Call i a)
    with st inv show ?thesis
      by (intro phases_ok_entry [of D s i RStart t])
         (auto simp: honest_inv_split at_reader_def split: if_splits)
  next
    case (Write i)
    with st inv show ?thesis
      by (intro phases_ok_entry [of D s i WSem t])
         (auto simp: honest_inv_split at_reader_def split: if_splits)
  next
    case (Refuse i)
    with st E show ?thesis by (auto simp: honest_def split: if_splits)
  next
    case (Alloc i ok)
    with st inv E show ?thesis
      by (intro phases_ok_entry [of D s i RSem t])
         (auto simp: honest_inv_split honest_def reliable_def at_reader_def split: if_splits)
  next
    case (Spont c m)
    with st E show ?thesis by (auto simp: honest_def split: if_splits)
  qed (use st phases_ok_reader [OF E inv] phases_ok_cb [OF E inv] in auto)
  moreover have "rd_pc s i = RRel \<Longrightarrow> rd_got s i = D (read_request (rd_addr s i))" for i
    using inv by (auto simp: honest_inv_def phase_def dest!: spec [of _ i])
  ultimately show ?thesis
    using inv st E unfolding honest_inv_split
    by (auto simp: honest_def intro: one_reader_step requests_ok_step history_ok_step buf_length_step)
qed

interpretation honesty: step_invariant E b
  "\<lambda>s. honest E D \<and> length b = SJFS_BLOCKSIZE \<longrightarrow> honest_inv D s" for E b D
  by unfold_locales
     (simp add: honest_inv_def one_reader_def requests_ok_def history_ok_def quiet_def conn_init_def,
      blast dest: honest_inv_step)

section \<open>Progress\<close>

fun internal :: "label \<Rightarrow> bool" where
  "internal (Call i a) = False"
| "internal (Write i) = False"
| "internal _ = True"

definition can_step :: "cenv \<Rightarrow> conn \<Rightarrow> bool" where
  "can_step E s \<longleftrightarrow> (\<exists>l t. internal l \<and> conn_step E l s = Some t)"

lemma can_stepI: "internal l \<Longrightarrow> conn_step E l s \<noteq> None \<Longrightarrow> can_step E s"
  by (auto simp: can_step_def)

lemma answering_can_step:
  assumes K: "counting_semaphores (kern E)" and ans: "answering blk s"
    and len: "length (buf s) = SJFS_BLOCKSIZE" "length blk = SJFS_BLOCKSIZE"
    and pc: "rd_pc s i = RWait"
  shows "can_step E s"
  using ans [unfolded answering_def]
proof (elim disjE exE conjE)
  fix m assume "pend s = [m]" "\<forall>c. cb_pc s c = CIdle"
  then show ?thesis by (intro can_stepI [of "Arrive 0"]) auto
next
  fix m assume "only_cb s (CTry m)"
  then obtain c where "cb_pc s c = CTry m" by (auto simp: only_cb_def)
  then show ?thesis using K by (intro can_stepI [of "Cb c"]) (auto simp: cb_step_def)
next
  fix m assume "is_answer blk m" "only_cb s (CCopy m)"
  then obtain c where "cb_pc s c = CCopy m" by (auto simp: only_cb_def)
  with \<open>is_answer blk m\<close> len show ?thesis
    by (intro can_stepI [of "Cb c"]) (auto simp: cb_step_def is_answer_def Let_def)
next
  assume "only_cb s CUp"
  then obtain c where "cb_pc s c = CUp" by (auto simp: only_cb_def)
  then show ?thesis by (intro can_stepI [of "Cb c"]) (auto simp: cb_step_def)
next
  assume "quiet s 1"
  then show ?thesis
    using K pc by (intro can_stepI [of "Rd i"]) (auto simp: reader_step_def quiet_def)
qed

text \<open>With an honest user space the protocol never deadlocks.\<close>

lemma honest_can_step:
  assumes E: "honest E D" and inv: "honest_inv D s" and busy: "rd_pc s i \<noteq> RIdle"
  shows "can_step E s"
proof (cases "\<exists>j. crit (rd_pc s j)")
  case True
  then obtain j where j: "crit (rd_pc s j)" by blast
  have K: "counting_semaphores (kern E)" and len: "\<And>x. length (D x) = SJFS_BLOCKSIZE"
    using E by (simp_all add: honest_def reliable_def serves_def)
  have ph: "phase (D (read_request (rd_addr s j))) s j" and lb: "length (buf s) = SJFS_BLOCKSIZE"
    using inv j by (simp_all add: honest_inv_def)
  show ?thesis
  proof (cases "rd_pc s j")
    case RWait
    with ph show ?thesis
      by (intro answering_can_step [OF K _ lb len RWait]) (simp add: phase_def)
  qed (use j K ph in \<open>auto intro!: can_stepI [of "Rd j"] simp: reader_step_def phase_def quiet_def\<close>)
next
  case False
  then have n: "n_cn s = 1" and K: "counting_semaphores (kern E)"
    using inv E by (auto simp: honest_inv_def one_reader_def honest_def reliable_def)
  from busy False consider "rd_pc s i = RStart" | "rd_pc s i \<in> {RSem, WSem}"
    by (cases "rd_pc s i") (fastforce dest: spec [of _ i])+
  then show ?thesis
  proof cases
    case 1
    then show ?thesis by (intro can_stepI [of "Alloc i True"]) auto
  next
    case 2
    with n K show ?thesis by (intro can_stepI [of "Rd i"]) (auto simp: reader_step_def)
  qed
qed

section \<open>A user space that never answers\<close>

definition silent :: "cenv \<Rightarrow> bool" where
  "silent E \<longleftrightarrow> reliable E \<and> (\<forall>m. userland E m = [] \<and> \<not> unsolicited E m)"

definition silent_inv :: "conn \<Rightarrow> bool" where
  "silent_inv s \<longleftrightarrow> one_reader s \<and> pend s = [] \<and> n_cb s \<le> 1 \<and>
     (\<forall>i. cb_pc s i = CIdle \<and> rd_pc s i \<le> RWait \<and> rd_hist s i = [] \<and> (RSend \<le> rd_pc s i \<longrightarrow> n_cb s = 0))"

lemma silent_reader:
  assumes E: "silent E" and inv: "silent_inv s" and st: "reader_step E i s = Some t"
  shows "silent_inv t"
proof -
  have K: "counting_semaphores (kern E)" and u: "\<And>m. userland E m = []"
    using E by (simp_all add: silent_def reliable_def)
  have one: "one_reader t"
    using one_reader_step [of E s "Rd i" t] E inv st by (simp add: silent_def silent_inv_def)
  have le: "rd_pc s i \<le> RWait" and z: "RSend \<le> rd_pc s i \<Longrightarrow> n_cb s = 0"
    using inv by (auto simp: silent_inv_def)
  show ?thesis
  proof (cases "rd_pc s i")
    case RSem
    with st K inv one show ?thesis
      by (auto simp: silent_inv_def step_defs less_eq_rpc_def split: if_splits)
  next
    case WSem
    with st K inv one show ?thesis
      by (auto simp: silent_inv_def step_defs less_eq_rpc_def split: if_splits)
  next
    case WUp
    with st K inv one show ?thesis
      by (auto simp: silent_inv_def step_defs less_eq_rpc_def split: if_splits)
  next
    case RCb
    with st K inv one show ?thesis
      by (auto simp: silent_inv_def step_defs less_eq_rpc_def split: if_splits)
  next
    case RSend
    with st u z inv one show ?thesis
      by (auto simp: silent_inv_def step_defs less_eq_rpc_def)
  next
    case RCount
    with st z inv one show ?thesis
      by (auto simp: silent_inv_def step_defs less_eq_rpc_def)
  qed (use st le z K in \<open>auto simp: reader_step_def less_eq_rpc_def\<close>)
qed

lemma silent_inv_step:
  assumes E: "silent E" and inv: "silent_inv s" and st: "conn_step E l s = Some t"
  shows "silent_inv t"
proof (cases l)
  case (Rd i)
  with st silent_reader [OF E inv] show ?thesis by simp
next
  case (Cb c)
  with st inv show ?thesis by (simp add: silent_inv_def cb_step_def)
next
  case (Arrive c)
  with st inv show ?thesis by (simp add: silent_inv_def)
next
  case (Spont c m)
  with st E show ?thesis by (simp add: silent_def)
next
  case (Refuse i)
  with st have "rd_pc s i = RSend" by (simp split: if_splits)
  then have "n_cb s = 0" using inv by (auto simp: silent_inv_def dest: spec [of _ i])
  with Refuse one_reader_step [of E s l t] E inv st show ?thesis
    by (auto simp: silent_inv_def silent_def at_reader_def less_eq_rpc_def split: if_splits)
qed (use one_reader_step [of E s l t] E inv st in
      \<open>auto simp: silent_inv_def silent_def reliable_def at_reader_def less_eq_rpc_def split: if_splits\<close>)

interpretation silence: step_invariant E b "\<lambda>s. silent E \<longrightarrow> silent_inv s" for E b
  by unfold_locales
     (simp add: silent_inv_def one_reader_def conn_init_def less_eq_rpc_def, blast dest: silent_inv_step)

section \<open>Concrete environments\<close>

definition sample_block :: "byte list" where
  "sample_block = replicate SJFS_BLOCKSIZE 7"

definition sample_env :: cenv where
  "sample_env = \<lparr>kern = sample_kernel, userland = sample_user sample_block, unsolicited = (\<lambda>_. False), oom = False,
     refuses = False\<rparr>"

lemma length_sample_block [simp]: "length sample_block = SJFS_BLOCKSIZE"
  by (simp add: sample_block_def)

lemma sample_env_reliable [simp]: "reliable sample_env"
  by (simp add: reliable_def sample_env_def)

lemma sample_env_honest [simp]: "honest sample_env (\<lambda>_. sample_block)"
  using sample_user_serves [of sample_block] sample_env_reliable
  by (simp add: honest_def) (simp add: sample_env_def)

text \<open>The states of one read, up to the wait and to the end, with a second reader at the door.\<close>

definition read_begin :: "label list" where
  "read_begin = [Call 0 7, Call 1 8, Alloc 0 True, Alloc 1 True, Rd 0, Rd 0, Rd 0, Rd 0]"

definition read_end :: "label list" where
  "read_end = [Arrive 4, Cb 4, Cb 4, Cb 4, Rd 0, Rd 0, Rd 0, Rd 0]"

lemmas run_defs = step_defs conn_init_def

lemma sample_begin:
  "\<exists>s. conn_run sample_env read_begin (conn_init sample_block) = Some s \<and> rd_pc s 0 = RWait \<and> rd_pc s 1 = RSem"
  by (simp add: read_begin_def run_defs sample_env_def)

lemma sample_end:
  "\<exists>s. conn_run sample_env (read_begin @ read_end) (conn_init sample_block) = Some s \<and> map fst (rd_hist s 0) = [7]"
  by (simp add: read_begin_def read_end_def run_defs sample_env_def sample_user_def overwrite_def)

lemma sample_handover:
  "\<exists>s t. conn_run sample_env read_begin (conn_init sample_block) = Some s
    \<and> conn_run sample_env (read_end @ [Rd 1]) s = Some t \<and> rd_pc t 1 = RCb"
  by (simp add: read_begin_def read_end_def run_defs sample_env_def sample_user_def overwrite_def)

section \<open>Properties\<close>

text \<open>C1. With any number of concurrent readers, writers and callbacks, when every message is allocated and
  sent, user space answers every request once and nobody else sends: every completed read of a block got the contents that user space has
  for the request of that block.\<close>

theorem concurrent_reads_correct:
  assumes "honest E D" "length b = SJFS_BLOCKSIZE" "conn_reach E b s" "(a, blk) \<in> set (rd_hist s i)"
  shows "blk = D (read_request a)"
  using honesty.reach_inv [OF assms(3), of D] assms(1,2,4) unfolding honest_inv_def history_ok_def by blast

theorem concurrent_reads_correct_witness:
  "\<exists>s blk. conn_run sample_env (read_begin @ read_end) (conn_init sample_block) = Some s
    \<and> rd_hist s 0 = [(7, blk)] \<and> blk = sample_block"
proof -
  obtain s where s: "conn_run sample_env (read_begin @ read_end) (conn_init sample_block) = Some s"
      "map fst (rd_hist s 0) = [7]"
    using sample_end by (elim exE conjE)
  from s(2) obtain blk where h: "rd_hist s 0 = [(7, blk)]" by auto
  have "blk = sample_block"
    using concurrent_reads_correct [OF sample_env_honest length_sample_block
        conn_run_reach [OF conn_start s(1)], of 7 blk 0] h by simp
  with s(1) h show ?thesis by (intro exI [of _ s] exI [of _ blk] conjI)
qed

text \<open>C2. As long as no allocation of a message fails, at most one thread in \<open>sjfs_read_block\<close> or
  \<open>sjfs_write_block\<close> is between its \<open>down\<close> and its \<open>up\<close> of \<open>cn_sem\<close>, whatever user space and other
  processes send and whether or not messages are refused.\<close>

theorem readers_exclude:
  assumes "reliable E" "conn_reach E b s" "crit (rd_pc s i)" "crit (rd_pc s j)"
  shows "i = j \<and> n_cn s = 0"
  using mutex.reach_inv [OF assms(2)] assms(1,3,4) unfolding one_reader_def by metis

theorem readers_exclude_witness:
  "\<exists>s. conn_run sample_env read_begin (conn_init sample_block) = Some s \<and> crit (rd_pc s 0) \<and> \<not> crit (rd_pc s 1)"
proof -
  obtain s where s: "conn_run sample_env read_begin (conn_init sample_block) = Some s" "rd_pc s 0 = RWait"
    using sample_begin by (elim exE conjE)
  have c: "crit (rd_pc s 0)" unfolding s(2) by simp
  moreover have "\<not> crit (rd_pc s 1)"
    using readers_exclude [OF sample_env_reliable conn_run_reach [OF conn_start s(1)] c, of 1] by auto
  ultimately show ?thesis using s(1) by (intro exI [of _ s] conjI)
qed

section \<open>Runs that break the protocol\<close>

definition oom_run :: "label list" where
  "oom_run = [Call 0 0, Alloc 0 False, Rd 0, Rd 0, Rd 0, Rd 0, Rd 0,
     Call 1 1, Call 2 2, Alloc 1 True, Alloc 2 True, Rd 1, Rd 2]"

text \<open>C20. One failed \<open>kzalloc\<close> releases \<open>cn_sem\<close> once too often; two later readers then both hold it.\<close>

theorem oom_breaks_exclusion:
  assumes "counting_semaphores (kern E)" "oom E"
  shows "\<exists>s. conn_run E oom_run (conn_init b) = Some s \<and> crit (rd_pc s 1) \<and> crit (rd_pc s 2)"
  using assms by (simp add: oom_run_def run_defs)

theorem oom_breaks_exclusion_witness:
  "\<exists>s. conn_run (sample_env\<lparr>oom := True\<rparr>) oom_run (conn_init []) = Some s \<and> crit (rd_pc s 1) \<and> crit (rd_pc s 2)"
  using oom_breaks_exclusion [of "sample_env\<lparr>oom := True\<rparr>" "[]"] by (simp add: sample_env_def)

text \<open>A message nobody asked for is taken as the answer: \<open>cn_callback\<close> looks at neither the sender
  nor the sequence number.\<close>

definition spoof_run :: "uint \<Rightarrow> cn_msg \<Rightarrow> label list" where
  "spoof_run a m = [Call 0 a, Alloc 0 True, Rd 0, Rd 0, Rd 0, Rd 0,
     Spont 0 m, Cb 0, Cb 0, Cb 0, Rd 0, Rd 0, Rd 0, Rd 0]"

text \<open>A message that arrives between the reader's second \<open>down\<close> and its \<open>up\<close> leaves \<open>cb_sem\<close>
  at 2, so that the next read returns before it is answered.\<close>

definition stale_run :: "uint \<Rightarrow> uint \<Rightarrow> cn_msg \<Rightarrow> label list" where
  "stale_run a a' m = [Call 0 a, Alloc 0 True, Rd 0, Rd 0, Rd 0, Rd 0, Arrive 0, Cb 0, Cb 0, Cb 0,
     Rd 0, Spont 1 m, Cb 1, Cb 1, Cb 1, Rd 0, Rd 0, Rd 0,
     Call 0 a', Alloc 0 True, Rd 0, Rd 0, Rd 0, Rd 0, Rd 0, Rd 0, Rd 0, Rd 0]"

text \<open>A block that some other process sends unasked while a reader waits is returned as the contents of
  the block it wanted.\<close>

lemma spoofed_answer_accepted:
  assumes "counting_semaphores (kern E)" "unsolicited E m" "is_answer blk m"
    "length blk = SJFS_BLOCKSIZE" "length b = SJFS_BLOCKSIZE"
  shows "\<exists>s. conn_run E (spoof_run a m) (conn_init b) = Some s \<and> rd_hist s 0 = [(a, blk)]"
  using assms by (simp add: spoof_run_def run_defs is_answer_def overwrite_def)

definition spoof_env :: cenv where
  "spoof_env = sample_env\<lparr>unsolicited := \<lambda>_. True\<rparr>"

definition spoof_msg :: cn_msg where
  "spoof_msg = \<lparr>msg_id = (14, 0x456), msg_seq = 99, msg_ack = 0, msg_len = 1024,
     msg_data = replicate SJFS_BLOCKSIZE 9\<rparr>"

lemma spoof_msg_answer [simp]: "is_answer (replicate SJFS_BLOCKSIZE 9) spoof_msg"
  by (simp add: is_answer_def spoof_msg_def callback_len_def SJFS_BLOCKSIZE_def)

lemma spoof_env_simps [simp]:
  "counting_semaphores (kern spoof_env)" "unsolicited spoof_env m" "serves (userland spoof_env) (\<lambda>_. sample_block)"
  using sample_user_serves [of sample_block] by (simp_all add: spoof_env_def sample_env_def)

text \<open>C21. When a message of another process arrives between a reader's \<open>down\<close> and \<open>up\<close> of \<open>cb_sem\<close>, the reader
  returns the contents of that message, and its next read, of any block, returns at once with the
  same contents while the answer to it is still on the way.\<close>

theorem stale_answer_returned:
  assumes "counting_semaphores (kern E)" "serves (userland E) D" "unsolicited E m"
    "is_answer blk m" "length blk = SJFS_BLOCKSIZE" "length b = SJFS_BLOCKSIZE"
  shows "\<exists>s. conn_run E (stale_run a a' m) (conn_init b) = Some s \<and>
    rd_hist s 0 = [(a, blk), (a', blk)] \<and> length (pend s) = 1"
proof -
  have u: "userland E x = [reply_msg x (D (msg_data x))]" "length (D y) = SJFS_BLOCKSIZE" for x y
    using assms(2) by (simp_all add: serves_def)
  show ?thesis
    using assms u by (simp add: stale_run_def run_defs is_answer_def overwrite_def)
qed

theorem stale_answer_returned_witness:
  "\<exists>s. conn_run spoof_env (stale_run 7 8 spoof_msg) (conn_init sample_block) = Some s \<and>
    rd_hist s 0 = [(7, replicate SJFS_BLOCKSIZE 9), (8, replicate SJFS_BLOCKSIZE 9)] \<and> length (pend s) = 1"
  using stale_answer_returned [OF spoof_env_simps(1,3,2) spoof_msg_answer _ length_sample_block, of 7 8] by simp

end
