(* ===== verification/Connector_Progress.thy ===== *)
theory Connector_Progress
  imports Connector_Steps
begin

text \<open>
  Every read of \<open>Connector_Steps\<close> comes to its end when user space answers: the work that is left is
  bounded, every step of a thread or callback uses some of it up, and while a reader is inside
  \<open>sjfs_read_block\<close> some step is possible.
\<close>

section \<open>Sums over finitely many active threads\<close>

definition tally :: "(nat \<Rightarrow> nat) \<Rightarrow> nat" where
  "tally f = sum f {i. f i \<noteq> 0}"

lemma tally_eq_sum: "finite A \<Longrightarrow> {i. f i \<noteq> 0} \<subseteq> A \<Longrightarrow> tally f = sum f A"
  unfolding tally_def by (rule sum.mono_neutral_left) auto

lemma tally_upd:
  assumes "finite {i. f i \<noteq> 0}"
  shows "tally (f(i := v)) + f i = tally f + v"
proof -
  let ?A = "insert i {i. f i \<noteq> 0}"
  have A: "finite ?A" using assms by simp
  have "tally (f(i := v)) = sum (f(i := v)) ?A" by (rule tally_eq_sum [OF A]) auto
  moreover have "tally f = sum f ?A" by (rule tally_eq_sum [OF A]) auto
  ultimately show ?thesis
    using sum.remove [OF A insertI1, of f] sum.remove [OF A insertI1, of "f(i := v)"] by simp
qed

section \<open>The work that is left\<close>

text \<open>The statements a reader has still to run, and four steps for the answer to a request that is not
  sent yet: its arrival and the three statements of its callback.\<close>

fun rd_work :: "rpc \<Rightarrow> nat" where
  "rd_work RIdle = 0" | "rd_work RStart = 13" | "rd_work RSem = 12" | "rd_work RCb = 11" | "rd_work WSem = 2" | "rd_work WUp = 1"
| "rd_work RSend = 10" | "rd_work RCount = 5" | "rd_work RWait = 4" | "rd_work RUp = 3"
| "rd_work RCopy = 2" | "rd_work RRel = 1"

fun cb_work :: "cpc \<Rightarrow> nat" where
  "cb_work CIdle = 0" | "cb_work (CTry m) = 3" | "cb_work (CCopy m) = 2" | "cb_work CUp = 1"
| "cb_work CBack = 1"

lemma rd_work_0 [simp]: "rd_work p = 0 \<longleftrightarrow> p = RIdle"
  by (cases p) simp_all

lemma cb_work_0 [simp]: "cb_work p = 0 \<longleftrightarrow> p = CIdle"
  by (cases p) simp_all

definition work :: "conn \<Rightarrow> nat" where
  "work s = tally (rd_work \<circ> rd_pc s) + 4 * length (pend s) + tally (cb_work \<circ> cb_pc s)"

definition finitely_active :: "conn \<Rightarrow> bool" where
  "finitely_active s \<longleftrightarrow> finite {i. rd_pc s i \<noteq> RIdle} \<and> finite {c. cb_pc s c \<noteq> CIdle}"

lemma finite_active_upd: "finite {i. f i \<noteq> z} \<Longrightarrow> finite {i. (f(j := v)) i \<noteq> z}"
  by (rule finite_subset [of _ "insert j {i. f i \<noteq> z}"]) auto

text \<open>A step moves at most one reader and at most one callback.\<close>

fun mover :: "label \<Rightarrow> nat" where
  "mover (Call i a) = i" | "mover (Write i) = i" | "mover (Refuse i) = i" | "mover (Alloc i ok) = i" | "mover (Rd i) = i"
| "mover (Arrive c) = c" | "mover (Spont c m) = c" | "mover (Cb c) = c"

lemma step_moves:
  assumes "conn_step E l s = Some t"
  shows "rd_pc t = (rd_pc s)(mover l := rd_pc t (mover l)) \<and> cb_pc t = (cb_pc s)(mover l := cb_pc t (mover l))"
proof (cases l)
  case (Rd i)
  with assms show ?thesis by (cases "rd_pc s i") (auto simp: step_defs)
next
  case (Cb c)
  with assms show ?thesis by (cases "cb_pc s c") (auto simp: step_defs split: if_splits prod.splits)
qed (use assms in \<open>auto simp: step_defs split: if_splits list.splits\<close>)

interpretation finact: step_invariant E b finitely_active for E b
proof unfold_locales
  show "finitely_active (conn_init b)" by (simp add: finitely_active_def conn_init_def)
  fix s l t assume "finitely_active s" "conn_step E l s = Some t"
  with step_moves [of E l s t] show "finitely_active t"
    unfolding finitely_active_def by (metis finite_active_upd)
qed

lemma tally_reader:
  "finitely_active s \<Longrightarrow> rd_pc t = (rd_pc s)(i := p) \<Longrightarrow>
    tally (rd_work \<circ> rd_pc t) + rd_work (rd_pc s i) = tally (rd_work \<circ> rd_pc s) + rd_work p"
  using tally_upd [of "rd_work \<circ> rd_pc s" i "rd_work p"]
  by (simp add: finitely_active_def fun_upd_comp)

lemma tally_callback:
  "finitely_active s \<Longrightarrow> cb_pc t = (cb_pc s)(c := q) \<Longrightarrow>
    tally (cb_work \<circ> cb_pc t) + cb_work (cb_pc s c) = tally (cb_work \<circ> cb_pc s) + cb_work q"
  using tally_upd [of "cb_work \<circ> cb_pc s" c "cb_work q"]
  by (simp add: finitely_active_def fun_upd_comp)

lemma reader_uses_work:
  assumes "honest E D" "finitely_active s" "reader_step E i s = Some t"
  shows "work t < work s"
proof -
  have u: "length (userland E m) = 1" for m
    using assms(1) by (simp add: honest_def serves_def)
  obtain p where p: "rd_pc t = (rd_pc s)(i := p)" "cb_pc t = cb_pc s"
      "rd_work p + 4 * length (pend t) < rd_work (rd_pc s i) + 4 * length (pend s)"
    using assms(3) u by (cases "rd_pc s i") (auto simp: step_defs)
  then show ?thesis
    using tally_reader [OF assms(2) p(1)] by (simp add: work_def)
qed

lemma callback_uses_work:
  assumes "finitely_active s" "cb_step E c s = Some t"
  shows "work t < work s"
proof -
  obtain q where q: "cb_pc t = (cb_pc s)(c := q)" "rd_pc t = rd_pc s" "pend t = pend s"
      "cb_work q < cb_work (cb_pc s c)"
    using assms(2) by (cases "cb_pc s c") (auto simp: step_defs split: if_splits prod.splits)
  then show ?thesis
    using tally_callback [OF assms(1) q(1)] by (simp add: work_def)
qed

lemma step_uses_work:
  assumes E: "honest E D" and fin: "finitely_active s" and st: "conn_step E l s = Some t" "internal l"
  shows "work t < work s"
proof (cases l)
  case (Alloc i ok)
  with st E have "rd_pc s i = RStart" "rd_pc t = (rd_pc s)(i := RSem)" "cb_pc t = cb_pc s" "pend t = pend s"
    by (auto simp: at_reader_def honest_def reliable_def split: if_splits)
  with tally_reader [OF fin this(2)] show ?thesis by (simp add: work_def)
next
  case (Arrive c)
  with st obtain m where "cb_pc s c = CIdle" "pend s = m # pend t" "rd_pc t = rd_pc s" "cb_pc t = (cb_pc s)(c := CTry m)"
    by (auto simp: at_cb_def split: if_splits list.splits)
  with tally_callback [OF fin this(4)] show ?thesis by (simp add: work_def)
next
  case (Spont c m)
  with st E show ?thesis by (simp add: honest_def)
next
  case (Refuse i)
  with st E show ?thesis by (simp add: honest_def)
qed (use st reader_uses_work [OF E fin] callback_uses_work [OF fin] in auto)

section \<open>Completed and running reads\<close>

text \<open>The reads that a reader has completed or is about to complete.\<close>

definition in_read :: "rpc \<Rightarrow> bool" where
  "in_read p \<longleftrightarrow> p \<notin> {RIdle, WSem, WUp}"

definition due :: "conn \<Rightarrow> nat \<Rightarrow> nat" where
  "due s i = length (rd_hist s i) + of_bool (in_read (rd_pc s i))"

lemma step_keeps_due:
  assumes "conn_step E l s = Some t" "internal l"
  shows "due t i = due s i"
proof (cases l)
  case (Rd j)
  with assms show ?thesis by (cases "rd_pc s j") (auto simp: step_defs due_def in_read_def split: if_splits)
next
  case (Cb c)
  with assms show ?thesis by (cases "cb_pc s c") (auto simp: step_defs due_def in_read_def split: if_splits prod.splits)
qed (use assms in \<open>auto simp: step_defs due_def in_read_def split: if_splits list.splits\<close>)

lemma run_bounded:
  assumes E: "honest E D"
  shows "finitely_active s \<Longrightarrow> list_all internal ls \<Longrightarrow> conn_run E ls s = Some t
    \<Longrightarrow> length ls + work t \<le> work s \<and> due t i = due s i"
proof (induction ls arbitrary: s)
  case Nil
  then show ?case by simp
next
  case (Cons l ls)
  then obtain u where u: "conn_step E l s = Some u" "conn_run E ls u = Some t" "internal l" "list_all internal ls"
    by (auto simp: bind_eq_Some_conv)
  have "finitely_active u" by (rule finact.inv_step [OF Cons.prems(1) u(1)])
  from Cons.IH [OF this u(4,2)] step_uses_work [OF E Cons.prems(1) u(1,3)] step_keeps_due [OF u(1,3), of i]
  show ?case by simp
qed

section \<open>Properties\<close>

text \<open>C3. With any number of concurrent readers and writers, messages that are allocated and sent, and a user
  space that answers, every read and write returns: from any reachable state, once no new ones are started, the threads and callbacks
  take at most \<open>work s\<close> steps in whatever order, and when none can take another one, every thread is
  out of both functions and every reader has completed exactly the read it was in.\<close>

theorem reads_complete:
  assumes "honest E D" "length b = SJFS_BLOCKSIZE" "conn_reach E b s"
    "list_all internal ls" "conn_run E ls s = Some t"
  shows "length ls \<le> work s \<and>
    ((\<exists>l u. internal l \<and> conn_step E l t = Some u) \<or>
     (\<forall>i. rd_pc t i = RIdle \<and> length (rd_hist t i) = length (rd_hist s i) + of_bool (in_read (rd_pc s i))))"
proof -
  have "rd_pc t i = RIdle" if "\<not> can_step E t" for i
    using honest_can_step [OF assms(1), of t i] that assms(1,2)
      honesty.reach_inv [OF conn_run_reach [OF assms(3,5)], of D] by blast
  moreover note run_bounded [OF assms(1) finact.reach_inv [OF assms(3)] assms(4,5)]
  ultimately show ?thesis unfolding due_def can_step_def by (fastforce simp: in_read_def)
qed

theorem reads_complete_witness:
  "\<exists>s t. conn_run sample_env read_begin (conn_init sample_block) = Some s
    \<and> conn_run sample_env (read_end @ [Rd 1]) s = Some t \<and> 9 \<le> work s
    \<and> (\<exists>l u. internal l \<and> conn_step sample_env l t = Some u)"
proof -
  obtain s t where s: "conn_run sample_env read_begin (conn_init sample_block) = Some s"
      and t: "conn_run sample_env (read_end @ [Rd 1]) s = Some t" "rd_pc t 1 = RCb"
    using sample_handover by (elim exE conjE)
  have ls: "list_all internal (read_end @ [Rd 1])" by (simp add: read_end_def)
  from reads_complete [OF sample_env_honest length_sample_block conn_run_reach [OF conn_start s] ls t(1)]
  have "9 \<le> work s" "\<exists>l u. internal l \<and> conn_step sample_env l t = Some u"
    using t(2) by (auto simp: read_end_def)
  with s t(1) show ?thesis by blast
qed

end
