(* ===== verification/Connector_Refine.thy ===== *)
theory Connector_Refine
  imports Connector_Steps
begin

text \<open>
  The two models of \<open>sjfs_read_block\<close> agree: whatever user space sends and whether or not memory is
  left, a call of the function of \<open>Connector\<close> that returns is a run of the step relation of
  \<open>Connector_Steps\<close>, from the shared variables at the call to those at the return. The proof is a
  forward simulation, built along the combinators in which the function is written.
\<close>

section \<open>Forward simulation\<close>

definition conn_steps :: "cenv \<Rightarrow> conn \<Rightarrow> conn \<Rightarrow> bool" where
  "conn_steps E c c' \<longleftrightarrow> (\<exists>ls. conn_run E ls c = Some c')"

lemma conn_run_append: "conn_run E (ls @ ls') c = Option.bind (conn_run E ls c) (conn_run E ls')"
proof (induction ls arbitrary: c)
  case (Cons l ls)
  then have "conn_run E (ls @ ls') = (\<lambda>c. Option.bind (conn_run E ls c) (conn_run E ls'))" by blast
  then show ?case by simp
qed simp

lemma conn_steps_refl [simp, intro]: "conn_steps E c c"
  unfolding conn_steps_def by (rule exI [of _ "[]"]) simp

lemma conn_steps_trans: "conn_steps E c c' \<Longrightarrow> conn_steps E c' c'' \<Longrightarrow> conn_steps E c c''"
  unfolding conn_steps_def by (metis conn_run_append bind.bind_lunit)

lemma conn_stepsI: "conn_run E ls c = Some c' \<Longrightarrow> conn_steps E c c'"
  unfolding conn_steps_def by (rule exI)

lemma conn_steps_one: "conn_step E l c = Some c' \<Longrightarrow> conn_steps E c c'"
  unfolding conn_steps_def by (rule exI [of _ "[l]"]) simp

text \<open>\<open>sim E R m R'\<close>: whenever \<open>m\<close> returns, steps lead from every connection state that \<open>R\<close> relates to the
  state before to one that \<open>R'\<close> relates to the state after.\<close>

definition sim :: "cenv \<Rightarrow> (sjfs_state \<Rightarrow> conn \<Rightarrow> bool) \<Rightarrow> (sjfs_state, 'a) km
    \<Rightarrow> ('a \<Rightarrow> sjfs_state \<Rightarrow> conn \<Rightarrow> bool) \<Rightarrow> bool" where
  "sim E R m R' \<longleftrightarrow> (\<forall>s c x s'. R s c \<longrightarrow> m s = Ret (x, s') \<longrightarrow> (\<exists>c'. conn_steps E c c' \<and> R' x s' c'))"

lemma simI:
  "(\<And>s c x s'. R s c \<Longrightarrow> m s = Ret (x, s') \<Longrightarrow> \<exists>c'. conn_steps E c c' \<and> R' x s' c') \<Longrightarrow> sim E R m R'"
  unfolding sim_def by blast

lemma simD: "sim E R m R' \<Longrightarrow> R s c \<Longrightarrow> m s = Ret (x, s') \<Longrightarrow> \<exists>c'. conn_steps E c c' \<and> R' x s' c'"
  unfolding sim_def by blast

lemma sim_bind:
  assumes "sim E R m Q" "\<And>x. sim E (Q x) (f x) R2"
  shows "sim E R (bindK m f) R2"
proof (rule simI)
  fix s c y s' assume R: "R s c" and "bindK m f s = Ret (y, s')"
  then obtain x s1 where m: "m s = Ret (x, s1)" "f x s1 = Ret (y, s')" by (blast dest: bindK_eq_RetD)
  from simD [OF assms(1) R m(1)] obtain c1 where c1: "conn_steps E c c1" "Q x s1 c1" by (elim exE conjE)
  from simD [OF assms(2) c1(2) m(2)] c1(1) show "\<exists>c'. conn_steps E c c' \<and> R2 y s' c'"
    by (blast intro: conn_steps_trans)
qed

lemma sim_then: "sim E R m (\<lambda>_. Q) \<Longrightarrow> sim E Q n R2 \<Longrightarrow> sim E R (thenK m n) R2"
  unfolding thenK_def by (rule sim_bind)

text \<open>A statement that is one step of the connection, and one that is none.\<close>

lemma sim_step:
  assumes "\<And>s c x s'. R s c \<Longrightarrow> m s = Ret (x, s') \<Longrightarrow> \<exists>c'. conn_step E l c = Some c' \<and> R' x s' c'"
  shows "sim E R m R'"
  by (rule simI) (blast dest: assms intro: conn_steps_one)

lemma sim_none:
  assumes "\<And>s c x s'. R s c \<Longrightarrow> m s = Ret (x, s') \<Longrightarrow> R' x s' c"
  shows "sim E R m R'"
  by (rule simI) (blast dest: assms)

section \<open>The two states\<close>

definition shared :: "sjfs_state \<Rightarrow> cn_msg list \<Rightarrow> conn \<Rightarrow> bool" where
  "shared s ms c \<longleftrightarrow> n_cn c = cn_sem s \<and> n_cb c = cb_sem s \<and> counter c = cn_counter s
     \<and> buf c = read_block_buffer s \<and> pend c = ms \<and> cb_pc c = (\<lambda>_. CIdle)"

text \<open>What a callback leaves alone: everything about the readers.\<close>

definition readers :: "conn \<Rightarrow> (nat \<Rightarrow> rpc) \<times> (nat \<Rightarrow> uint) \<times> (nat \<Rightarrow> cn_msg) \<times> (nat \<Rightarrow> byte list)
    \<times> (nat \<Rightarrow> (uint \<times> byte list) list)" where
  "readers c = (rd_pc c, rd_addr c, rd_msg c, rd_got c, rd_hist c)"

text \<open>Reader 0 reads block \<open>a\<close> and is at \<open>p\<close>; no other reader is active.\<close>

definition reading :: "uint \<Rightarrow> rpc \<Rightarrow> conn \<Rightarrow> bool" where
  "reading a p c \<longleftrightarrow> rd_pc c = (\<lambda>_. RIdle)(0 := p) \<and> rd_addr c 0 = a \<and> rd_hist c 0 = []"

definition at :: "uint \<Rightarrow> rpc \<Rightarrow> sjfs_state \<Rightarrow> conn \<Rightarrow> bool" where
  "at a p s c \<longleftrightarrow> shared s (inbox s) c \<and> reading a p c"

lemmas at_defs = at_def shared_def reading_def

lemma readers_reading:
  "readers c' = readers c \<Longrightarrow> reading a p c' = reading a p c \<and> rd_msg c' = rd_msg c"
  by (simp add: readers_def reading_def)

section \<open>Callbacks\<close>

lemma callback_sim:
  assumes "shared s (m # ms) c" "cn_callback (kern E) m s = Ret (u, s')"
  shows "\<exists>c'. conn_steps E c c' \<and> shared s' ms c' \<and> readers c' = readers c"
proof -
  obtain r n where tl: "sem_trylock (kern E) (cb_sem s) = (r, n)" by fastforce
  show ?thesis
  proof (cases "r = 0")
    case True
    let ?c = "c\<lparr>pend := ms, n_cb := sem_up (kern E) n, cb_pc := (\<lambda>_. CIdle)\<rparr>"
    have "conn_run E [Arrive 0, Cb 0, Cb 0] c = Some ?c"
      using assms(1) tl True by (cases c) (simp add: shared_def step_defs fun_upd_idem)
    then have "conn_steps E c ?c" by (rule conn_stepsI)
    moreover have "shared s' ms ?c"
      using assms tl True by (auto simp: shared_def cn_callback_def down_trylock_cb_def up_cb_def run_simps)
    ultimately show ?thesis by (intro exI [of _ ?c]) (simp add: readers_def)
  next
    case False
    let ?n = "callback_len m"
    have ok: "?n \<le> length (msg_data m)" "?n \<le> length (buf c)"
      using assms tl False
      by (auto simp: shared_def cn_callback_def down_trylock_cb_def copy_reply_def run_simps Let_def split: if_splits)
    let ?c = "c\<lparr>pend := ms, n_cb := sem_up (kern E) n, cb_pc := (\<lambda>_. CIdle),
        buf := overwrite 0 (take ?n (msg_data m)) (buf c)\<rparr>"
    have "conn_run E [Arrive 0, Cb 0, Cb 0, Cb 0] c = Some ?c"
      using assms(1) tl False ok by (cases c) (simp add: shared_def step_defs fun_upd_idem)
    then have "conn_steps E c ?c" by (rule conn_stepsI)
    moreover have "shared s' ms ?c"
      using assms tl False ok
      by (auto simp: shared_def cn_callback_def down_trylock_cb_def up_cb_def copy_reply_def run_simps Let_def)
    ultimately show ?thesis by (intro exI [of _ ?c]) (simp add: readers_def)
  qed
qed

text \<open>While the reader sleeps on \<open>cb_sem\<close>, callbacks run until the count is positive.\<close>

lemma wait_sim:
  "shared s ms c \<Longrightarrow> down_cb_wait (kern E) ms s = Ret (u, s') \<Longrightarrow>
    \<exists>s1 n c1. conn_steps E c c1 \<and> shared s1 (inbox s') c1 \<and> readers c1 = readers c
      \<and> sem_down (kern E) (cb_sem s1) = Some n \<and> s' = s1\<lparr>cb_sem := n, inbox := inbox s'\<rparr>"
proof (induction ms arbitrary: s c)
  case Nil
  then obtain n where "sem_down (kern E) (cb_sem s) = Some n" "s' = s\<lparr>cb_sem := n, inbox := []\<rparr>"
    by (auto split: option.splits)
  with Nil(1) show ?case by (intro exI [of _ s] exI [of _ n] exI [of _ c]) simp
next
  case (Cons m ms)
  show ?case
  proof (cases "sem_down (kern E) (cb_sem s)")
    case (Some n)
    with Cons.prems show ?thesis by (intro exI [of _ s] exI [of _ n] exI [of _ c]) auto
  next
    case None
    with Cons.prems(2) obtain v s1 where
      cb: "cn_callback (kern E) m s = Ret (v, s1)" and w: "down_cb_wait (kern E) ms s1 = Ret (u, s')"
      by (auto split: outcome.splits)
    from callback_sim [OF Cons.prems(1) cb] obtain c1 where
      c1: "conn_steps E c c1" "shared s1 ms c1" "readers c1 = readers c" by (elim exE conjE)
    from Cons.IH [OF c1(2) w] c1(1,3) show ?thesis
      by (elim exE conjE) (intro exI conjI, rule conn_steps_trans, assumption+, simp_all)
  qed
qed

lemma down_cb_sim:
  assumes "p = RCb \<and> q = RSend \<or> p = RWait \<and> q = RUp"
  shows "sim E (\<lambda>s c. at a p s c \<and> rd_msg c 0 = M) (down_cb (kern E)) (\<lambda>_ s c. at a q s c \<and> rd_msg c 0 = M)"
proof (rule simI)
  fix s c u s' assume at: "at a p s c \<and> rd_msg c 0 = M" and "down_cb (kern E) s = Ret (u, s')"
  then have w: "shared s (inbox s) c" "down_cb_wait (kern E) (inbox s) s = Ret (u, s')"
    by (simp_all add: at_def down_cb_def)
  from wait_sim [OF this] obtain s1 n c1 where c1: "conn_steps E c c1" "shared s1 (inbox s') c1"
      "readers c1 = readers c" "sem_down (kern E) (cb_sem s1) = Some n" "s' = s1\<lparr>cb_sem := n, inbox := inbox s'\<rparr>"
    by (elim exE conjE)
  have rd: "reading a p c1" "rd_msg c1 0 = M"
    using readers_reading [OF c1(3), of a p] at by (auto simp: at_def)
  let ?c = "c1\<lparr>n_cb := n, rd_pc := (rd_pc c1)(0 := q)\<rparr>"
  have "conn_step E (Rd 0) c1 = Some ?c"
    using assms rd c1(2,4) by (auto simp: reading_def shared_def step_defs)
  moreover have "at a q s' ?c \<and> rd_msg ?c 0 = M"
    using rd c1(2) by (subst c1(5)) (simp add: at_defs)
  ultimately show "\<exists>c'. conn_steps E c c' \<and> (at a q s' c' \<and> rd_msg c' 0 = M)"
    using c1(1) by (blast intro: conn_steps_trans conn_steps_one)
qed

section \<open>The statements of sjfs\_read\_block\<close>

lemma heap_write_shared:
  assumes "heap_write p off bs s = Ret (u, s')"
  shows "at a q s' c = at a q s c" "cn_counter s' = cn_counter s" "read_block_buffer s' = read_block_buffer s"
    "\<exists>old. heap s' p = Some (overwrite off bs old)"
  using assms by (auto simp: heap_write_def at_defs split: option.splits if_splits)

lemma kzalloc_shared: "kzalloc K n s = Ret (m, s') \<Longrightarrow> at a q s' c = at a q s c"
  by (auto simp: kzalloc_def Let_def at_defs split: if_splits)

lemma kfree_shared: "kfree p s = Ret (u, s') \<Longrightarrow> at a q s' c = at a q s c"
  by (auto simp: kfree_def at_defs split: if_splits)

text \<open>The part that runs when the message could be allocated.\<close>

lemma request_sim:
  assumes send: "refuses E \<or> sends_ok (kern E)"
  shows "sim E (at a RStart)
    (bindK (getK cn_counter) (\<lambda>sq.
       thenK (heap_write m (sizeof_cn_msg (kern E)) (read_request a))
      (thenK (down_cn (kern E))
      (thenK (down_cb (kern E))
      (thenK (cn_netlink_send (kern E) (userland E) (read_msg (kern E) sq a))
             (kfree m))))))
    (\<lambda>_. at a RCount)"
proof (rule sim_bind [where Q = "\<lambda>sq s c. at a RStart s c \<and> cn_counter s = sq"])
  show "sim E (at a RStart) (getK cn_counter) (\<lambda>sq s c. at a RStart s c \<and> cn_counter s = sq)"
    by (rule sim_none) (simp add: run_simps)
  fix sq
  let ?M = "read_msg (kern E) sq a"
  have "sim E (\<lambda>s c. at a RStart s c \<and> cn_counter s = sq) (heap_write m (sizeof_cn_msg (kern E)) (read_request a))
      (\<lambda>_ s c. at a RSem s c \<and> rd_msg c 0 = ?M)"
  proof (rule sim_step [where l = "Alloc 0 True"])
    fix s c u s' assume "at a RStart s c \<and> cn_counter s = sq"
      and w: "heap_write m (sizeof_cn_msg (kern E)) (read_request a) s = Ret (u, s')"
    with heap_write_shared [OF w] have "at a RStart s' c" "cn_counter s' = sq" by simp_all
    then show "\<exists>c'. conn_step E (Alloc 0 True) c = Some c' \<and> (at a RSem s' c' \<and> rd_msg c' 0 = ?M)"
      by (auto simp: at_defs at_reader_def)
  qed
  moreover have "sim E (\<lambda>s c. at a RSem s c \<and> rd_msg c 0 = ?M) (down_cn (kern E))
      (\<lambda>_ s c. at a RCb s c \<and> rd_msg c 0 = ?M)"
    by (rule sim_step [where l = "Rd 0"]) (auto simp: at_defs down_cn_def step_defs split: option.splits)
  moreover have "sim E (\<lambda>s c. at a RCb s c \<and> rd_msg c 0 = ?M) (down_cb (kern E))
      (\<lambda>_ s c. at a RSend s c \<and> rd_msg c 0 = ?M)"
    by (rule down_cb_sim) simp
  moreover have "sim E (\<lambda>s c. at a RSend s c \<and> rd_msg c 0 = ?M) (cn_netlink_send (kern E) (userland E) ?M)
      (\<lambda>_. at a RCount)"
  proof (rule simI)
    fix s c x s' assume at: "at a RSend s c \<and> rd_msg c 0 = ?M"
      and sent: "cn_netlink_send (kern E) (userland E) ?M s = Ret (x, s')"
    let ?r = "kret (kern E) (calls s) (Cn_netlink_send ?M)"
    have "\<exists>l c'. conn_step E l c = Some c' \<and> at a RCount s' c'"
    proof (cases "0 \<le> ?r")
      case True
      with sent have "s' = s\<lparr>calls := calls s @ [Cn_netlink_send ?M], inbox := inbox s @ userland E ?M\<rparr>"
        by (simp add: cn_netlink_send_def run_simps)
      with at show ?thesis by (intro exI [of _ "Rd 0"]) (auto simp: at_defs step_defs)
    next
      case False
      with send have "refuses E" by (auto simp: sends_ok_def)
      moreover from False sent have "s' = s\<lparr>calls := calls s @ [Cn_netlink_send ?M]\<rparr>"
        by (simp add: cn_netlink_send_def run_simps)
      ultimately show ?thesis
        using at by (intro exI [of _ "Refuse 0"]) (auto simp: at_defs at_reader_def)
    qed
    then show "\<exists>c'. conn_steps E c c' \<and> at a RCount s' c'" by (blast intro: conn_steps_one)
  qed
  moreover have "sim E (at a RCount) (kfree m) (\<lambda>_. at a RCount)"
    by (rule sim_none) (simp add: kfree_shared)
  ultimately show "sim E (\<lambda>s c. at a RStart s c \<and> cn_counter s = sq)
     (thenK (heap_write m (sizeof_cn_msg (kern E)) (read_request a))
      (thenK (down_cn (kern E))
      (thenK (down_cb (kern E))
      (thenK (cn_netlink_send (kern E) (userland E) ?M) (kfree m))))) (\<lambda>_. at a RCount)"
    by (intro sim_then)
qed

text \<open>Without memory the reader goes on to the wait at once.\<close>

lemma no_request_sim:
  assumes "oom E"
  shows "sim E (at a RStart) (retK ()) (\<lambda>_. at a RCount)"
  using assms by (intro sim_step [where l = "Alloc 0 False"]) (auto simp: at_defs at_reader_def run_simps)

text \<open>The block has been copied to the object at \<open>p\<close>.\<close>

definition copied :: "ptr \<Rightarrow> nat \<Rightarrow> byte list \<Rightarrow> sjfs_state \<Rightarrow> bool" where
  "copied p off blk s \<longleftrightarrow> blk = take SJFS_BLOCKSIZE (read_block_buffer s)
     \<and> (\<exists>old. heap s p = Some (overwrite off blk old))"

definition returned :: "uint \<Rightarrow> ptr \<Rightarrow> nat \<Rightarrow> sjfs_state \<Rightarrow> conn \<Rightarrow> bool" where
  "returned a p off s c \<longleftrightarrow> shared s (inbox s) c \<and> rd_pc c = (\<lambda>_. RIdle)
     \<and> (\<exists>blk. rd_hist c 0 = [(a, blk)] \<and> copied p off blk s)"

lemma copy_sim:
  "sim E (at a RCopy)
    (bindK (getK read_block_buffer) (\<lambda>buf.
       thenK (heap_write p off (take SJFS_BLOCKSIZE buf)) (thenK (up_cn (kern E)) (retK 0))))
    (\<lambda>r s c. r = (0::int) \<and> returned a p off s c)"
proof (rule sim_bind [where Q = "\<lambda>b s c. at a RCopy s c \<and> read_block_buffer s = b"])
  show "sim E (at a RCopy) (getK read_block_buffer) (\<lambda>b s c. at a RCopy s c \<and> read_block_buffer s = b)"
    by (rule sim_none) (simp add: run_simps)
  fix b
  have "sim E (\<lambda>s c. at a RCopy s c \<and> read_block_buffer s = b) (heap_write p off (take SJFS_BLOCKSIZE b))
      (\<lambda>_ s c. at a RRel s c \<and> copied p off (rd_got c 0) s)"
  proof (rule sim_step [where l = "Rd 0"])
    fix s c u s' assume "at a RCopy s c \<and> read_block_buffer s = b"
      and w: "heap_write p off (take SJFS_BLOCKSIZE b) s = Ret (u, s')"
    with heap_write_shared [OF w] show "\<exists>c'. conn_step E (Rd 0) c = Some c' \<and> (at a RRel s' c' \<and> copied p off (rd_got c' 0) s')"
      by (auto simp: at_defs step_defs copied_def)
  qed
  moreover have "sim E (\<lambda>s c. at a RRel s c \<and> copied p off (rd_got c 0) s) (up_cn (kern E))
      (\<lambda>_. returned a p off)"
    by (rule sim_step [where l = "Rd 0"])
       (auto simp: at_defs step_defs returned_def copied_def up_cn_def run_simps)
  moreover have "sim E (returned a p off) (retK 0) (\<lambda>r s c. r = (0::int) \<and> returned a p off s c)"
    by (rule sim_none) (simp add: run_simps)
  ultimately show "sim E (\<lambda>s c. at a RCopy s c \<and> read_block_buffer s = b)
     (thenK (heap_write p off (take SJFS_BLOCKSIZE b)) (thenK (up_cn (kern E)) (retK 0)))
     (\<lambda>r s c. r = (0::int) \<and> returned a p off s c)"
    by (intro sim_then)
qed

lemma read_block_sim:
  assumes "refuses E \<or> sends_ok (kern E)" "oom E"
  shows "sim E (at a RStart) (sjfs_read_block (kern E) (userland E) a p off)
    (\<lambda>r s c. r = 0 \<and> returned a p off s c)"
proof -
  have "sim E (at a RStart) (kzalloc (kern E) n) (\<lambda>_. at a RStart)" for n
    by (rule sim_none) (simp add: kzalloc_shared)
  moreover have "sim E (at a RCount) (modK (\<lambda>s. s\<lparr>cn_counter := cn_counter s + 1\<rparr>)) (\<lambda>_. at a RWait)"
    by (rule sim_step [where l = "Rd 0"]) (auto simp: at_defs step_defs run_simps)
  moreover have "sim E (at a RWait) (down_cb (kern E)) (\<lambda>_. at a RUp)"
    using down_cb_sim [of RWait RUp E a] unfolding sim_def by blast
  moreover have "sim E (at a RUp) (up_cb (kern E)) (\<lambda>_. at a RCopy)"
    by (rule sim_step [where l = "Rd 0"]) (auto simp: at_defs step_defs up_cb_def run_simps)
  ultimately show ?thesis
    unfolding sjfs_read_block_def
    by (intro sim_bind [where Q = "\<lambda>_. at a RStart"] sim_then [where Q = "at a RCount"]
          sim_then [where Q = "at a RWait"] sim_then [where Q = "at a RUp"] sim_then [where Q = "at a RCopy"] copy_sim)
       (auto simp: request_sim [OF assms(1)] no_request_sim [OF assms(2)])
qed

section \<open>Properties\<close>

text \<open>The connection with the shared variables of \<open>s\<close> and no thread active.\<close>

definition conn_of :: "sjfs_state \<Rightarrow> conn" where
  "conn_of s = (conn_init (read_block_buffer s))\<lparr>n_cn := cn_sem s, n_cb := cb_sem s,
     counter := cn_counter s, pend := inbox s\<rparr>"

text \<open>C4. The function \<open>sjfs_read_block\<close> of one thread refines the step relation: for every user space, every
  state and every address, with or without memory for the message, and whether the kernel takes or
  refuses it (in an environment that allows this), a call that returns corresponds
  to a run of the connection from the shared variables before the call to those after it, in which
  one reader completes one read with the block that the caller gets.\<close>

theorem read_block_refines_steps:
  assumes "refuses E \<or> sends_ok (kern E)" "oom E" "sjfs_read_block (kern E) (userland E) a p off s = Ret (r, s')"
  shows "r = 0 \<and> (\<exists>ls c blk old. conn_run E ls (conn_of s) = Some c
    \<and> (n_cn c, n_cb c, counter c, buf c, pend c)
        = (cn_sem s', cb_sem s', cn_counter s', read_block_buffer s', inbox s')
    \<and> rd_hist c 0 = [(a, blk)] \<and> heap s' p = Some (overwrite off blk old))"
proof -
  let ?c = "at_reader ((conn_of s)\<lparr>rd_addr := (rd_addr (conn_of s))(0 := a)\<rparr>) 0 RStart"
  have call: "conn_step E (Call 0 a) (conn_of s) = Some ?c" and at: "at a RStart s ?c"
    by (simp_all add: conn_of_def conn_init_def at_reader_def at_defs)
  from simD [OF read_block_sim [OF assms(1,2)] at assms(3)] obtain c where
    c: "conn_steps E ?c c" "r = 0" "returned a p off s' c" by (elim exE conjE)
  from conn_steps_trans [OF conn_steps_one [OF call] c(1)] obtain ls where
    "conn_run E ls (conn_of s) = Some c" by (auto simp: conn_steps_def)
  with c(2,3) show ?thesis by (fastforce simp: returned_def shared_def copied_def)
qed

theorem read_block_refines_steps_witness:
  "\<exists>s' ls c blk. sjfs_read_block sample_kernel (sample_user sample_block) 42 3 0 sample_state = Ret (0, s')
    \<and> conn_run (sample_env\<lparr>oom := True\<rparr>) ls (conn_of sample_state) = Some c
    \<and> rd_hist c 0 = [(42, blk)] \<and> buf c = read_block_buffer s'"
proof -
  let ?E = "sample_env\<lparr>oom := True\<rparr>"
  have E: "kern ?E = sample_kernel" "userland ?E = sample_user sample_block" "oom ?E"
    by (simp_all add: sample_env_def)
  obtain s' where s': "sjfs_read_block (kern ?E) (userland ?E) 42 3 0 sample_state = Ret (0, s')"
    using read_block_answered [OF sample_kernel_ok(1) sample_kernel_sends
        sample_user_serves [of sample_block] sample_state_idle sample_kmalloc_ok sample_state_fields(1), of 0 42]
    unfolding E by fastforce
  have "refuses ?E \<or> sends_ok (kern ?E)" unfolding E by (simp add: sample_kernel_sends)
  from read_block_refines_steps [OF this E(3) s'] s' show ?thesis
    unfolding E by (elim conjE exE) (intro exI conjI, assumption+, simp)
qed

end
