(* ===== verification/Disk_Inodes.thy ===== *)
theory Disk_Inodes
  imports Connector
begin

text \<open>
  The data structure level of \<open>src/kernel_space_module/sjfs.c\<close>: fetching the superblock and an
  inode from the disk, and storing an inode. Pointers are heap addresses and 0 is \<open>NULL\<close>;
  \<open>sizeof(SJFS_BLOCKSIZE)\<close> is the size of an \<open>int\<close>, as in C.
\<close>

section \<open>The operations\<close>

definition sjfs_get_disk_superblock :: "kernel \<Rightarrow> (cn_msg \<Rightarrow> cn_msg list) \<Rightarrow> (sjfs_state, ptr) km" where
  "sjfs_get_disk_superblock K user =
     bindK (kmalloc K (sizeof lp64 UInt)) (\<lambda>block_zero_buffer.
     if block_zero_buffer = 0 then retK 0
     else bindK (sjfs_read_block K user 0 block_zero_buffer 0) (\<lambda>r.
       if r < 0 then retK 0
       else bindK (kmalloc K (sizeof_struct lp64 superblock_fields)) (\<lambda>disk_sb.
         bindK (heap_read block_zero_buffer 0 (sizeof_struct lp64 superblock_fields)) (\<lambda>bytes.
         thenK (heap_write disk_sb 0 bytes)
        (thenK (kfree block_zero_buffer)
               (retK disk_sb))))))"

definition inode_block :: "nat \<Rightarrow> nat" where
  "inode_block bytes_before = 2 + bytes_before div SJFS_BLOCKSIZE"

definition sjfs_get_disk_inode ::
  "kernel \<Rightarrow> (cn_msg \<Rightarrow> cn_msg list) \<Rightarrow> uint \<Rightarrow> (sjfs_state, ptr) km" where
  "sjfs_get_disk_inode K user inode_number =
     (let pos = unat inode_number * sizeof_struct lp64 inode_fields in
     bindK (kmalloc K SJFS_BLOCKSIZE) (\<lambda>block_buffer.
     if block_buffer = 0 then retK 0
     else bindK (sjfs_read_block K user (of_nat (inode_block pos)) block_buffer 0) (\<lambda>r.
       if r < 0 then retK 0
       else bindK (kmalloc K (sizeof_struct lp64 inode_fields)) (\<lambda>disk_inode.
         bindK (heap_read block_buffer pos (sizeof_struct lp64 inode_fields)) (\<lambda>bytes.
         thenK (heap_write disk_inode 0 bytes)
               (retK disk_inode))))))"

definition ctime_offset :: nat where
  "ctime_offset = (case offsetof lp64 inode_fields ''ctime'' of Some off \<Rightarrow> off | None \<Rightarrow> 0)"

text \<open>The updated \<open>struct inode\<close> is the result. The product \<open>i_ino * sizeof(inode_t)\<close> is computed
  in an \<open>unsigned long\<close> and the block number is an \<open>unsigned int\<close>.\<close>

definition sjfs_set_disk_inode ::
  "kernel \<Rightarrow> (cn_msg \<Rightarrow> cn_msg list) \<Rightarrow> kinode \<Rightarrow> (sjfs_state, kinode) km" where
  "sjfs_set_disk_inode K user inode =
     bindK (CURRENT_TIME K) (\<lambda>now.
     let inode' = inode\<lparr>i_ctime := now\<rparr>;
         block_number = of_nat (inode_block (unat (i_ino inode * of_nat (sizeof_struct lp64 inode_fields))));
         block_offset = unat (i_ino inode) mod SJFS_BLOCKSIZE
     in thenK (heap_write (i_private inode') ctime_offset (le64 (fst now)))
       (bindK (kmalloc K SJFS_BLOCKSIZE) (\<lambda>block_buffer.
        if block_buffer = 0 then retK inode'
        else bindK (sjfs_read_block K user block_number block_buffer 0) (\<lambda>r.
          if r < 0 then retK inode'
          else bindK (heap_read (i_private inode') 0 (sizeof_struct lp64 inode_fields)) (\<lambda>bytes.
            thenK (heap_write block_buffer block_offset bytes)
           (thenK (sjfs_write_block K block_number block_buffer)
                  (retK inode')))))))"

section \<open>Preservation of the heap invariant\<close>

lemma keeps_sjfs_get_disk_superblock [keeps]: "keepsK heap_wf (sjfs_get_disk_superblock K user)"
  unfolding sjfs_get_disk_superblock_def by (intro keeps)

lemma keeps_sjfs_get_disk_inode [keeps]: "keepsK heap_wf (sjfs_get_disk_inode K user ino)"
  unfolding sjfs_get_disk_inode_def Let_def by (intro keeps)

lemma keeps_sjfs_set_disk_inode [keeps]: "keepsK heap_wf (sjfs_set_disk_inode K user inode)"
  unfolding sjfs_set_disk_inode_def Let_def by (intro keeps)

section \<open>A read needs a whole block of memory\<close>

text \<open>
  \<open>small p s\<close>: the object at \<open>p\<close> is shorter than a block. Nothing on the way of a read makes it
  longer, so a read into it cannot return.
\<close>

definition small :: "ptr \<Rightarrow> sjfs_state \<Rightarrow> bool" where
  "small p s \<longleftrightarrow> length (read_block_buffer s) = SJFS_BLOCKSIZE \<and> 0 < p \<and> p < next_ptr s \<and>
     (\<exists>bs. heap s p = Some bs \<and> length bs < SJFS_BLOCKSIZE)"

lemma small_updates [simp]:
  "small p (s\<lparr>cn_sem := n\<rparr>) = small p s" "small p (s\<lparr>cb_sem := n\<rparr>) = small p s"
  "small p (s\<lparr>cn_counter := w\<rparr>) = small p s" "small p (s\<lparr>inbox := ms\<rparr>) = small p s"
  "small p (s\<lparr>klog := l\<rparr>) = small p s" "small p (s\<lparr>calls := c\<rparr>) = small p s"
  by (simp_all add: small_def)

lemma small_cn_callback [keeps]: "keepsK (small p) (cn_callback K m)"
proof -
  have "keepsK (small p) (copy_reply m)"
    by (auto simp: keepsK_def copy_reply_def Let_def small_def split: if_splits)
  moreover have "keepsK (small p) (down_trylock_cb K)"
    by (auto simp: keepsK_def down_trylock_cb_def split: prod.splits)
  moreover have "keepsK (small p) (up_cb K)" and "keepsK (small p) (printk f a)" for f a
    by (auto simp: up_cb_def printk_def intro!: keepsK_modK)
  ultimately show ?thesis
    unfolding cn_callback_def by (intro keeps)
qed

lemma small_down_cb [keeps]: "keepsK (small p) (down_cb K)"
  by (rule keepsK_down_cb) (auto intro: keeps)

lemma small_send:
  assumes "m \<noteq> p"
  shows "keepsK (small p) (heap_write m off bs)" "keepsK (small p) (kfree m)"
    "keepsK (small p) (cn_netlink_send K user msg)" "keepsK (small p) (down_cn K)"
  using assms
  by (auto simp: keepsK_def heap_write_def kfree_def small_def cn_netlink_send_def down_cn_def run_simps
      split: option.splits if_splits)

lemma small_copy_out:
  "neverK (small p) (bindK (getK read_block_buffer)
     (\<lambda>bs. thenK (heap_write p off (take SJFS_BLOCKSIZE bs)) rest))"
  by (auto simp: neverK_def small_def run_simps heap_write_def)

lemma read_block_small:
  assumes "small p s"
  shows "sjfs_read_block K user a p off s \<noteq> Ret r"
proof
  assume ret: "sjfs_read_block K user a p off s = Ret r"
  let ?rest = "thenK (modK (\<lambda>s. s\<lparr>cn_counter := cn_counter s + 1\<rparr>)) (thenK (down_cb K) (thenK (up_cb K)
    (bindK (getK read_block_buffer) (\<lambda>bs. thenK (heap_write p off (take SJFS_BLOCKSIZE bs))
      (thenK (up_cn K) (retK (0::int)))))))"
  from ret obtain m s1 where m: "kzalloc K (sizeof_cn_msg K + 5) s = Ret (m, s1)"
    and body: "thenK (if m \<noteq> 0 then bindK (getK cn_counter) (\<lambda>seq.
        thenK (heap_write m (sizeof_cn_msg K) (read_request a)) (thenK (down_cn K) (thenK (down_cb K)
          (thenK (cn_netlink_send K user (read_msg K seq a)) (kfree m)))))
      else retK ()) ?rest s1 = Ret r"
    unfolding sjfs_read_block_def by (blast dest: bindK_eq_RetD)
  have s1: "small p s1" "m \<noteq> p"
    using m assms by (auto simp: kzalloc_def Let_def small_def split: if_splits)
  have rest: "neverK (small p) ?rest"
    by (intro neverK_then_right small_copy_out keeps)
       (auto intro!: keepsK_modK simp: up_cb_def)
  have "neverK (small p) (thenK (if m \<noteq> 0 then bindK (getK cn_counter) (\<lambda>seq.
        thenK (heap_write m (sizeof_cn_msg K) (read_request a)) (thenK (down_cn K) (thenK (down_cb K)
          (thenK (cn_netlink_send K user (read_msg K seq a)) (kfree m)))))
      else retK ()) ?rest)"
    by (intro keeps small_send [OF s1(2)] neverK_then_right [OF _ rest])
  with body s1(1) show False unfolding neverK_def by blast
qed

text \<open>The buffer for block 0 has the size of an \<open>int\<close>: the superblock is never delivered.\<close>

lemma superblock_never:
  assumes "heap_wf s" "length (read_block_buffer s) = SJFS_BLOCKSIZE"
    "sjfs_get_disk_superblock K user s = Ret (p, s')"
  shows "p = 0 \<and> \<not> kmalloc_ok K (next_ptr s) 4 \<and> s' = s\<lparr>next_ptr := Suc (next_ptr s)\<rparr>"
proof (cases "kmalloc_ok K (next_ptr s) 4")
  case False
  with assms show ?thesis
    by (auto simp: sjfs_get_disk_superblock_def run_simps kmalloc_def Let_def)
next
  case True
  let ?s1 = "s\<lparr>heap := (heap s)(next_ptr s \<mapsto> map (junk K (next_ptr s)) [0..<4]), next_ptr := Suc (next_ptr s)\<rparr>"
  have "small (next_ptr s) ?s1"
    using assms by (simp add: small_def SJFS_BLOCKSIZE_def)
  then have never: "\<And>r. sjfs_read_block K user 0 (next_ptr s) 0 ?s1 \<noteq> Ret r"
    by (rule read_block_small)
  have "\<exists>r. sjfs_read_block K user 0 (next_ptr s) 0 ?s1 = Ret r"
    using assms True
    by (auto simp: sjfs_get_disk_superblock_def run_simps kmalloc_def Let_def split: outcome.splits)
  with never show ?thesis by blast
qed

section \<open>Fetching and storing an inode\<close>

text \<open>The working conditions of the device layer.\<close>

definition device_ok :: "kernel \<Rightarrow> (cn_msg \<Rightarrow> cn_msg list) \<Rightarrow> (byte list \<Rightarrow> byte list) \<Rightarrow> bool" where
  "device_ok K user D \<longleftrightarrow> counting_semaphores K \<and> sends_ok K \<and> memory_ok K \<and> serves user D"

lemma device_okD:
  assumes "device_ok K user D"
  shows "counting_semaphores K" "sends_ok K" "memory_ok K" "serves user D" "kmalloc_ok K p n"
    "length (D x) = SJFS_BLOCKSIZE"
  using assms by (simp_all add: device_ok_def memory_ok_def serves_def)

lemma conn_idle_alloc:
  "conn_idle s \<Longrightarrow> conn_idle (s\<lparr>heap := (heap s)(next_ptr s \<mapsto> bs), next_ptr := Suc (next_ptr s)\<rparr>)"
  by (auto simp: conn_idle_def heap_wf_def less_Suc_eq)

text \<open>A block read into a fresh buffer: the common beginning of both operations.\<close>

lemma fetch_block:
  assumes dev: "device_ok K user D" and idle: "conn_idle s"
  shows "\<exists>s'. bindK (kmalloc K SJFS_BLOCKSIZE) (\<lambda>b. if b = 0 then e
        else bindK (sjfs_read_block K user a b 0) (\<lambda>r. if r < 0 then e' else rest b)) s
      = rest (next_ptr s) s'
    \<and> conn_idle s' \<and> heap s' = (heap s)(next_ptr s \<mapsto> D (read_request a))
    \<and> next_ptr s' = next_ptr s + 2
    \<and> calls s' = calls s @ [Cn_netlink_send (read_msg K (cn_counter s) a)]"
proof -
  let ?s1 = "s\<lparr>heap := (heap s)(next_ptr s \<mapsto> map (junk K (next_ptr s)) [0..<SJFS_BLOCKSIZE]),
    next_ptr := Suc (next_ptr s)\<rparr>"
  let ?blk = "D (read_request a)"
  let ?s2 = "(read_done K a ?blk ?s1)\<lparr>heap := (heap ?s1)(next_ptr s \<mapsto> ?blk)\<rparr>"
  note d = device_okD [OF dev]
  have i1: "conn_idle ?s1" by (rule conn_idle_alloc [OF idle])
  have nz: "next_ptr s \<noteq> 0" using idle by (simp add: conn_idle_def)
  have len: "length ?blk = SJFS_BLOCKSIZE" by (rule d(6))
  have "sjfs_read_block K user a (next_ptr s) 0 ?s1 = Ret (0, ?s2)"
    using read_block_answered [OF d(1,2,4) i1 d(5), of "next_ptr s" _ 0 a] len
    by (simp add: overwrite_def)
  moreover have "conn_idle ?s2"
    by (rule conn_idle_read_done [OF i1 len]) simp
  ultimately show ?thesis
    using nz kmalloc_run [OF device_okD(3) [OF dev], of SJFS_BLOCKSIZE s]
    by (intro exI [of _ ?s2]) (simp add: bindK_def read_done_def Let_def)
qed

text \<open>The part of \<open>sjfs_get_disk_inode\<close> after the block has been read.\<close>

definition copy_inode :: "kernel \<Rightarrow> nat \<Rightarrow> ptr \<Rightarrow> (sjfs_state, ptr) km" where
  "copy_inode K pos block_buffer =
     bindK (kmalloc K (sizeof_struct lp64 inode_fields)) (\<lambda>disk_inode.
     bindK (heap_read block_buffer pos (sizeof_struct lp64 inode_fields)) (\<lambda>bytes.
     thenK (heap_write disk_inode 0 bytes) (retK disk_inode)))"

lemma get_disk_inode_fetch:
  assumes dev: "device_ok K user D" and idle: "conn_idle s"
  shows "\<exists>s'. sjfs_get_disk_inode K user ino s = copy_inode K (unat ino * 200) (next_ptr s) s'
    \<and> conn_idle s' \<and> next_ptr s' = next_ptr s + 2
    \<and> heap s' = (heap s)(next_ptr s \<mapsto> D (read_request (of_nat (inode_block (unat ino * 200)))))"
  using fetch_block [OF dev idle, of "retK 0" "of_nat (inode_block (unat ino * 200))" "retK 0"
      "copy_inode K (unat ino * 200)"]
  unfolding sjfs_get_disk_inode_def Let_def copy_inode_def sizeof_inode_lp64 by blast

text \<open>Inodes 0 to 4 are found in block 2.\<close>

lemma get_disk_inode_ok:
  assumes dev: "device_ok K user D" and idle: "conn_idle s" and ino: "unat ino < 5"
  shows "\<exists>s'. sjfs_get_disk_inode K user ino s = Ret (next_ptr s + 2, s') \<and> conn_idle s' \<and>
    heap s' = (heap s)(next_ptr s \<mapsto> D (read_request 2),
        next_ptr s + 2 \<mapsto> bytes_at (unat ino * 200) 200 (D (read_request 2)))"
proof -
  let ?img = "bytes_at (unat ino * 200) 200 (D (read_request 2))"
  have a: "of_nat (inode_block (unat ino * 200)) = (2 :: uint)"
    using ino by (simp add: inode_block_def SJFS_BLOCKSIZE_def)
  obtain s1 where s1: "sjfs_get_disk_inode K user ino s = copy_inode K (unat ino * 200) (next_ptr s) s1"
    "conn_idle s1" "heap s1 = (heap s)(next_ptr s \<mapsto> D (read_request 2))" "next_ptr s1 = next_ptr s + 2"
    using get_disk_inode_fetch [OF dev idle, of ino] unfolding a by blast
  let ?s2 = "s1\<lparr>heap := (heap s1)(next_ptr s1 \<mapsto> ?img), next_ptr := Suc (next_ptr s1)\<rparr>"
  have "copy_inode K (unat ino * 200) (next_ptr s) s1 = Ret (next_ptr s + 2, ?s2)"
    using ino device_okD(3,6) [OF dev]
    by (simp add: s1 copy_inode_def run_simps kmalloc_run heap_read_def heap_write_def
        layout_simps overwrite_def)
  then show ?thesis
    using s1 conn_idle_alloc [OF s1(2)] by (intro exI [of _ ?s2]) simp
qed

text \<open>From inode 5 on the copy starts beyond the last inode that lies inside the block buffer.\<close>

lemma get_disk_inode_overrun:
  assumes dev: "device_ok K user D" and idle: "conn_idle s" and ino: "5 \<le> unat ino"
  shows "sjfs_get_disk_inode K user ino s = Crash OutOfBounds"
proof -
  obtain s1 blk where s1: "sjfs_get_disk_inode K user ino s = copy_inode K (unat ino * 200) (next_ptr s) s1"
    "next_ptr s1 = next_ptr s + 2" "heap s1 (next_ptr s) = Some (D blk)"
    using get_disk_inode_fetch [OF dev idle, of ino] by auto
  then show ?thesis
    using ino device_okD(3,6) [OF dev]
    by (simp add: copy_inode_def run_simps kmalloc_run heap_read_def layout_simps)
qed

text \<open>The bytes delivered are the inode that the table in block 2 holds.\<close>

lemma inode_table_entry:
  assumes "D (read_request 2) = concat (map inode_image tbl) @ pad" "list_all wf_inode tbl"
    "i < length tbl"
  shows "inode_of (bytes_at (i * 200) 200 (D (read_request 2))) = tbl ! i"
proof -
  have "i * 200 + 200 \<le> length (concat (map inode_image tbl))"
    using inc.table_width [OF assms(2)] assms(3) by simp
  then show ?thesis
    using assms inc.table_lookup [OF assms(2,3)] by (simp add: bytes_at_append_left)
qed

lemma ctime_offset_eq [simp]: "ctime_offset = 24"
  by (simp add: ctime_offset_def offsetof_def place_inode)

text \<open>The part of \<open>sjfs_set_disk_inode\<close> after the block has been read.\<close>

definition store_inode :: "kernel \<Rightarrow> kinode \<Rightarrow> uint \<Rightarrow> nat \<Rightarrow> ptr \<Rightarrow> (sjfs_state, kinode) km" where
  "store_inode K inode block_number block_offset block_buffer =
     bindK (heap_read (i_private inode) 0 (sizeof_struct lp64 inode_fields)) (\<lambda>bytes.
     thenK (heap_write block_buffer block_offset bytes)
    (thenK (sjfs_write_block K block_number block_buffer) (retK inode)))"

definition set_inode_block :: "kinode \<Rightarrow> uint" where
  "set_inode_block inode = of_nat (inode_block (unat (i_ino inode * 200)))"

definition set_inode_offset :: "kinode \<Rightarrow> nat" where
  "set_inode_offset inode = unat (i_ino inode) mod SJFS_BLOCKSIZE"

lemma set_disk_inode_fetch:
  assumes dev: "device_ok K user D" and idle: "conn_idle s"
    and priv: "heap s (i_private inode) = Some bs" "length bs = 200"
  shows "\<exists>s'. sjfs_set_disk_inode K user inode s =
      store_inode K (inode\<lparr>i_ctime := ktime K (calls s)\<rparr>) (set_inode_block inode)
        (set_inode_offset inode) (next_ptr s) s'
    \<and> conn_idle s'
    \<and> heap s' = (heap s)(i_private inode \<mapsto> overwrite 24 (le64 (fst (ktime K (calls s)))) bs,
        next_ptr s \<mapsto> D (read_request (set_inode_block inode)))
    \<and> calls s' = calls s @ [Current_time, Cn_netlink_send (read_msg K (cn_counter s) (set_inode_block inode))]"
proof -
  let ?now = "ktime K (calls s)" and ?p = "i_private inode"
  let ?s1 = "s\<lparr>calls := calls s @ [Current_time],
    heap := (heap s)(?p \<mapsto> overwrite 24 (le64 (fst ?now)) bs)\<rparr>"
  have "heap_wf ?s1"
    using idle priv unfolding conn_idle_def heap_wf_def by auto
  then have i1: "conn_idle ?s1"
    using idle by (simp add: conn_idle_def)
  have w: "heap_write ?p 24 (le64 (fst ?now)) (s\<lparr>calls := calls s @ [Current_time]\<rparr>) = Ret ((), ?s1)"
    using priv by (simp add: heap_write_def)
  have "sjfs_set_disk_inode K user inode s =
    bindK (kmalloc K SJFS_BLOCKSIZE) (\<lambda>b. if b = 0 then retK (inode\<lparr>i_ctime := ?now\<rparr>)
      else bindK (sjfs_read_block K user (set_inode_block inode) b 0) (\<lambda>r.
        if r < 0 then retK (inode\<lparr>i_ctime := ?now\<rparr>)
        else store_inode K (inode\<lparr>i_ctime := ?now\<rparr>) (set_inode_block inode) (set_inode_offset inode) b)) ?s1"
    by (simp add: sjfs_set_disk_inode_def bindK_Ret [OF CURRENT_TIME_run] thenK_Ret [where m = "heap_write _ _ _", OF w] Let_def
        store_inode_def set_inode_block_def set_inode_offset_def sizeof_inode_lp64 cong: if_cong)
  then show ?thesis
    using fetch_block [OF dev i1, of _ "set_inode_block inode" _
        "store_inode K (inode\<lparr>i_ctime := ?now\<rparr>) (set_inode_block inode) (set_inode_offset inode)"]
    by auto
qed

text \<open>Storing an inode sets the change time of the cached copy, and the only message it sends is
  the request to read a block: nothing is written.\<close>

lemma set_disk_inode_ok:
  assumes dev: "device_ok K user D" and idle: "conn_idle s"
    and priv: "heap s (i_private inode) = Some bs" "length bs = 200"
    and off: "unat (i_ino inode) mod 1024 \<le> 824"
  shows "\<exists>s'. sjfs_set_disk_inode K user inode s = Ret (inode\<lparr>i_ctime := ktime K (calls s)\<rparr>, s')
    \<and> conn_idle s'
    \<and> heap s' (i_private inode) = Some (overwrite 24 (le64 (fst (ktime K (calls s)))) bs)
    \<and> heap s' (next_ptr s) = Some (overwrite (set_inode_offset inode)
        (overwrite 24 (le64 (fst (ktime K (calls s)))) bs) (D (read_request (set_inode_block inode))))
    \<and> live s' = insert (next_ptr s) (live s)
    \<and> calls s' = calls s @ [Current_time, Cn_netlink_send (read_msg K (cn_counter s) (set_inode_block inode))]"
proof -
  let ?now = "ktime K (calls s)" and ?p = "i_private inode"
  let ?bs = "overwrite 24 (le64 (fst ?now)) bs"
  obtain s1 where s1: "sjfs_set_disk_inode K user inode s =
      store_inode K (inode\<lparr>i_ctime := ?now\<rparr>) (set_inode_block inode) (set_inode_offset inode) (next_ptr s) s1"
    "conn_idle s1"
    "heap s1 = (heap s)(?p \<mapsto> ?bs, next_ptr s \<mapsto> D (read_request (set_inode_block inode)))"
    "calls s1 = calls s @ [Current_time, Cn_netlink_send (read_msg K (cn_counter s) (set_inode_block inode))]"
    using set_disk_inode_fetch [OF dev idle priv] by blast
  have ne: "?p \<noteq> next_ptr s"
    using idle priv(1) by (auto simp: conn_idle_def)
  let ?s2 = "s1\<lparr>heap := (heap s1)(next_ptr s \<mapsto>
      overwrite (set_inode_offset inode) ?bs (D (read_request (set_inode_block inode))))\<rparr>"
  have len: "length ?bs = 200" using priv(2) by simp
  have st: "store_inode K (inode\<lparr>i_ctime := ?now\<rparr>) (set_inode_block inode) (set_inode_offset inode)
      (next_ptr s) s1 = Ret (inode\<lparr>i_ctime := ?now\<rparr>, ?s2)"
    using ne len off s1(2) device_okD(1,6) [OF dev]
    by (simp add: store_inode_def run_simps s1(3) heap_read_def heap_write_def layout_simps
        set_inode_offset_def write_block_nop conn_idle_def bytes_at_full)
  moreover have "heap_wf ?s2"
    using s1(2) unfolding conn_idle_def heap_wf_def by (auto simp: s1(3) split: if_splits)
  moreover have "live ?s2 = insert (next_ptr s) (live s)"
    using priv(1) by (auto simp: live_def s1(3))
  ultimately show ?thesis
    using s1 ne by (intro exI [of _ ?s2]) (simp add: conn_idle_def)
qed

lemma set_disk_inode_overrun:
  assumes dev: "device_ok K user D" and idle: "conn_idle s"
    and priv: "heap s (i_private inode) = Some bs" "length bs = 200"
    and off: "824 < unat (i_ino inode) mod 1024"
  shows "sjfs_set_disk_inode K user inode s = Crash OutOfBounds"
proof -
  let ?now = "ktime K (calls s)" and ?p = "i_private inode"
  let ?bs = "overwrite 24 (le64 (fst ?now)) bs"
  obtain s1 where s1: "sjfs_set_disk_inode K user inode s =
      store_inode K (inode\<lparr>i_ctime := ?now\<rparr>) (set_inode_block inode) (set_inode_offset inode) (next_ptr s) s1"
    "heap s1 = (heap s)(?p \<mapsto> ?bs, next_ptr s \<mapsto> D (read_request (set_inode_block inode)))"
    using set_disk_inode_fetch [OF dev idle priv] by blast
  have ne: "?p \<noteq> next_ptr s"
    using idle priv(1) by (auto simp: conn_idle_def)
  have len: "length ?bs = 200" using priv(2) by simp
  show ?thesis
    using ne len off device_okD(6) [OF dev]
    by (simp add: s1 store_inode_def run_simps heap_read_def heap_write_def layout_simps
        set_inode_offset_def)
qed

section \<open>Properties\<close>

definition sample_inode_block :: "byte list" where
  "sample_inode_block = inode_image sample_disk_inode @ replicate 824 0"

lemma sample_inode_block_simps [simp]: "length sample_inode_block = SJFS_BLOCKSIZE"
  using inc.enc_width [OF wf_sample_disk_inode] by (simp add: sample_inode_block_def SJFS_BLOCKSIZE_def)

lemma sample_device [simp]: "device_ok sample_kernel (sample_user sample_inode_block) (\<lambda>_. sample_inode_block)"
  by (simp add: device_ok_def sample_user_serves)

text \<open>C9. When block 2 of the disk begins with a table of at most five inodes, \<open>sjfs_get_disk_inode\<close> returns
  a fresh object that holds the inode of the table with that number. The buffer for the block is
  left allocated.\<close>

theorem disk_inode_found:
  assumes "device_ok K user D" "conn_idle s" "D (read_request 2) = concat (map inode_image tbl) @ pad"
    "list_all wf_inode tbl" "unat ino < length tbl" "length tbl \<le> 5"
  shows "\<exists>p s' bytes. sjfs_get_disk_inode K user ino s = Ret (p, s') \<and> p \<notin> live s \<and> p \<noteq> 0
    \<and> heap s' p = Some bytes \<and> inode_of bytes = tbl ! unat ino
    \<and> live s' = live s \<union> {p, next_ptr s} \<and> conn_idle s'"
proof -
  let ?img = "bytes_at (unat ino * 200) 200 (D (read_request 2))"
  have ino: "unat ino < 5" using assms(5,6) by simp
  obtain s' where s': "sjfs_get_disk_inode K user ino s = Ret (next_ptr s + 2, s')" "conn_idle s'"
      "heap s' = (heap s)(next_ptr s \<mapsto> D (read_request 2), next_ptr s + 2 \<mapsto> ?img)"
    using get_disk_inode_ok [OF assms(1,2) ino] by blast
  have "next_ptr s + 2 \<notin> live s"
    using assms(2) unfolding live_def conn_idle_def heap_wf_def by fastforce
  moreover have "live s' = live s \<union> {next_ptr s + 2, next_ptr s}"
    unfolding live_def s'(3) by auto
  ultimately show ?thesis
    using s' inode_table_entry [of D, OF assms(3,4,5)]
    by (intro exI [of _ "next_ptr s + 2"] exI [of _ s'] exI [of _ ?img]) simp
qed

theorem disk_inode_found_witness:
  "\<exists>p s' bytes. sjfs_get_disk_inode sample_kernel (sample_user sample_inode_block) 0 sample_state = Ret (p, s')
    \<and> heap s' p = Some bytes \<and> inode_of bytes = sample_disk_inode"
proof -
  have "(\<lambda>_. sample_inode_block) (read_request 2) = concat (map inode_image [sample_disk_inode]) @ replicate 824 0"
    by (simp add: sample_inode_block_def)
  from disk_inode_found [OF sample_device sample_state_idle this, of 0] show ?thesis by auto
qed

text \<open>C22. Fetching an inode is out of bounds exactly from inode 5 on: the offset inside the block is not
  reduced modulo the block size.\<close>

theorem inode_fetch_bounds:
  assumes "device_ok K user D" "conn_idle s"
  shows "sjfs_get_disk_inode K user ino s = Crash OutOfBounds \<longleftrightarrow> 5 \<le> unat ino"
proof (cases "unat ino < 5")
  case True
  then show ?thesis using get_disk_inode_ok [OF assms True] by auto
next
  case False
  then show ?thesis using get_disk_inode_overrun [OF assms, of ino] by simp
qed

theorem inode_fetch_bounds_witness:
  "sjfs_get_disk_inode sample_kernel (sample_user sample_inode_block) 5 sample_state = Crash OutOfBounds"
  using inode_fetch_bounds [OF sample_device sample_state_idle, of 5] by simp

text \<open>C23. Storing an inode stamps the change time on the inode and on the cached copy, but the only message it
  sends is the request to read the block: the disk is never told. One more buffer stays allocated.\<close>

theorem store_inode_sends_no_write:
  assumes "device_ok K user D" "conn_idle s" "heap s (i_private inode) = Some bs" "length bs = 200"
    "unat (i_ino inode) mod 1024 \<le> 824"
  shows "\<exists>s'. sjfs_set_disk_inode K user inode s = Ret (inode\<lparr>i_ctime := ktime K (calls s)\<rparr>, s')
    \<and> heap s' (i_private inode) = Some (overwrite ctime_offset (le64 (fst (ktime K (calls s)))) bs)
    \<and> calls s' = calls s @ [Current_time, Cn_netlink_send (read_msg K (cn_counter s) (set_inode_block inode))]
    \<and> live s' = insert (next_ptr s) (live s) \<and> conn_idle s'"
  using set_disk_inode_ok [OF assms] by (elim exE conjE) (intro exI conjI, simp_all)

definition sample_private_state :: sjfs_state where
  "sample_private_state = sample_state\<lparr>heap := (heap sample_state)(2 \<mapsto> replicate 200 0)\<rparr>"

lemma sample_private_idle [simp]: "conn_idle sample_private_state"
  by (auto simp: conn_idle_def sample_private_state_def sample_state_def heap_wf_def)

theorem store_inode_sends_no_write_witness:
  "\<exists>s'. sjfs_set_disk_inode sample_kernel (sample_user sample_inode_block) (sample_inode\<lparr>i_private := 2\<rparr>)
      sample_private_state = Ret (sample_inode\<lparr>i_private := 2, i_ctime := (0, 0)\<rparr>, s')
    \<and> length (calls s') = 2"
  using store_inode_sends_no_write [OF sample_device sample_private_idle, of "sample_inode\<lparr>i_private := 2\<rparr>" "replicate 200 0"]
  by (auto simp: sample_private_state_def sample_inode_def sample_kernel_def)

text \<open>C12. Storing an inode that \<open>sjfs_get_disk_inode\<close> can find (number 2 to 4) puts it at the wrong place of the
  block: the block to be written holds the new inode from byte \<open>n\<close> on, over the inode 0 and the
  beginning of inode 1, and has the old inode \<open>n\<close> where the fetch looks for it.\<close>

theorem stored_inode_misplaced:
  assumes "device_ok K user D" "conn_idle s" "heap s (i_private inode) = Some bs" "length bs = 200"
    "D (read_request 2) = concat (map inode_image tbl) @ pad" "list_all wf_inode tbl"
    "n = unat (i_ino inode)" "2 \<le> n" "n < length tbl" "length tbl \<le> 5"
  shows "\<exists>r s' new blk. sjfs_set_disk_inode K user inode s = Ret (r, s')
    \<and> heap s' (i_private inode) = Some new \<and> heap s' (next_ptr s) = Some blk
    \<and> bytes_at n 200 blk = new \<and> take n blk = take n (D (read_request 2))
    \<and> inode_of (bytes_at (n * 200) 200 blk) = tbl ! n"
proof -
  let ?new = "overwrite 24 (le64 (fst (ktime K (calls s)))) bs" and ?old = "D (read_request 2)"
  have n: "n < 5" using assms(9,10) by simp
  have len: "length ?old = 1024" "length ?new = 200"
    using device_okD(6) [OF assms(1)] assms(4) by (simp_all add: SJFS_BLOCKSIZE_def)
  have i: "i_ino inode = of_nat n" using assms(7) by simp
  have "unat (of_nat (n * 200) :: ulong) = n * 200"
    using n by (simp add: unat_of_nat del: of_nat_mult)
  then have "unat (i_ino inode * 200) = n * 200" by (simp add: i)
  then have a: "set_inode_block inode = 2" and off: "set_inode_offset inode = n"
    using n assms(7) by (simp_all add: set_inode_block_def inode_block_def set_inode_offset_def SJFS_BLOCKSIZE_def)
  obtain s' where s': "sjfs_set_disk_inode K user inode s = Ret (inode\<lparr>i_ctime := ktime K (calls s)\<rparr>, s')"
      "heap s' (i_private inode) = Some ?new" "heap s' (next_ptr s) = Some (overwrite n ?new ?old)"
    using set_disk_inode_ok [OF assms(1-4)] n assms(7) unfolding a off by auto
  have "bytes_at (n * 200) 200 (overwrite n ?new ?old) = bytes_at (n * 200) 200 ?old"
    using assms(8) n len by (intro bytes_at_overwrite_disjoint) simp_all
  then have "inode_of (bytes_at (n * 200) 200 (overwrite n ?new ?old)) = tbl ! n"
    using inode_table_entry [of D, OF assms(5,6,9)] by simp
  moreover have "bytes_at n 200 (overwrite n ?new ?old) = ?new" "take n (overwrite n ?new ?old) = take n ?old"
    using n len by (simp_all add: bytes_at_def overwrite_def)
  ultimately show ?thesis using s' by blast
qed

definition sample_table_block :: "byte list" where
  "sample_table_block = concat (map inode_image (replicate 4 sample_disk_inode)) @ replicate 224 0"

theorem stored_inode_misplaced_witness:
  "\<exists>r s' blk. sjfs_set_disk_inode sample_kernel (sample_user sample_table_block) (sample_inode\<lparr>i_private := 2\<rparr>)
      sample_private_state = Ret (r, s')
    \<and> heap s' 4 = Some blk \<and> inode_of (bytes_at 600 200 blk) = sample_disk_inode"
proof -
  let ?tbl = "replicate 4 sample_disk_inode" and ?i = "sample_inode\<lparr>i_private := 2\<rparr>"
  have wf: "list_all wf_inode ?tbl" using wf_sample_disk_inode by (simp add: list_all_iff)
  have "length sample_table_block = SJFS_BLOCKSIZE"
    using inc.table_width [OF wf] by (simp add: sample_table_block_def SJFS_BLOCKSIZE_def)
  then have dev: "device_ok sample_kernel (sample_user sample_table_block) (\<lambda>_. sample_table_block)"
    by (simp add: device_ok_def sample_user_serves)
  have p: "heap sample_private_state (i_private ?i) = Some (replicate 200 0)" "next_ptr sample_private_state = 4"
    "3 = unat (i_ino ?i)"
    by (simp_all add: sample_private_state_def sample_inode_def)
  from stored_inode_misplaced [OF dev sample_private_idle p(1) _ sample_table_block_def wf p(3)] p(2)
  show ?thesis by auto
qed

end
