(* ===== verification/Inode_Bitmap.thy ===== *)
theory Inode_Bitmap
  imports Kernel_Api
begin

text \<open>
  The inode bitmap that \<open>src/kernel_space_module/sjfs.c\<close> caches. The source addresses a bit in two
  ways: the scan for a free inode in \<open>sjfs_iops_create\<close> gives bit \<open>j\<close> of byte \<open>i\<close> the number
  \<open>8 * i + j\<close>, while setting and clearing an inode's bit use byte \<open>ino - ino % 8\<close>. The locale
  \<open>bit_table\<close> states what a way of addressing bits has to promise; it is interpreted on \<open>inode_byte\<close> and
  \<open>inode_bit\<close>. \<open>set_bit_at\<close>, \<open>clear_bit_at\<close> and \<open>marked_used\<close> are the specification of the operations of
  \<open>Inode_Ops\<close> on the bitmap, not code.
\<close>

section \<open>Bits of a byte array\<close>

definition bit_mask :: "nat \<Rightarrow> byte" where
  "bit_mask j = push_bit j 1"

definition set_bit_at :: "nat \<Rightarrow> nat \<Rightarrow> byte list \<Rightarrow> byte list" where
  "set_bit_at i j bm = bm[i := bm ! i OR bit_mask j]"

definition clear_bit_at :: "nat \<Rightarrow> nat \<Rightarrow> byte list \<Rightarrow> byte list" where
  "clear_bit_at i j bm = bm[i := bm ! i AND NOT (bit_mask j)]"

definition test_bit_at :: "nat \<Rightarrow> nat \<Rightarrow> byte list \<Rightarrow> bool" where
  "test_bit_at i j bm \<longleftrightarrow> bit (bm ! i) j"

lemma bit_bit_mask: "bit (bit_mask j) k \<longleftrightarrow> j = k \<and> k < 8"
  by (auto simp: bit_mask_def bit_simps)

lemma length_set_clear [simp]:
  "length (set_bit_at i j bm) = length bm" "length (clear_bit_at i j bm) = length bm"
  by (simp_all add: set_bit_at_def clear_bit_at_def)

lemma test_set_bit_at:
  "i < length bm \<Longrightarrow> j < 8 \<Longrightarrow>
     test_bit_at i' j' (set_bit_at i j bm) \<longleftrightarrow> i = i' \<and> j = j' \<or> test_bit_at i' j' bm"
  by (cases "i = i'") (auto simp: test_bit_at_def set_bit_at_def bit_simps bit_bit_mask)

lemma bit_byte_less: "bit (b :: byte) j \<Longrightarrow> j < 8"
  using bit_imp_le_length [of b j] by simp

lemma test_clear_bit_at:
  "i < length bm \<Longrightarrow> j < 8 \<Longrightarrow>
     test_bit_at i' j' (clear_bit_at i j bm) \<longleftrightarrow> \<not> (i = i' \<and> j = j') \<and> test_bit_at i' j' bm"
  by (cases "i = i'") (auto simp: test_bit_at_def clear_bit_at_def bit_simps bit_bit_mask dest: bit_byte_less)

lemma clear_set_bit_at:
  assumes "i < length bm" "\<not> test_bit_at i j bm"
  shows "clear_bit_at i j (set_bit_at i j bm) = bm"
proof -
  have "(bm ! i OR bit_mask j) AND NOT (bit_mask j) = bm ! i"
    using assms(2) by (intro bit_eqI) (auto simp: bit_simps bit_bit_mask test_bit_at_def)
  then show ?thesis
    using assms(1) by (simp add: clear_bit_at_def set_bit_at_def)
qed

section \<open>Where the code looks for the bit of an inode\<close>

text \<open>\<open>inode_byte\<close> is an \<open>int\<close>; \<open>i_ino - inode_bit\<close> is computed as \<open>unsigned long\<close>.\<close>

definition inode_bit :: "ulong \<Rightarrow> nat" where
  "inode_bit ino = unat ino mod 8"

definition inode_byte :: "ulong \<Rightarrow> int" where
  "inode_byte ino = sint (ucast (ino - of_nat (inode_bit ino)) :: uint)"

lemma int_of_small: "k < 2 ^ 31 \<Longrightarrow> sint (ucast (of_nat k :: ulong) :: uint) = int k"
  by (simp add: unsigned_of_nat take_bit_nat_eq_self signed_of_nat signed_take_bit_int_eq_self)

lemma inode_byte_small:
  assumes "unat ino < 2 ^ 31"
  shows "inode_byte ino = int (unat ino - unat ino mod 8)"
proof -
  have "ino - of_nat (inode_bit ino) = of_nat (unat ino - unat ino mod 8)"
    by (simp add: inode_bit_def of_nat_diff)
  moreover have "unat ino - unat ino mod 8 < 2 ^ 31" using assms by simp
  ultimately show ?thesis
    by (simp only: inode_byte_def int_of_small)
qed

lemma inode_byte_of_nat: "n < 1024 \<Longrightarrow> nat (inode_byte (of_nat n)) = n - n mod 8"
  by (simp add: inode_byte_small unat_of_nat)

lemma inode_bit_of_nat: "n < 1024 \<Longrightarrow> inode_bit (of_nat n) = n mod 8"
  by (simp add: inode_bit_def unat_of_nat)

section \<open>Numbered bits\<close>

text \<open>The numbers below \<open>limit\<close> whose bit is set.\<close>

definition table_used :: "(nat \<Rightarrow> nat) \<Rightarrow> (nat \<Rightarrow> nat) \<Rightarrow> nat \<Rightarrow> byte list \<Rightarrow> nat set" where
  "table_used byte_of bit_of limit bm = {n. n < limit \<and> test_bit_at (byte_of n) (bit_of n) bm}"

text \<open>The inodes whose bit is set where \<open>inode_byte\<close> and \<open>inode_bit\<close> look for it.\<close>

definition marked_used :: "byte list \<Rightarrow> nat set" where
  "marked_used = table_used (\<lambda>n. nat (inode_byte (of_nat n))) (\<lambda>n. inode_bit (of_nat n)) 1024"

locale bit_table =
  fixes byte_of :: "nat \<Rightarrow> nat" and bit_of :: "nat \<Rightarrow> nat" and limit :: nat and bytes :: nat
  assumes byte_of_less: "n < limit \<Longrightarrow> byte_of n < bytes"
    and bit_of_less: "n < limit \<Longrightarrow> bit_of n < 8"
    and position_inj: "m < limit \<Longrightarrow> n < limit \<Longrightarrow> byte_of m = byte_of n \<Longrightarrow> bit_of m = bit_of n \<Longrightarrow> m = n"
begin

lemma used_set:
  assumes "length bm = bytes" "n < limit"
  shows "table_used byte_of bit_of limit (set_bit_at (byte_of n) (bit_of n) bm) =
    insert n (table_used byte_of bit_of limit bm)"
  using assms byte_of_less bit_of_less position_inj by (auto simp: table_used_def test_set_bit_at)

lemma used_clear:
  assumes "length bm = bytes" "n < limit"
  shows "table_used byte_of bit_of limit (clear_bit_at (byte_of n) (bit_of n) bm) =
    table_used byte_of bit_of limit bm - {n}"
  using assms byte_of_less bit_of_less position_inj by (auto simp: table_used_def test_clear_bit_at)

lemma set_then_clear:
  assumes "length bm = bytes" "n < limit" "n \<notin> table_used byte_of bit_of limit bm"
  shows "clear_bit_at (byte_of n) (bit_of n) (set_bit_at (byte_of n) (bit_of n) bm) = bm"
  using assms byte_of_less by (intro clear_set_bit_at) (auto simp: table_used_def)

end

text \<open>The addresses of the code keep this contract for the first 1024 inodes.\<close>

interpretation upd: bit_table "\<lambda>n. nat (inode_byte (of_nat n))" "\<lambda>n. inode_bit (of_nat n)" 1024 1024
proof unfold_locales
  fix m n :: nat
  assume "m < 1024" "n < 1024" "nat (inode_byte (of_nat m)) = nat (inode_byte (of_nat n))"
    "inode_bit (of_nat m) = inode_bit (of_nat n)"
  then show "m = n"
    by (simp add: inode_byte_of_nat inode_bit_of_nat)
qed (simp_all add: inode_byte_of_nat inode_bit_of_nat)

section \<open>The scan for a free inode\<close>

text \<open>The inner loop: the first clear bit of a byte.\<close>

definition scan_bits :: "byte \<Rightarrow> nat option" where
  "scan_bits b = find (\<lambda>j. drop_bit j b AND 1 = 0) [0..<8]"

text \<open>One round of the outer loop: the number of the first free inode of byte \<open>i\<close>, if there is one.\<close>

definition scan_byte :: "nat \<Rightarrow> byte \<Rightarrow> nat \<Rightarrow> nat" where
  "scan_byte i b inode_number = (case scan_bits b of Some j \<Rightarrow> 8 * i + j | None \<Rightarrow> inode_number)"

text \<open>
  The outer loop of \<open>sjfs_iops_create\<close>,
  \<^verbatim>\<open>for(i = 0; i < sizeof(SJFS_BLOCKSIZE) || inode_number > 0; i++)\<close>, over the bitmap \<open>bm\<close>.
  A read past the bitmap is undefined behaviour.
\<close>

function scan_inodes :: "byte list \<Rightarrow> nat \<Rightarrow> nat \<Rightarrow> fault + nat" where
  "scan_inodes bm i inode_number =
     (if i < 4 \<or> inode_number > 0
      then if i < length bm
           then scan_inodes bm (Suc i) (scan_byte i (bm ! i) inode_number)
           else Inl OutOfBounds
      else Inr inode_number)"
  by pat_completeness auto
termination
  by (relation "measure (\<lambda>(bm, i, n). length bm - i)") auto

declare scan_inodes.simps [simp del]

lemma scan_inodes_zero: "scan_inodes bm i n = Inr k \<Longrightarrow> k = 0"
proof (induction bm i n rule: scan_inodes.induct)
  case (1 bm i n)
  show ?case
  proof (cases "i < 4 \<or> n > 0")
    case True
    with 1 show ?thesis
      by (cases "i < length bm") (simp_all add: scan_inodes.simps [of bm i n])
  next
    case False
    with 1 show ?thesis by (simp add: scan_inodes.simps [of bm i n])
  qed
qed

text \<open>Once a free inode other than 0 has been seen, the loop walks off the end of the bitmap.\<close>

lemma scan_inodes_runs_off: "0 < n \<Longrightarrow> 0 < i \<Longrightarrow> scan_inodes bm i n = Inl OutOfBounds"
proof (induction bm i n rule: scan_inodes.induct)
  case (1 bm i n)
  show ?case
  proof (cases "i < length bm")
    case True
    have "0 < scan_byte i (bm ! i) n"
      using 1 by (simp add: scan_byte_def split: option.splits)
    with 1 True show ?thesis by (simp add: scan_inodes.simps [of bm i n])
  next
    case False
    with 1 show ?thesis by (simp add: scan_inodes.simps [of bm i n])
  qed
qed

text \<open>It ends regularly only when bytes 1 to 3 are full and byte 0 is full or has bit 0 free.\<close>

definition first_word_full :: "byte list \<Rightarrow> bool" where
  "first_word_full bm \<longleftrightarrow> scan_bits (bm ! 0) \<in> {None, Some 0} \<and>
     scan_bits (bm ! 1) = None \<and> scan_bits (bm ! 2) = None \<and> scan_bits (bm ! 3) = None"

lemma scan_inodes_from:
  assumes "i < 4" "4 \<le> length bm" "0 < i"
  shows "scan_inodes bm i 0 = (if scan_bits (bm ! i) = None then scan_inodes bm (Suc i) 0 else Inl OutOfBounds)"
  using assms scan_inodes_runs_off
  by (simp add: scan_inodes.simps [of bm i 0] scan_byte_def split: option.splits)

lemma scan_inodes_eq:
  assumes "4 \<le> length bm"
  shows "scan_inodes bm 0 0 = (if first_word_full bm then Inr 0 else Inl OutOfBounds)"
proof -
  have "scan_inodes bm 4 0 = Inr 0" by (simp add: scan_inodes.simps)
  then have rest: "scan_inodes bm 1 0 =
      (if scan_bits (bm ! 1) = None \<and> scan_bits (bm ! 2) = None \<and> scan_bits (bm ! 3) = None
       then Inr 0 else Inl OutOfBounds)"
    using assms scan_inodes_from [of 1 bm] scan_inodes_from [of 2 bm] scan_inodes_from [of 3 bm]
    by (simp add: eval_nat_numeral)
  have first: "scan_inodes bm 0 0 =
      scan_inodes bm 1 (case scan_bits (bm ! 0) of Some j \<Rightarrow> j | None \<Rightarrow> 0)"
  proof -
    have "bm \<noteq> []" using assms by auto
    then show ?thesis by (simp add: scan_inodes.simps [of bm 0 0] scan_byte_def split: option.splits)
  qed
  show ?thesis
  proof (cases "scan_bits (bm ! 0)")
    case None
    then show ?thesis using first rest by (simp add: first_word_full_def)
  next
    case (Some j)
    then show ?thesis
      using first rest scan_inodes_runs_off [of j 1 bm] by (cases "j = 0") (auto simp: first_word_full_def)
  qed
qed

text \<open>The first clear bit of a byte stays the first one when another byte changes, and is passed over when
  it is set.\<close>

lemma scan_bits_Some: "scan_bits b = Some j \<Longrightarrow> j < 8 \<and> \<not> bit b j"
  by (auto simp: scan_bits_def find_Some_iff and_one_eq even_drop_bit_iff_not_bit)

end
