(* ===== verification/File_Ops.thy ===== *)
theory File_Ops
  imports Connector
begin

text \<open>
  The handlers of \<open>src/kernel_space_module/sjfs.c\<close> that only write a line to the log and return 0,
  and the two operation tables that install them. A table names, for every slot that the source
  fills, the handler in it. \<open>fops_stub\<close> and \<open>dispatch_fop\<close> run a handler by its name, the way the
  VFS does through \<open>f_op\<close>.
\<close>

section \<open>Operation tables\<close>

record file_operations =
  fop_llseek :: "string option"
  fop_read :: "string option"
  fop_write :: "string option"
  fop_iterate :: "string option"
  fop_poll :: "string option"
  fop_open :: "string option"
  fop_flush :: "string option"
  fop_release :: "string option"
  fop_lock :: "string option"
  fop_check_flags :: "string option"
  fop_flock :: "string option"
  fop_setlease :: "string option"
  fop_fallocate :: "string option"
  fop_show_fdinfo :: "string option"

record inode_operations =
  iop_lookup :: "string option"
  iop_permission :: "string option"
  iop_create :: "string option"
  iop_unlink :: "string option"
  iop_rename :: "string option"
  iop_setattr :: "string option"
  iop_getattr :: "string option"
  iop_update_time :: "string option"

definition sjfs_file_fops :: file_operations where
  "sjfs_file_fops =
    \<lparr>fop_llseek = Some ''sjfs_fops_llseek'', fop_read = Some ''sjfs_fops_read'',
     fop_write = Some ''sjfs_fops_write'', fop_iterate = None, fop_poll = Some ''sjfs_fops_poll'',
     fop_open = Some ''sjfs_fops_open'', fop_flush = None, fop_release = Some ''sjfs_fops_release'',
     fop_lock = Some ''sjfs_fops_lock'', fop_check_flags = Some ''sjfs_fops_check_flags'',
     fop_flock = Some ''sjfs_fops_flock'', fop_setlease = Some ''sjfs_fops_setlease'',
     fop_fallocate = Some ''sjfs_fops_fallocate'', fop_show_fdinfo = Some ''sjfs_fops_show_fdinfo''\<rparr>"

definition sjfs_file_iops :: inode_operations where
  "sjfs_file_iops =
    \<lparr>iop_lookup = None, iop_permission = Some ''sjfs_iops_permission'', iop_create = None,
     iop_unlink = None, iop_rename = None, iop_setattr = Some ''sjfs_iops_setattr'',
     iop_getattr = Some ''sjfs_iops_getattr'', iop_update_time = Some ''sjfs_iops_update_time''\<rparr>"

definition sjfs_root_dir_fops :: file_operations where
  "sjfs_root_dir_fops =
    \<lparr>fop_llseek = Some ''sjfs_fops_llseek'', fop_read = Some ''sjfs_fops_read'',
     fop_write = Some ''sjfs_fops_write'', fop_iterate = Some ''sjfs_fops_iterate'',
     fop_poll = Some ''sjfs_fops_poll'', fop_open = Some ''sjfs_fops_open'',
     fop_flush = Some ''sjfs_fops_flush'', fop_release = Some ''sjfs_fops_release'',
     fop_lock = Some ''sjfs_fops_lock'', fop_check_flags = Some ''sjfs_fops_check_flags'',
     fop_flock = Some ''sjfs_fops_flock'', fop_setlease = Some ''sjfs_fops_setlease'',
     fop_fallocate = Some ''sjfs_fops_fallocate'', fop_show_fdinfo = Some ''sjfs_fops_show_fdinfo''\<rparr>"

definition sjfs_root_dir_iops :: inode_operations where
  "sjfs_root_dir_iops =
    \<lparr>iop_lookup = Some ''sjfs_iops_lookup'', iop_permission = Some ''sjfs_iops_permission'',
     iop_create = Some ''sjfs_iops_create'', iop_unlink = Some ''sjfs_iops_unlink'',
     iop_rename = Some ''sjfs_iops_rename'', iop_setattr = Some ''sjfs_iops_setattr'',
     iop_getattr = Some ''sjfs_iops_getattr'', iop_update_time = Some ''sjfs_iops_update_time''\<rparr>"

section \<open>The file operations\<close>

text \<open>Every handler logs its own name and returns 0; the arguments are not looked at.\<close>

definition log_and_zero :: "string \<Rightarrow> (sjfs_state, int) km" where
  "log_and_zero name = thenK (printk (name @ ''\<newline>'') []) (retK 0)"

definition sjfs_fops_llseek :: "(sjfs_state, int) km" where
  "sjfs_fops_llseek = log_and_zero ''sjfs_fops_llseek''"
definition sjfs_fops_read :: "nat \<Rightarrow> int \<Rightarrow> (sjfs_state, int) km" where
  "sjfs_fops_read count ppos = log_and_zero ''sjfs_fops_read''"
definition sjfs_fops_write :: "byte list \<Rightarrow> nat \<Rightarrow> int \<Rightarrow> (sjfs_state, int) km" where
  "sjfs_fops_write from count ppos = log_and_zero ''sjfs_fops_write''"

text \<open>The handlers of lines 163 to 187, by name. \<open>sjfs_fops_show_fdinfo\<close> is \<open>void\<close>.\<close>

definition fops_stubs :: "string list" where
  "fops_stubs = [''sjfs_fops_read_iter'', ''sjfs_fops_write_iter'', ''sjfs_fops_iterate'',
     ''sjfs_fops_poll'', ''sjfs_fops_unlocked_ioctl'', ''sjfs_fops_compat_ioctl'', ''sjfs_fops_mmap'',
     ''sjfs_fops_mremap'', ''sjfs_fops_open'', ''sjfs_fops_flush'', ''sjfs_fops_release'',
     ''sjfs_fops_fsync'', ''sjfs_fops_aio_fsync'', ''sjfs_fops_fasync'', ''sjfs_fops_lock'',
     ''sjfs_fops_sendpage'', ''sjfs_fops_get_unmapped_area'', ''sjfs_fops_check_flags'',
     ''sjfs_fops_flock'', ''sjfs_fops_splice_write'', ''sjfs_fops_splice_read'',
     ''sjfs_fops_setlease'', ''sjfs_fops_fallocate'', ''sjfs_fops_show_fdinfo'',
     ''sjfs_fops_mmap_capabilities'']"

definition dispatch_fop :: "string \<Rightarrow> (sjfs_state, int) km" where
  "dispatch_fop name = (if name = ''sjfs_fops_llseek'' then sjfs_fops_llseek
     else if name = ''sjfs_fops_read'' then sjfs_fops_read 0 0
     else if name = ''sjfs_fops_write'' then sjfs_fops_write [] 0 0
     else if name \<in> set fops_stubs then log_and_zero name else crashK BadPointer)"

definition slots :: "file_operations \<Rightarrow> string option list" where
  "slots t = [fop_llseek t, fop_read t, fop_write t, fop_iterate t, fop_poll t, fop_open t,
     fop_flush t, fop_release t, fop_lock t, fop_check_flags t, fop_flock t, fop_setlease t,
     fop_fallocate t, fop_show_fdinfo t]"

text \<open>Every slot of both tables names a handler of the module, and running it logs and returns 0.\<close>

lemma dispatch_slots:
  assumes "t \<in> {sjfs_file_fops, sjfs_root_dir_fops}" "Some name \<in> set (slots t)"
  shows "dispatch_fop name s = Ret (0, s\<lparr>klog := klog s @ [(name @ ''\<newline>'', [])]\<rparr>)"
proof -
  have "name \<in> set (''sjfs_fops_llseek'' # ''sjfs_fops_read'' # ''sjfs_fops_write'' # fops_stubs)"
    using assms by (auto simp: sjfs_file_fops_def sjfs_root_dir_fops_def slots_def fops_stubs_def)
  then show ?thesis
    by (auto simp: dispatch_fop_def log_and_zero_def sjfs_fops_llseek_def sjfs_fops_read_def
        sjfs_fops_write_def run_simps)
qed

end
