(* ===== verification/Inode_Ops.thy ===== *)
theory Inode_Ops
  imports Disk_Inodes Inode_Bitmap File_Ops
begin

text \<open>
  The inode operations of \<open>src/kernel_space_module/sjfs.c\<close>: creating and unlinking a file in the
  root directory, and the operations that only log and forward to the kernel's library.

  \<open>SJFS_INODE_SIZE\<close>, which \<open>sjfs_iops_create\<close> passes to \<open>kzalloc\<close>, is not defined in the sources
  (\<open>blocks.h\<close> defines \<open>SJFS_INODESIZE\<close>), so it is a parameter.
\<close>

section \<open>Operations that log and forward\<close>

definition sjfs_iops_update_time :: "kinode \<Rightarrow> timespec \<Rightarrow> uint \<Rightarrow> (sjfs_state, int) km" where
  "sjfs_iops_update_time inode time flags = thenK (printk ''sjfs_iops_update_time\<newline>'' []) (retK 0)"

definition sjfs_iops_lookup :: "kernel \<Rightarrow> kinode \<Rightarrow> dentry \<Rightarrow> uint \<Rightarrow> (sjfs_state, int) km" where
  "sjfs_iops_lookup K dir dentry flags =
     thenK (printk ''sjfs_iops_lookup\<newline>'' []) (kcall K (Simple_lookup dir dentry flags))"

definition sjfs_iops_rename ::
  "kinode \<Rightarrow> dentry \<Rightarrow> kinode \<Rightarrow> dentry \<Rightarrow> (sjfs_state, int) km" where
  "sjfs_iops_rename old_dir old_dentry new_dir new_dentry =
     thenK (printk ''sjfs_iops_rename\<newline>'' []) (retK 0)"

definition sjfs_iops_permission :: "kernel \<Rightarrow> kinode \<Rightarrow> int \<Rightarrow> (sjfs_state, int) km" where
  "sjfs_iops_permission K inode msk =
     thenK (printk ''sjfs_iops_permission -> generic_permission(i=%lu, m=%#010x)\<newline>''
        [PNum (uint (i_ino inode)), PNum msk])
       (kcall K (Generic_permission inode msk))"

definition sjfs_iops_setattr :: "kernel \<Rightarrow> dentry \<Rightarrow> (sjfs_state, int) km" where
  "sjfs_iops_setattr K dentry =
     thenK (printk ''sjfs_iops_setattr -> simple_setattr (for testing only)\<newline>'' [])
       (kcall K (Simple_setattr dentry))"

definition sjfs_iops_getattr :: "kernel \<Rightarrow> dentry \<Rightarrow> (sjfs_state, int) km" where
  "sjfs_iops_getattr K dentry =
     thenK (printk ''sjfs_iops_getattr -> simple_getattr\<newline>'' []) (kcall K (Simple_getattr dentry))"

text \<open>\<open>dir->i_op->update_time\<close>, when the table of \<open>dir\<close> has one.\<close>

definition iops_table :: "string \<Rightarrow> inode_operations option" where
  "iops_table name = (if name = ''sjfs_file_iops'' then Some sjfs_file_iops
     else if name = ''sjfs_root_dir_iops'' then Some sjfs_root_dir_iops else None)"

definition has_update_time :: "kinode \<Rightarrow> bool" where
  "has_update_time dir = (case iops_table (i_op dir) of None \<Rightarrow> False
     | Some t \<Rightarrow> iop_update_time t \<noteq> None)"

definition touch_dir :: "kernel \<Rightarrow> kinode \<Rightarrow> uint \<Rightarrow> (sjfs_state, unit) km" where
  "touch_dir K dir flags = (if has_update_time dir
     then bindK (CURRENT_TIME K) (\<lambda>time. thenK (sjfs_iops_update_time dir time flags) (retK ()))
     else retK ())"

section \<open>The cached bitmap\<close>

definition update_bitmap :: "(byte \<Rightarrow> byte \<Rightarrow> byte) \<Rightarrow> ulong \<Rightarrow> (sjfs_state, unit) km" where
  "update_bitmap f ino = bindK (getK inodes_bitmaps_cache) (\<lambda>bm.
     if inode_byte ino < 0 then crashK OutOfBounds
     else bindK (heap_read bm (nat (inode_byte ino)) 1) (\<lambda>b.
       heap_write bm (nat (inode_byte ino)) [f (hd b) (bit_mask (inode_bit ino))]))"

text \<open>The statements of \<open>sjfs_iops_create\<close> and of \<open>sjfs_iops_unlink\<close> on the bit of an inode.\<close>

definition mark_inode :: "ulong \<Rightarrow> (sjfs_state, unit) km" where
  "mark_inode = update_bitmap (\<lambda>b m. b OR m)"

definition clear_inode :: "ulong \<Rightarrow> (sjfs_state, unit) km" where
  "clear_inode = update_bitmap (\<lambda>b m. b AND NOT m)"

definition whole_bitmap :: "(sjfs_state, byte list) km" where
  "whole_bitmap = (\<lambda>s. case heap s (inodes_bitmaps_cache s) of
     None \<Rightarrow> Crash BadPointer | Some bm \<Rightarrow> Ret (bm, s))"

section \<open>create and unlink\<close>

definition sjfs_iops_create ::
  "kernel \<Rightarrow> (cn_msg \<Rightarrow> cn_msg list) \<Rightarrow> nat \<Rightarrow> kinode \<Rightarrow> dentry \<Rightarrow> umode_t \<Rightarrow> bool
    \<Rightarrow> (sjfs_state, int) km" where
  "sjfs_iops_create K user SJFS_INODE_SIZE dir dentry mode excl =
     bindK (new_inode K) (\<lambda>new.
     thenK (printk ''sjfs_iops_create\<newline>'' [])
     (case new of
        None \<Rightarrow> retK (- ENOSPC)
      | Some inode0 \<Rightarrow>
          bindK whole_bitmap (\<lambda>bm.
          case scan_inodes bm 0 0 of
            Inl e \<Rightarrow> crashK e
          | Inr inode_number \<Rightarrow>
              if inode_number = 0 then retK (- ENOSPC)
              else
                let inode1 = inode_init_owner K (inode0\<lparr>i_ino := of_nat inode_number\<rparr>) (Some dir) S_IFREG in
                bindK (CURRENT_TIME K) (\<lambda>now.
                bindK (kzalloc K SJFS_INODE_SIZE) (\<lambda>priv.
                bindK (sjfs_set_disk_inode K user
                  (inode1\<lparr>i_atime := now, i_mtime := now, i_ctime := now, i_private := priv\<rparr>)) (\<lambda>inode2.
                thenK (mark_inode (i_ino inode2))
               (bindK (getK inodes_bitmaps_cache) (\<lambda>bmp.
                thenK (sjfs_write_block K 1 bmp)
               (let inode3 = inode2\<lparr>i_op := ''sjfs_file_iops'', i_fop := ''sjfs_file_fops''\<rparr> in
                thenK (kcall K (D_instantiate dentry inode3))
               (thenK (kcall K (Dget dentry))
               (thenK (touch_dir K dir (S_CTIME K OR S_MTIME K))
                      (retK 0))))))))))))"

definition sjfs_iops_unlink :: "kernel \<Rightarrow> kinode \<Rightarrow> dentry \<Rightarrow> (sjfs_state, int) km" where
  "sjfs_iops_unlink K dir dentry =
     thenK (printk ''sjfs_iops_unlink\<newline>'' [])
     (case d_inode dentry of
        None \<Rightarrow> crashK BadPointer
      | Some inode \<Rightarrow>
          thenK (clear_inode (i_ino inode))
         (bindK (getK inodes_bitmaps_cache) (\<lambda>bmp.
          thenK (sjfs_write_block K 1 bmp)
         (thenK (touch_dir K dir (S_CTIME K OR S_ATIME K))
         (thenK (kfree (i_private inode))
                (kcall K (Simple_unlink dir dentry)))))))"

section \<open>create\<close>

text \<open>Whatever the kernel, user space and the bitmap are, a create that returns has failed.\<close>

lemma create_fails:
  assumes "sjfs_iops_create K user sz dir dentry mode excl s = Ret (r, s')"
  shows "r = - ENOSPC"
  using assms
  by (auto simp: sjfs_iops_create_def run_simps whole_bitmap_def split: option.splits sum.splits
      dest: scan_inodes_zero)

lemma create_eq:
  assumes "heap s (inodes_bitmaps_cache s) = Some bm" "4 \<le> length bm" "knew_inode K (calls s) = Some i"
  shows "sjfs_iops_create K user sz dir dentry mode excl s =
    (if first_word_full bm
     then Ret (- ENOSPC, s\<lparr>calls := calls s @ [New_inode], klog := klog s @ [(''sjfs_iops_create\<newline>'', [])]\<rparr>)
     else Crash OutOfBounds)"
  using assms
  by (simp add: sjfs_iops_create_def run_simps whole_bitmap_def scan_inodes_eq)

section \<open>unlink\<close>

lemma inode_byte_nat: "unat ino < 1024 \<Longrightarrow> nat (inode_byte ino) = unat ino - unat ino mod 8"
  using inode_byte_of_nat [of "unat ino"] by simp

lemma inode_byte_less:
  assumes "unat ino < 1024"
  shows "0 \<le> inode_byte ino" "nat (inode_byte ino) < 1024"
proof -
  show "nat (inode_byte ino) < 1024" using assms by (simp add: inode_byte_nat)
  have "inode_byte ino = int (unat ino - unat ino mod 8)" using assms by (intro inode_byte_small) simp
  then show "0 \<le> inode_byte ino" by linarith
qed

lemma update_bitmap_run:
  assumes "heap s (inodes_bitmaps_cache s) = Some bm" "length bm = 1024" "unat ino < 1024"
  shows "update_bitmap f ino s = Ret ((), s\<lparr>heap := (heap s)(inodes_bitmaps_cache s \<mapsto>
    (let i = nat (inode_byte ino) in bm[i := f (bm ! i) (bit_mask (inode_bit ino))]))\<rparr>)"
  using assms inode_byte_less [OF assms(3)]
  by (simp add: update_bitmap_def run_simps heap_read_def heap_write_def Let_def
      bytes_at_one [unfolded One_nat_def] overwrite_nth)

lemmas bitmap_defs = mark_inode_def clear_inode_def set_bit_at_def clear_bit_at_def


lemma marked_used_clear:
  assumes "length bm = 1024" "unat ino < 1024"
  shows "marked_used (clear_bit_at (nat (inode_byte ino)) (inode_bit ino) bm) = marked_used bm - {unat ino}"
  using upd.used_clear [OF assms] by (simp add: marked_used_def)

lemma mark_inode_run:
  assumes "heap s (inodes_bitmaps_cache s) = Some bm" "length bm = 1024" "unat ino < 1024"
  shows "mark_inode ino s = Ret ((), s\<lparr>heap := (heap s)(inodes_bitmaps_cache s \<mapsto>
    set_bit_at (nat (inode_byte ino)) (inode_bit ino) bm)\<rparr>)"
  using update_bitmap_run [OF assms] by (simp add: bitmap_defs Let_def)

lemma clear_inode_run:
  assumes "heap s (inodes_bitmaps_cache s) = Some bm" "length bm = 1024" "unat ino < 1024"
  shows "clear_inode ino s = Ret ((), s\<lparr>heap := (heap s)(inodes_bitmaps_cache s \<mapsto>
    clear_bit_at (nat (inode_byte ino)) (inode_bit ino) bm)\<rparr>)"
  using update_bitmap_run [OF assms] by (simp add: bitmap_defs Let_def)

lemma update_bitmap_overrun:
  assumes "heap s (inodes_bitmaps_cache s) = Some bm" "length bm = 1024"
    "1024 \<le> unat ino" "unat ino < 2 ^ 31"
  shows "update_bitmap f ino s = Crash OutOfBounds"
proof -
  define k where "k = unat ino - unat ino mod 8"
  have "1024 \<le> k"
    using assms(3) unfolding k_def by presburger
  then show ?thesis
    using assms(1,2) inode_byte_small [OF assms(4), folded k_def]
    by (simp add: update_bitmap_def run_simps heap_read_def)
qed

text \<open>The effect of unlinking: one bit cleared, the private copy of the inode freed, and the kernel
  told to remove the name. No message is sent.\<close>

definition unlink_log :: "kinode \<Rightarrow> (string \<times> parg list) list" where
  "unlink_log dir = (''sjfs_iops_unlink\<newline>'', []) #
     (if has_update_time dir then [(''sjfs_iops_update_time\<newline>'', [])] else [])"

definition unlink_calls :: "kinode \<Rightarrow> dentry \<Rightarrow> kcall list" where
  "unlink_calls dir dentry = (if has_update_time dir then [Current_time] else []) @ [Simple_unlink dir dentry]"

lemma unlink_run:
  assumes K: "counting_semaphores K" "0 < cn_sem s"
    and bm: "heap s (inodes_bitmaps_cache s) = Some bm" "length bm = 1024"
    and ino: "d_inode dentry = Some inode" "unat (i_ino inode) < 1024"
    and priv: "heap s (i_private inode) = Some bs" "i_private inode \<noteq> 0"
      "i_private inode \<noteq> inodes_bitmaps_cache s"
  shows "\<exists>s'. sjfs_iops_unlink K dir dentry s = Ret (kret K (butlast (calls s')) (Simple_unlink dir dentry), s')
    \<and> s' = s\<lparr>heap := (heap s)(inodes_bitmaps_cache s \<mapsto>
          clear_bit_at (nat (inode_byte (i_ino inode))) (inode_bit (i_ino inode)) bm,
        i_private inode := None),
      klog := klog s @ unlink_log dir, calls := calls s @ unlink_calls dir dentry\<rparr>"
  using assms
  by (simp add: sjfs_iops_unlink_def run_simps clear_inode_run
      write_block_nop touch_dir_def sjfs_iops_update_time_def kfree_def Let_def
      unlink_log_def unlink_calls_def butlast_append)

lemma unlink_overrun:
  assumes "heap s (inodes_bitmaps_cache s) = Some bm" "length bm = 1024"
    "d_inode dentry = Some inode" "1024 \<le> unat (i_ino inode)" "unat (i_ino inode) < 2 ^ 31"
  shows "sjfs_iops_unlink K dir dentry s = Crash OutOfBounds"
  using assms update_bitmap_overrun [of "s\<lparr>klog := klog s @ [(''sjfs_iops_unlink\<newline>'', [])]\<rparr>" bm "i_ino inode"]
  by (simp add: sjfs_iops_unlink_def clear_inode_def run_simps)

section \<open>The heap invariant\<close>

lemma keeps_whole_bitmap [keeps]: "keepsK heap_wf whole_bitmap"
  by (auto simp: keepsK_def whole_bitmap_def split: option.splits)

lemma keeps_update_bitmap [keeps]: "keepsK heap_wf (update_bitmap f ino)"
  unfolding update_bitmap_def by (intro keeps)

lemma keeps_mark_clear [keeps]: "keepsK heap_wf (mark_inode ino)" "keepsK heap_wf (clear_inode ino)"
  unfolding mark_inode_def clear_inode_def by (intro keeps)+

lemma keeps_touch_dir [keeps]: "keepsK heap_wf (touch_dir K dir flags)"
  unfolding touch_dir_def sjfs_iops_update_time_def by (intro keeps)

lemma keeps_sjfs_iops_unlink [keeps]: "keepsK heap_wf (sjfs_iops_unlink K dir dentry)"
  unfolding sjfs_iops_unlink_def by (cases "d_inode dentry") (auto intro!: keeps)

lemma keeps_sjfs_iops_create [keeps]:
  "keepsK heap_wf (sjfs_iops_create K user sz dir dentry mode excl)"
  unfolding sjfs_iops_create_def Let_def
  by (intro keeps) (auto intro!: keeps split: option.split sum.split)

section \<open>Properties\<close>

text \<open>C11. What \<open>sjfs_iops_create\<close> does on a loaded bitmap, for every kernel, user space and bitmap: it fails
  with \<open>ENOSPC\<close>, having made an inode and nothing else, when bytes 1 to 3 of the bitmap are full and byte 0
  is full or has bit 0 free; otherwise its search runs off the end of the bitmap. It never creates a
  file.\<close>

theorem create_outcome:
  assumes "heap s (inodes_bitmaps_cache s) = Some bm" "4 \<le> length bm" "knew_inode K (calls s) = Some i"
  shows "sjfs_iops_create K user sz dir dentry mode excl s =
    (if first_word_full bm
     then Ret (- ENOSPC, s\<lparr>calls := calls s @ [New_inode], klog := klog s @ [(''sjfs_iops_create\<newline>'', [])]\<rparr>)
     else Crash OutOfBounds)"
  using create_eq [OF assms] .

theorem create_outcome_witness:
  "sjfs_iops_create sample_kernel (\<lambda>_. []) 200 sample_inode \<lparr>d_name = None, d_inode = None\<rparr> 0 False sample_state
    = Crash OutOfBounds"
proof -
  have "\<not> first_word_full (replicate SJFS_BLOCKSIZE 0)"
    by (simp add: first_word_full_def scan_bits_def SJFS_BLOCKSIZE_def upt_conv_Cons)
  then show ?thesis
    using create_outcome [of sample_state "replicate SJFS_BLOCKSIZE 0" sample_kernel sample_inode]
    by (simp add: SJFS_BLOCKSIZE_def) (simp add: sample_kernel_def)
qed

text \<open>C7. Unlinking an inode below 1024 removes it from the used set of the cached bitmap, frees the private
  copy of the inode and nothing else, tells the kernel's library, and returns what that returns. The
  bitmap is not sent to the disk.\<close>

theorem unlink_effect:
  assumes "counting_semaphores K" "0 < cn_sem s"
    "heap s (inodes_bitmaps_cache s) = Some bm" "length bm = 1024"
    "d_inode dentry = Some inode" "unat (i_ino inode) < 1024"
    "heap s (i_private inode) = Some bs" "i_private inode \<noteq> 0" "i_private inode \<noteq> inodes_bitmaps_cache s"
  shows "\<exists>s' bm'. sjfs_iops_unlink K dir dentry s
      = Ret (kret K (butlast (calls s')) (Simple_unlink dir dentry), s')
    \<and> heap s' = (heap s)(inodes_bitmaps_cache s \<mapsto> bm', i_private inode := None)
    \<and> marked_used bm' = marked_used bm - {unat (i_ino inode)} \<and> length bm' = 1024
    \<and> calls s' = calls s @ unlink_calls dir dentry"
  using unlink_run [OF assms, of dir] marked_used_clear [OF assms(4,6)] assms(4) by fastforce

theorem unlink_effect_witness:
  "\<exists>s'. sjfs_iops_unlink sample_kernel sample_inode \<lparr>d_name = None, d_inode = Some (sample_inode\<lparr>i_private := 2\<rparr>)\<rparr>
      sample_private_state = Ret (0, s') \<and> heap s' 2 = None"
proof -
  have "kret sample_kernel h c = 0" for h c by (simp add: sample_kernel_def)
  then show ?thesis
    using unlink_effect [of sample_kernel sample_private_state "replicate 1024 0"
        "\<lparr>d_name = None, d_inode = Some (sample_inode\<lparr>i_private := 2\<rparr>)\<rparr>" "sample_inode\<lparr>i_private := 2\<rparr>" "replicate 200 0" sample_inode]
    by (auto simp: sample_private_state_def sample_inode_def SJFS_BLOCKSIZE_def)
qed

text \<open>C25. From inode 1024 on, unlinking (and marking) addresses a byte outside the bitmap, although the
  bitmap has a bit for 8192 inodes.\<close>

theorem unlink_bounds:
  assumes "heap s (inodes_bitmaps_cache s) = Some bm" "length bm = 1024"
    "d_inode dentry = Some inode" "1024 \<le> unat (i_ino inode)" "unat (i_ino inode) < 8192"
  shows "sjfs_iops_unlink K dir dentry s = Crash OutOfBounds"
  using unlink_overrun [OF assms(1-4)] assms(5) by simp

theorem unlink_bounds_witness:
  "sjfs_iops_unlink sample_kernel sample_inode \<lparr>d_name = None, d_inode = Some (sample_inode\<lparr>i_ino := 1024\<rparr>)\<rparr>
     sample_state = Crash OutOfBounds"
  using unlink_bounds [of sample_state "replicate 1024 0"
      "\<lparr>d_name = None, d_inode = Some (sample_inode\<lparr>i_ino := 1024\<rparr>)\<rparr>" "sample_inode\<lparr>i_ino := 1024\<rparr>"]
  by (simp add: SJFS_BLOCKSIZE_def)



text \<open>C24. Marking an inode hides it from the search of \<open>create\<close> exactly when its number is below 8: if the
  search finds inode \<open>ino\<close> in its byte of the bitmap, it finds the same inode there again after
  \<open>create\<close> has marked it, for every inode from 8 to 1023.\<close>

theorem marked_inode_found_again:
  assumes "heap s (inodes_bitmaps_cache s) = Some bm" "length bm = 1024" "0 < unat ino" "unat ino < 1024"
    "scan_byte (unat ino div 8) (bm ! (unat ino div 8)) 0 = unat ino"
  shows "\<exists>bm'. mark_inode ino s = Ret ((), s\<lparr>heap := (heap s)(inodes_bitmaps_cache s \<mapsto> bm')\<rparr>)
    \<and> (scan_byte (unat ino div 8) (bm' ! (unat ino div 8)) 0 = unat ino \<longleftrightarrow> 8 \<le> unat ino)"
proof -
  define n where "n = unat ino"
  let ?k = "nat (inode_byte ino)" and ?i = "n div 8"
  let ?bm = "set_bit_at ?k (inode_bit ino) bm"
  have n: "0 < n" "n < 1024" using assms(3,4) by (simp_all add: n_def)
  have k: "?k = n - n mod 8" "inode_bit ino = n mod 8"
    using inode_byte_nat [OF assms(4)] by (simp_all add: inode_bit_def n_def)
  have "scan_byte ?i (?bm ! ?i) 0 = n \<longleftrightarrow> 8 \<le> n"
  proof (cases "8 \<le> n")
    case True
    then have "0 < n div 8" by (simp add: div_greater_zero_iff)
    then have "?k \<noteq> ?i" unfolding k minus_mod_eq_div_mult by simp
    with True assms(5) show ?thesis by (simp add: set_bit_at_def n_def)
  next
    case False
    then have z: "?i = 0" "n mod 8 = n" "?k = 0" using k by auto
    have "scan_byte 0 (?bm ! 0) 0 \<noteq> n"
    proof
      assume "scan_byte 0 (?bm ! 0) 0 = n"
      then have "scan_bits (?bm ! 0) = Some n"
        using n by (simp add: scan_byte_def split: option.splits)
      then have "\<not> test_bit_at 0 n ?bm" by (auto simp: test_bit_at_def dest: scan_bits_Some)
      then show False using False assms(2) k z by (simp add: test_set_bit_at)
    qed
    with False z show ?thesis by simp
  qed
  then show ?thesis using mark_inode_run [OF assms(1,2,4)] unfolding n_def by blast
qed

theorem marked_inode_found_again_witness:
  "\<exists>bm. mark_inode 8 sample_state = Ret ((), sample_state\<lparr>heap := (heap sample_state)(3 \<mapsto> bm)\<rparr>)
    \<and> scan_byte 1 (bm ! 1) 0 = 8"
proof -
  have "scan_byte 1 (replicate 1024 0 ! 1) 0 = 8"
    by (simp add: scan_byte_def scan_bits_def upt_conv_Cons)
  then show ?thesis
    using marked_inode_found_again [of sample_state "replicate 1024 0" 8] by (auto simp: SJFS_BLOCKSIZE_def)
qed

end
