(* ===== verification/Super.thy ===== *)
theory Super
  imports Inode_Ops
begin

text \<open>
  The super block, file system type and module levels of \<open>src/kernel_space_module/sjfs.c\<close>:
  filling the super block from the disk, mounting and unmounting, loading and unloading the module.
\<close>

section \<open>sjfs\_fill\_super\<close>

text \<open>The super operations, slot and function; all of them are functions of the kernel.\<close>

definition sjfs_sops :: "(string \<times> string) list" where
  "sjfs_sops = [(''drop_inode'', ''generic_delete_inode''), (''statfs'', ''simple_statfs''),
     (''show_options'', ''generic_show_options'')]"

definition datablocks_bitmaps_offset :: nat where
  "datablocks_bitmaps_offset = 2 + SJFS_INODES_PER_BITMAP * 1"

definition INT_MAX :: nat where
  "INT_MAX = 2147483647"

text \<open>The loop over the datablock bitmaps. \<open>lim\<close> is its bound, an \<open>unsigned long\<close>; the offset into
  the cache is computed in an \<open>int\<close>.\<close>

function load_bitmaps ::
  "kernel \<Rightarrow> (cn_msg \<Rightarrow> cn_msg list) \<Rightarrow> ptr \<Rightarrow> nat \<Rightarrow> nat \<Rightarrow> (sjfs_state, unit) km" where
  "load_bitmaps K user cache lim i =
     (if i < lim
      then if (i - datablocks_bitmaps_offset) * SJFS_BLOCKSIZE > INT_MAX then crashK SignedOverflow
           else bindK (sjfs_read_block K user (of_nat i) cache
               ((i - datablocks_bitmaps_offset) * SJFS_BLOCKSIZE)) (\<lambda>_.
             load_bitmaps K user cache lim (Suc i))
      else retK ())"
  by pat_completeness auto
termination
  by (relation "measure (\<lambda>(K, user, cache, lim, i). lim - i)") auto

declare load_bitmaps.simps [simp del]

definition bitmaps_limit :: "superblock_t \<Rightarrow> nat" where
  "bitmaps_limit dsb = unat (of_nat datablocks_bitmaps_offset + datablock_blocks_count dsb)"

text \<open>The fields of the root inode that come from the disk.\<close>

definition root_inode :: "kernel \<Rightarrow> kinode \<Rightarrow> inode_t \<Rightarrow> ptr \<Rightarrow> kinode" where
  "root_inode K inode0 di disk_root_inode =
    (let i1 = inode0\<lparr>i_ino := 0, i_op := ''sjfs_root_dir_iops'', i_fop := ''sjfs_root_dir_fops'',
               i_mode := di_mode di\<rparr>;
         i2 = i_uid_write K i1 (ucast (di_uid di));
         i3 = i_gid_write K i2 (ucast (di_gid di));
         i4 = i_size_write K i3 (di_size di);
         i5 = i4\<lparr>i_atime := (di_atime di, snd (i_atime i4)), i_mtime := (di_mtime di, snd (i_mtime i4)),
                i_ctime := (di_ctime di, snd (i_ctime i4))\<rparr>;
         i6 = set_nlink K i5 (ucast (di_links di))
     in i6\<lparr>i_blocks := di_blocks di, i_private := disk_root_inode\<rparr>)"

text \<open>The last part of \<open>sjfs_fill_super\<close>: from the root inode on the disk to the root dentry.\<close>

definition fill_root ::
  "kernel \<Rightarrow> ptr \<Rightarrow> super_block \<Rightarrow> ptr \<Rightarrow> (sjfs_state, int \<times> super_block) km" where
  "fill_root K p sb2 disk_root_inode =
     (if disk_root_inode = 0 then retK (- ENOMEM, sb2)
      else bindK (heap_read p 0 1) (\<lambda>b.
        if drop_bit 7 (hd b) = 0 then retK (- ENOMEM, sb2)
        else bindK (new_inode K) (\<lambda>new. case new of
            None \<Rightarrow> retK (- ENOMEM, sb2)
          | Some inode0 \<Rightarrow>
              bindK (heap_read disk_root_inode 0 (sizeof_struct lp64 inode_fields)) (\<lambda>di.
              let inode = root_inode K inode0 (inode_of di) disk_root_inode in
              bindK (d_make_root K (Some inode)) (\<lambda>root. case root of
                  None \<Rightarrow> retK (- ENOMEM, sb2)
                | Some d \<Rightarrow> retK (0, sb2\<lparr>s_root := Some d\<rparr>))))))"

text \<open>\<open>sjfs_fill_super\<close> after the superblock has been fetched to the object at \<open>disk_sb\<close>. The
  second component of the result is the super block as the function leaves it.\<close>

definition fill_super_from ::
  "kernel \<Rightarrow> (cn_msg \<Rightarrow> cn_msg list) \<Rightarrow> ptr \<Rightarrow> super_block \<Rightarrow> (sjfs_state, int \<times> super_block) km" where
  "fill_super_from K user disk_sb sb =
    (let sb1 = sb\<lparr>s_blocksize_bits := 8, s_blocksize := of_nat SJFS_BLOCKSIZE,
          s_maxbytes := MAX_LFS_FILESIZE K, s_time_gran := 1, s_op := ''sjfs_sops''\<rparr> in
     bindK (heap_read disk_sb 0 (sizeof_struct lp64 superblock_fields)) (\<lambda>bytes.
     let dsb = superblock_of bytes in
     if sb_magic dsb \<noteq> SJFS_MAGIC then retK (- ENOMEM, sb1)
     else
      let sb2 = sb1\<lparr>s_magic := sb_magic dsb, s_fs_info := disk_sb\<rparr> in
      thenK (kcall K Save_mount_options)
     (bindK (kmalloc K SJFS_BLOCKSIZE) (\<lambda>p.
      thenK (modK (\<lambda>s. s\<lparr>inodes_bitmaps_cache := p\<rparr>))
     (thenK (sjfs_read_block K user 1 p 0)
     (bindK (kmalloc K (unat (of_nat SJFS_BLOCKSIZE * datablock_blocks_count dsb))) (\<lambda>q.
      thenK (modK (\<lambda>s. s\<lparr>datablocks_bitmaps_cache := q\<rparr>))
     (thenK (load_bitmaps K user q (bitmaps_limit dsb) datablocks_bitmaps_offset)
     (bindK (sjfs_get_disk_inode K user 0)
            (fill_root K p sb2))))))))))"

definition sjfs_fill_super ::
  "kernel \<Rightarrow> (cn_msg \<Rightarrow> cn_msg list) \<Rightarrow> super_block \<Rightarrow> (sjfs_state, int \<times> super_block) km" where
  "sjfs_fill_super K user sb =
     bindK (sjfs_get_disk_superblock K user) (\<lambda>disk_sb.
     if disk_sb = 0 then retK (- ENOMEM, sb) else fill_super_from K user disk_sb sb)"

section \<open>mount, umount, load, unload\<close>

definition release_socket :: "kernel \<Rightarrow> (sjfs_state, unit) km" where
  "release_socket K = bindK (getK nls_socket) (\<lambda>open.
     if open then thenK (kcall K Sock_release) (retK ()) else retK ())"

text \<open>\<open>None\<close> is a \<open>NULL\<close> dentry, \<open>Some r\<close> what \<open>mount_single\<close> returns.\<close>

definition sjfs_mount :: "kernel \<Rightarrow> (sjfs_state, int option) km" where
  "sjfs_mount K =
     bindK (kcall K (Cn_add_callback (cn_id K) cn_name)) (\<lambda>err.
     if err \<noteq> 0 then thenK (release_socket K) (retK None)
     else bindK (kcall K (Mount_single ''sjfs_fill_super'')) (\<lambda>r. retK (Some r)))"

definition sjfs_kill_sb :: "kernel \<Rightarrow> (sjfs_state, unit) km" where
  "sjfs_kill_sb K =
     thenK (kcall K Kill_litter_super)
    (thenK (kcall K (Cn_del_callback (cn_id K)))
           (release_socket K))"

definition sjfs_fs_type :: "string \<times> uint \<times> string \<times> string" where
  "sjfs_fs_type = (''sjfs'', 0, ''sjfs_mount'', ''sjfs_kill_sb'')"

definition sjfs_init :: "kernel \<Rightarrow> (sjfs_state, int) km" where
  "sjfs_init K = bindK (getK once) (\<lambda>old.
     thenK (modK (\<lambda>s. s\<lparr>once := True\<rparr>))
     (if old then retK (- EBUSY)
      else thenK (modK (\<lambda>s. s\<lparr>cn_sem := 1\<rparr>))
          (thenK (modK (\<lambda>s. s\<lparr>cb_sem := 1\<rparr>))
          (thenK (kcall K (Call_usermodehelper [''/usr/local/bin/sjfs_helper'', ''/tmp/sjfs.img'']))
                 (kcall K (Register_filesystem (fst sjfs_fs_type)))))))"

definition sjfs_exit :: "kernel \<Rightarrow> (sjfs_state, unit) km" where
  "sjfs_exit K = thenK (kcall K (Unregister_filesystem (fst sjfs_fs_type))) (retK ())"

section \<open>A mount cannot succeed\<close>

lemma fill_super_fails:
  assumes "heap_wf s" "length (read_block_buffer s) = SJFS_BLOCKSIZE"
    "sjfs_fill_super K user sb s = Ret (r, s')"
  shows "r = (- ENOMEM, sb) \<and> live s' = live s"
proof -
  obtain p s1 where p: "sjfs_get_disk_superblock K user s = Ret (p, s1)"
      "(if p = 0 then retK (- ENOMEM, sb) else fill_super_from K user p sb) s1 = Ret (r, s')"
    using assms(3) unfolding sjfs_fill_super_def by (blast dest: bindK_eq_RetD)
  with superblock_never [OF assms(1,2) p(1)] show ?thesis
    by (auto simp: run_simps live_def)
qed

section \<open>Loading the datablock bitmaps\<close>

text \<open>What the cache holds after \<open>n\<close> rounds of the loop, when user space serves the contents \<open>D\<close>.\<close>

definition bitmap_blocks :: "(byte list \<Rightarrow> byte list) \<Rightarrow> nat \<Rightarrow> byte list" where
  "bitmap_blocks D n = concat (map (\<lambda>i. D (read_request (of_nat (datablocks_bitmaps_offset + i)))) [0..<n])"

lemma bitmap_blocks_Suc:
  "bitmap_blocks D (Suc n) = bitmap_blocks D n @ D (read_request (of_nat (datablocks_bitmaps_offset + n)))"
  by (simp add: bitmap_blocks_def)

lemma length_bitmap_blocks:
  assumes "\<And>x. length (D x) = SJFS_BLOCKSIZE"
  shows "length (bitmap_blocks D n) = n * SJFS_BLOCKSIZE"
  by (induction n) (simp_all add: bitmap_blocks_Suc assms, simp add: bitmap_blocks_def)

definition caches :: "sjfs_state \<Rightarrow> ptr \<times> ptr" where
  "caches s = (inodes_bitmaps_cache s, datablocks_bitmaps_cache s)"

text \<open>One round of the loop stores one block behind those that are already there.\<close>

lemma load_round:
  assumes dev: "device_ok K user D" and idle: "conn_idle s"
    and obj: "heap s q = Some (bitmap_blocks D j @ rest)" "SJFS_BLOCKSIZE \<le> length rest"
  shows "\<exists>s'. sjfs_read_block K user (of_nat (datablocks_bitmaps_offset + j)) q (j * SJFS_BLOCKSIZE) s = Ret (0, s')
    \<and> conn_idle s' \<and> caches s' = caches s
    \<and> heap s' = (heap s)(q \<mapsto> bitmap_blocks D (Suc j) @ drop SJFS_BLOCKSIZE rest)"
proof -
  let ?a = "of_nat (datablocks_bitmaps_offset + j) :: uint"
  note d = device_okD [OF dev]
  have len: "length (bitmap_blocks D j) = j * SJFS_BLOCKSIZE"
    by (rule length_bitmap_blocks) (rule d(6))
  have ov: "overwrite (j * SJFS_BLOCKSIZE) (D (read_request ?a)) (bitmap_blocks D j @ rest)
      = bitmap_blocks D (Suc j) @ drop SJFS_BLOCKSIZE rest"
    using len d(6) by (simp add: overwrite_def bitmap_blocks_Suc)
  let ?s' = "(read_done K ?a (D (read_request ?a)) s)\<lparr>heap := (heap s)(q \<mapsto>
      bitmap_blocks D (Suc j) @ drop SJFS_BLOCKSIZE rest)\<rparr>"
  have "sjfs_read_block K user ?a q (j * SJFS_BLOCKSIZE) s = Ret (0, ?s')"
    using read_block_answered [OF d(1,2,4) idle d(5) obj(1), of "j * SJFS_BLOCKSIZE" ?a] obj(2) len
    unfolding ov by simp
  moreover have "conn_idle ?s'"
    by (rule conn_idle_read_done [OF idle d(6) obj(1)])
  moreover have "caches ?s' = caches s"
    by (simp add: caches_def read_done_def Let_def)
  ultimately show ?thesis by (intro exI [of _ ?s']) simp
qed

lemma load_bitmaps_rounds:
  assumes dev: "device_ok K user D" and n: "n * SJFS_BLOCKSIZE \<le> INT_MAX"
  shows "conn_idle s \<Longrightarrow> heap s q = Some (bitmap_blocks D j @ rest) \<Longrightarrow> j \<le> n
    \<Longrightarrow> length rest = (n - j) * SJFS_BLOCKSIZE
    \<Longrightarrow> \<exists>s'. load_bitmaps K user q (datablocks_bitmaps_offset + n) (datablocks_bitmaps_offset + j) s = Ret ((), s')
      \<and> conn_idle s' \<and> caches s' = caches s \<and> heap s' = (heap s)(q \<mapsto> bitmap_blocks D n)"
proof (induction "n - j" arbitrary: j s rest)
  case 0
  then show ?case
    by (intro exI [of _ s]) (simp add: load_bitmaps.simps run_simps fun_upd_idem)
next
  case (Suc k)
  then have j: "j < n" "Suc k = n - j" "k = n - Suc j" by simp_all
  have rest: "SJFS_BLOCKSIZE \<le> length rest"
    using Suc.prems(4) j by (cases "n - j") simp_all
  obtain s1 where s1: "sjfs_read_block K user (of_nat (datablocks_bitmaps_offset + j)) q (j * SJFS_BLOCKSIZE) s = Ret (0, s1)"
      "conn_idle s1" "caches s1 = caches s"
      "heap s1 = (heap s)(q \<mapsto> bitmap_blocks D (Suc j) @ drop SJFS_BLOCKSIZE rest)"
    using load_round [OF dev Suc.prems(1,2) rest] by blast
  have "(n - j) * SJFS_BLOCKSIZE - SJFS_BLOCKSIZE = (n - Suc j) * SJFS_BLOCKSIZE"
    using j by (cases "n - j") (auto simp: diff_Suc)
  then obtain s2 where s2: "load_bitmaps K user q (datablocks_bitmaps_offset + n) (datablocks_bitmaps_offset + Suc j) s1 = Ret ((), s2)"
      "conn_idle s2" "caches s2 = caches s1" "heap s2 = (heap s1)(q \<mapsto> bitmap_blocks D n)"
    using Suc.hyps(1) [of "Suc j" s1 "drop SJFS_BLOCKSIZE rest"] s1 j Suc.prems(4) by auto
  have "j * SJFS_BLOCKSIZE \<le> INT_MAX"
    using n j mult_le_mono1 [of j n SJFS_BLOCKSIZE] by linarith
  then have "load_bitmaps K user q (datablocks_bitmaps_offset + n) (datablocks_bitmaps_offset + j) s = Ret ((), s2)"
    using j s1(1) s2(1) by (simp add: load_bitmaps.simps [of _ _ _ _ "datablocks_bitmaps_offset + j"] bindK_Ret not_less)
  with s2 s1 show ?case by (intro exI [of _ s2]) simp
qed

text \<open>A request names a block by its first three digits only, so the first six bitmaps, blocks 8194
  to 8199, are all asked for as block 819.\<close>

lemma bitmap_request:
  assumes "i < 6"
  shows "read_request (of_nat (datablocks_bitmaps_offset + i)) = read_request 819"
proof -
  have "(8194 + i) div 10 = 819"
    using assms by presburger
  then have "leading3 (8194 + i) = 819" "leading3 819 = 819"
    by (simp_all add: leading3.simps)
  moreover have "unat (of_nat (8194 + i) :: uint) = 8194 + i"
    using assms by (simp add: unat_of_nat del: of_nat_add)
  ultimately show ?thesis
    unfolding read_request_eq_iff
    by (simp add: datablocks_bitmaps_offset_def sjfs_size_defs del: of_nat_add)
qed

lemma bitmap_blocks_alias:
  assumes "n \<le> 6"
  shows "bitmap_blocks D n = concat (replicate n (D (read_request 819)))"
proof -
  have "map (\<lambda>i. D (read_request (of_nat (datablocks_bitmaps_offset + i)))) [0..<n]
      = map (\<lambda>i. D (read_request 819)) [0..<n]"
    using assms by (intro map_cong refl) (simp add: bitmap_request del: of_nat_add)
  then show ?thesis
    by (simp add: bitmap_blocks_def map_replicate_const)
qed

section \<open>A superblock with the magic number\<close>

text \<open>What \<open>new_inode\<close> and \<open>d_make_root\<close> give when they do not run out of memory.\<close>

definition root_available :: "kernel \<Rightarrow> kinode \<Rightarrow> bool" where
  "root_available K inode0 \<longleftrightarrow> (\<forall>h. knew_inode K h = Some inode0) \<and>
     (\<forall>h i. kd_make_root K h i = Some \<lparr>d_name = None, d_inode = Some i\<rparr>)"

text \<open>Documented behaviour of the functions that set one field of an inode.\<close>

definition inode_setters :: "kernel \<Rightarrow> bool" where
  "inode_setters K \<longleftrightarrow> (\<forall>i u. i_uid_write K i u = i\<lparr>i_uid := u\<rparr>) \<and> (\<forall>i g. i_gid_write K i g = i\<lparr>i_gid := g\<rparr>)
     \<and> (\<forall>i n. i_size_write K i n = i\<lparr>i_size := n\<rparr>) \<and> (\<forall>i n. set_nlink K i n = i\<lparr>i_nlink := n\<rparr>)"

lemma sample_inode_setters [simp]: "inode_setters sample_kernel"
  by (simp add: inode_setters_def sample_kernel_def)

lemma root_inode_fields:
  assumes "inode_setters K"
  shows "root_inode K inode0 di r = inode0\<lparr>i_ino := 0, i_mode := di_mode di,
    i_uid := ucast (di_uid di), i_gid := ucast (di_gid di), i_size := di_size di,
    i_atime := (di_atime di, snd (i_atime inode0)), i_mtime := (di_mtime di, snd (i_mtime inode0)),
    i_ctime := (di_ctime di, snd (i_ctime inode0)), i_nlink := ucast (di_links di),
    i_blocks := di_blocks di, i_private := r, i_op := ''sjfs_root_dir_iops'', i_fop := ''sjfs_root_dir_fops''\<rparr>"
  using assms by (cases inode0) (simp add: root_inode_def inode_setters_def Let_def)

lemma caches_updates [simp]:
  "caches (s\<lparr>heap := h\<rparr>) = caches s" "caches (s\<lparr>next_ptr := n\<rparr>) = caches s"
  "caches (s\<lparr>klog := l\<rparr>) = caches s" "caches (s\<lparr>calls := c\<rparr>) = caches s"
  "caches (s\<lparr>cn_sem := n\<rparr>) = caches s" "caches (s\<lparr>cb_sem := n\<rparr>) = caches s"
  "caches (s\<lparr>cn_counter := w\<rparr>) = caches s" "caches (s\<lparr>read_block_buffer := b\<rparr>) = caches s"
  "caches (s\<lparr>inbox := ms\<rparr>) = caches s"
  by (simp_all add: caches_def)

text \<open>Reading blocks and inodes does not move the caches.\<close>

lemma keeps_caches_heap [keeps]:
  "keepsK (\<lambda>s. caches s = c) (kmalloc K n)" "keepsK (\<lambda>s. caches s = c) (kzalloc K n)"
  "keepsK (\<lambda>s. caches s = c) (kfree p)" "keepsK (\<lambda>s. caches s = c) (heap_read p off n)"
  "keepsK (\<lambda>s. caches s = c) (heap_write p off xs)" "keepsK (\<lambda>s. caches s = c) (kcall K k)"
  "keepsK (\<lambda>s. caches s = c) (printk f a)"
  by (auto simp: keepsK_def kmalloc_def kzalloc_def kfree_def heap_read_def heap_write_def kcall_def
      printk_def modK_def Let_def split: if_splits option.splits)

lemma keeps_caches_sem [keeps]:
  "keepsK (\<lambda>s. caches s = c) (up_cb K)" "keepsK (\<lambda>s. caches s = c) (up_cn K)"
  "keepsK (\<lambda>s. caches s = c) (down_cn K)" "keepsK (\<lambda>s. caches s = c) (down_trylock_cb K)"
  "keepsK (\<lambda>s. caches s = c) (copy_reply m)"
  by (auto simp: keepsK_def conn_defs modK_def copy_reply_def Let_def split: if_splits option.splits prod.splits)

lemma keeps_caches_callback [keeps]: "keepsK (\<lambda>s. caches s = c) (cn_callback K m)"
  unfolding cn_callback_def by (intro keeps)

lemma keeps_caches_down_cb [keeps]: "keepsK (\<lambda>s. caches s = c) (down_cb K)"
  by (rule keepsK_down_cb) (auto intro: keeps)

lemma keeps_caches_read [keeps]: "keepsK (\<lambda>s. caches s = c) (sjfs_read_block K user a p off)"
  unfolding sjfs_read_block_def cn_netlink_send_def by (intro keeps keepsK_modK) simp_all

lemma keeps_caches_get_disk_inode [keeps]: "keepsK (\<lambda>s. caches s = c) (sjfs_get_disk_inode K user ino)"
  unfolding sjfs_get_disk_inode_def Let_def by (intro keeps)

lemma fill_root_run:
  assumes "root_available K inode0" "r \<noteq> 0"
    "heap s p = Some bm" "bm \<noteq> []" "heap s r = Some img" "length img = 200"
  shows "fill_root K p sb2 r s =
    (if drop_bit 7 (hd bm) = 0 then Ret ((- ENOMEM, sb2), s)
     else Ret ((0, sb2\<lparr>s_root := Some \<lparr>d_name = None,
         d_inode = Some (root_inode K inode0 (inode_of img) r)\<rparr>\<rparr>),
       s\<lparr>calls := calls s @ [New_inode, D_make_root (Some (root_inode K inode0 (inode_of img) r))]\<rparr>))"
  using assms by (cases bm)
    (simp_all add: fill_root_def run_simps heap_read_def root_available_def layout_simps bytes_at_def)

text \<open>\<open>s2\<close> is the state when the bitmaps are in memory.\<close>

definition super_from_disk :: "kernel \<Rightarrow> superblock_t \<Rightarrow> ptr \<Rightarrow> super_block \<Rightarrow> super_block" where
  "super_from_disk K dsb disk_sb sb =
     sb\<lparr>s_blocksize_bits := 8, s_blocksize := of_nat SJFS_BLOCKSIZE, s_maxbytes := MAX_LFS_FILESIZE K,
        s_time_gran := 1, s_op := ''sjfs_sops'', s_magic := sb_magic dsb, s_fs_info := disk_sb\<rparr>"

lemma conn_idle_updates [simp]:
  "conn_idle (s\<lparr>calls := c\<rparr>) = conn_idle s" "conn_idle (s\<lparr>klog := l\<rparr>) = conn_idle s"
  "conn_idle (s\<lparr>inodes_bitmaps_cache := p\<rparr>) = conn_idle s"
  "conn_idle (s\<lparr>datablocks_bitmaps_cache := p\<rparr>) = conn_idle s"
  by (simp_all add: conn_idle_def)

text \<open>Allocating a cache and reading the inode bitmap to it.\<close>

lemma load_inode_bitmap:
  assumes dev: "device_ok K user D" and idle: "conn_idle s"
  shows "\<exists>s'. bindK (kmalloc K SJFS_BLOCKSIZE) (\<lambda>p. thenK (modK (\<lambda>s. s\<lparr>inodes_bitmaps_cache := p\<rparr>))
        (thenK (sjfs_read_block K user 1 p 0) (rest p))) s = rest (next_ptr s) s'
    \<and> conn_idle s' \<and> heap s' = (heap s)(next_ptr s \<mapsto> D (read_request 1))
    \<and> inodes_bitmaps_cache s' = next_ptr s \<and> next_ptr s' = next_ptr s + 2"
proof -
  let ?p = "next_ptr s" and ?blk = "D (read_request 1)"
  let ?s1 = "s\<lparr>heap := (heap s)(?p \<mapsto> map (junk K ?p) [0..<SJFS_BLOCKSIZE]), next_ptr := Suc ?p,
    inodes_bitmaps_cache := ?p\<rparr>"
  let ?s2 = "(read_done K 1 ?blk ?s1)\<lparr>heap := (heap ?s1)(?p \<mapsto> ?blk)\<rparr>"
  note d = device_okD [OF dev]
  have i1: "conn_idle ?s1"
    using conn_idle_alloc [OF idle, of "map (junk K ?p) [0..<SJFS_BLOCKSIZE]"] by simp
  have "sjfs_read_block K user 1 ?p 0 ?s1 = Ret (0, ?s2)"
    using read_block_answered [OF d(1,2,4) i1 d(5), of ?p _ 0 1] d(6) by (simp add: overwrite_def)
  moreover have "conn_idle ?s2"
    by (rule conn_idle_read_done [OF i1 d(6)]) simp
  ultimately show ?thesis
    using kmalloc_run [OF d(3), of SJFS_BLOCKSIZE s]
    by (intro exI [of _ ?s2]) (simp add: run_simps read_done_def Let_def)
qed

text \<open>Allocating the other cache and reading \<open>n\<close> datablock bitmaps to it.\<close>

lemma load_datablock_bitmaps:
  assumes dev: "device_ok K user D" and idle: "conn_idle s" and n: "n * SJFS_BLOCKSIZE \<le> INT_MAX"
  shows "\<exists>s'. bindK (kmalloc K (n * SJFS_BLOCKSIZE)) (\<lambda>q. thenK (modK (\<lambda>s. s\<lparr>datablocks_bitmaps_cache := q\<rparr>))
        (thenK (load_bitmaps K user q (datablocks_bitmaps_offset + n) datablocks_bitmaps_offset) rest)) s = rest s'
    \<and> conn_idle s' \<and> heap s' = (heap s)(next_ptr s \<mapsto> bitmap_blocks D n)
    \<and> caches s' = (inodes_bitmaps_cache s, next_ptr s)"
proof -
  let ?q = "next_ptr s"
  let ?bs = "map (junk K ?q) [0..<n * SJFS_BLOCKSIZE]"
  let ?s1 = "s\<lparr>heap := (heap s)(?q \<mapsto> ?bs), next_ptr := Suc ?q, datablocks_bitmaps_cache := ?q\<rparr>"
  have "conn_idle ?s1"
    using conn_idle_alloc [OF idle, of ?bs] by simp
  moreover have "heap ?s1 ?q = Some (bitmap_blocks D 0 @ ?bs)"
    by (simp add: bitmap_blocks_def)
  ultimately obtain s2 where s2: "load_bitmaps K user ?q (datablocks_bitmaps_offset + n) datablocks_bitmaps_offset ?s1 = Ret ((), s2)"
      "conn_idle s2" "caches s2 = caches ?s1" "heap s2 = (heap ?s1)(?q \<mapsto> bitmap_blocks D n)"
    using load_bitmaps_rounds [OF dev n, of ?s1 ?q 0 ?bs] by (auto simp del: upt_Suc)
  then show ?thesis
    using kmalloc_run [OF device_okD(3) [OF dev], of "n * SJFS_BLOCKSIZE" s]
    by (intro exI [of _ s2]) (simp add: run_simps caches_def)
qed

text \<open>The sizes the code computes in an \<open>unsigned long\<close> do not wrap for a bitmap area that the
  loop's \<open>int\<close> can index.\<close>

lemma bitmap_area:
  assumes "unat (datablock_blocks_count dsb) * SJFS_BLOCKSIZE \<le> INT_MAX"
  shows "unat (of_nat SJFS_BLOCKSIZE * datablock_blocks_count dsb) = unat (datablock_blocks_count dsb) * SJFS_BLOCKSIZE"
    and "bitmaps_limit dsb = datablocks_bitmaps_offset + unat (datablock_blocks_count dsb)"
proof -
  define n where "n = unat (datablock_blocks_count dsb)"
  have w: "datablock_blocks_count dsb = of_nat n" and n: "n * 1024 \<le> 2147483647"
    using assms by (simp_all add: n_def SJFS_BLOCKSIZE_def INT_MAX_def)
  have u: "unat (of_nat n :: ulong) = n"
    using n by (simp add: unat_of_nat)
  have "unat (of_nat (1024 * n) :: ulong) = 1024 * n"
    using n by (simp add: unat_of_nat del: of_nat_mult)
  then show "unat (of_nat SJFS_BLOCKSIZE * datablock_blocks_count dsb) = unat (datablock_blocks_count dsb) * SJFS_BLOCKSIZE"
    unfolding w u by (simp add: SJFS_BLOCKSIZE_def)
  have "unat (of_nat (8194 + n) :: ulong) = 8194 + n"
    using n by (simp add: unat_of_nat del: of_nat_add)
  then show "bitmaps_limit dsb = datablocks_bitmaps_offset + unat (datablock_blocks_count dsb)"
    unfolding bitmaps_limit_def w u
    by (simp add: datablocks_bitmaps_offset_def sjfs_size_defs)
qed

lemma fill_super_bad_magic:
  assumes "heap s disk_sb = Some bytes" "length bytes = sizeof_struct lp64 superblock_fields"
    "sb_magic (superblock_of bytes) \<noteq> SJFS_MAGIC"
  shows "\<exists>sb'. fill_super_from K user disk_sb sb s = Ret ((- ENOMEM, sb'), s)
    \<and> s_root sb' = s_root sb \<and> s_fs_info sb' = s_fs_info sb"
  using assms by (simp add: fill_super_from_def Let_def run_simps heap_read_def layout_simps bytes_at_full)

lemma fill_super_load:
  assumes dev: "device_ok K user D" and idle: "conn_idle s"
    and sb: "heap s disk_sb = Some (superblock_image dsb)" "wf_superblock dsb" "sb_magic dsb = SJFS_MAGIC"
    and n: "n = unat (datablock_blocks_count dsb)" "n * SJFS_BLOCKSIZE \<le> INT_MAX"
  shows "\<exists>s'. fill_super_from K user disk_sb sb s =
      bindK (sjfs_get_disk_inode K user 0) (fill_root K (next_ptr s) (super_from_disk K dsb disk_sb sb)) s'
    \<and> conn_idle s' \<and> caches s' = (next_ptr s, next_ptr s + 2)
    \<and> heap s' = (heap s)(next_ptr s \<mapsto> D (read_request 1), next_ptr s + 2 \<mapsto> bitmap_blocks D n)"
proof -
  let ?sb = "super_from_disk K dsb disk_sb sb" and ?s0 = "s\<lparr>calls := calls s @ [Save_mount_options]\<rparr>"
  let ?data = "\<lambda>p. bindK (kmalloc K (n * SJFS_BLOCKSIZE)) (\<lambda>q.
      thenK (modK (\<lambda>s. s\<lparr>datablocks_bitmaps_cache := q\<rparr>))
     (thenK (load_bitmaps K user q (datablocks_bitmaps_offset + n) datablocks_bitmaps_offset)
       (bindK (sjfs_get_disk_inode K user 0) (fill_root K p ?sb))))"
  have area: "unat (of_nat SJFS_BLOCKSIZE * datablock_blocks_count dsb) = n * SJFS_BLOCKSIZE"
      "bitmaps_limit dsb = datablocks_bitmaps_offset + n"
    using bitmap_area [of dsb] n by simp_all
  have rd: "heap_read disk_sb 0 1056 s = Ret (superblock_image dsb, s)"
    using sb sbc.enc_width [OF sb(2)] by (simp add: heap_read_def bytes_at_full)
  have "fill_super_from K user disk_sb sb s = bindK (kmalloc K SJFS_BLOCKSIZE) (\<lambda>p.
      thenK (modK (\<lambda>s. s\<lparr>inodes_bitmaps_cache := p\<rparr>)) (thenK (sjfs_read_block K user 1 p 0) (?data p))) ?s0"
    using sb(3) sbc.dec_enc [OF sb(2)]
    by (simp add: fill_super_from_def Let_def sizeof_superblock_lp64 super_from_disk_def area
        bindK_Ret [where m = "heap_read disk_sb 0 1056" and s = s, OF rd]
        thenK_Ret [where m = "kcall K Save_mount_options" and s = s, OF kcall_run])
  moreover obtain s1 where s1: "bindK (kmalloc K SJFS_BLOCKSIZE) (\<lambda>p.
      thenK (modK (\<lambda>s. s\<lparr>inodes_bitmaps_cache := p\<rparr>)) (thenK (sjfs_read_block K user 1 p 0) (?data p))) ?s0
        = ?data (next_ptr s) s1"
      "conn_idle s1" "heap s1 = (heap s)(next_ptr s \<mapsto> D (read_request 1))"
      "inodes_bitmaps_cache s1 = next_ptr s" "next_ptr s1 = next_ptr s + 2"
    using load_inode_bitmap [OF dev, of ?s0 ?data] idle by auto
  moreover obtain s2 where "?data (next_ptr s) s1 =
        bindK (sjfs_get_disk_inode K user 0) (fill_root K (next_ptr s) ?sb) s2"
      "conn_idle s2" "heap s2 = (heap s1)(next_ptr s1 \<mapsto> bitmap_blocks D n)"
      "caches s2 = (inodes_bitmaps_cache s1, next_ptr s1)"
    using load_datablock_bitmaps [OF dev s1(2) n(2)] by blast
  ultimately show ?thesis by (intro exI [of _ s2]) simp
qed

text \<open>A superblock with the right magic number, an inode bitmap with its top bit set and a kernel
  that does not run out of memory: \<open>sjfs_fill_super\<close> returns 0, both bitmap caches hold what user
  space served, and the root dentry is made from the first inode of block 2.\<close>

lemma fill_super_ok:
  assumes dev: "device_ok K user D" and idle: "conn_idle s"
    and sb: "heap s disk_sb = Some (superblock_image dsb)" "wf_superblock dsb" "sb_magic dsb = SJFS_MAGIC"
    and n: "n = unat (datablock_blocks_count dsb)" "n * SJFS_BLOCKSIZE \<le> INT_MAX"
    and root: "root_available K inode0" "bit (hd (D (read_request 1))) 7"
  shows "\<exists>s' r. fill_super_from K user disk_sb sb s =
      Ret ((0, (super_from_disk K dsb disk_sb sb)\<lparr>s_root := Some \<lparr>d_name = None,
         d_inode = Some (root_inode K inode0 (inode_of (bytes_at 0 200 (D (read_request 2)))) r)\<rparr>\<rparr>), s')
    \<and> heap s' r = Some (bytes_at 0 200 (D (read_request 2)))
    \<and> conn_idle s' \<and> heap s' (inodes_bitmaps_cache s') = Some (D (read_request 1))
    \<and> heap s' (datablocks_bitmaps_cache s') = Some (bitmap_blocks D n)"
proof -
  let ?img = "bytes_at 0 200 (D (read_request 2))"
  let ?in = "root_inode K inode0 (inode_of ?img)"
  obtain s1 where s1: "fill_super_from K user disk_sb sb s =
      bindK (sjfs_get_disk_inode K user 0) (fill_root K (next_ptr s) (super_from_disk K dsb disk_sb sb)) s1"
      "conn_idle s1" "caches s1 = (next_ptr s, next_ptr s + 2)"
      "heap s1 = (heap s)(next_ptr s \<mapsto> D (read_request 1), next_ptr s + 2 \<mapsto> bitmap_blocks D n)"
    using fill_super_load [OF dev idle sb n] by blast
  obtain s2 where s2: "sjfs_get_disk_inode K user 0 s1 = Ret (next_ptr s1 + 2, s2)" "conn_idle s2"
      "heap s2 = (heap s1)(next_ptr s1 \<mapsto> D (read_request 2), next_ptr s1 + 2 \<mapsto> ?img)"
    using get_disk_inode_ok [OF dev s1(2), of 0] by auto
  have c: "caches s2 = (next_ptr s, next_ptr s + 2)"
    using keepsKD [OF keeps_caches_get_disk_inode s2(1) s1(3)] .
  have "next_ptr s < next_ptr s1" "next_ptr s + 2 < next_ptr s1"
    using s1(2,4) unfolding conn_idle_def heap_wf_def by auto
  then have h: "heap s2 (next_ptr s) = Some (D (read_request 1))"
      "heap s2 (next_ptr s + 2) = Some (bitmap_blocks D n)" "heap s2 (next_ptr s1 + 2) = Some ?img"
    using s2(3) s1(4) by auto
  have ne: "D (read_request 1) \<noteq> []" and len: "length ?img = 200"
    using device_okD(6) [OF dev, of "read_request 1"] device_okD(6) [OF dev, of "read_request 2"]
    by (auto simp: SJFS_BLOCKSIZE_def)
  have "drop_bit 7 (hd (D (read_request 1))) \<noteq> 0"
  proof
    assume "drop_bit 7 (hd (D (read_request 1))) = 0"
    then have "bit (drop_bit 7 (hd (D (read_request 1)))) 0 = bit (0 :: byte) 0" by (rule arg_cong)
    with root(2) show False by (simp add: bit_drop_bit_eq)
  qed
  moreover have "fill_super_from K user disk_sb sb s =
      fill_root K (next_ptr s) (super_from_disk K dsb disk_sb sb) (next_ptr s1 + 2) s2"
    unfolding s1(1) using s2(1) by (simp add: bindK_def)
  ultimately show ?thesis
    using fill_root_run [OF root(1) _ h(1) ne h(3) len, of "super_from_disk K dsb disk_sb sb"] s2(2) h c
    by (intro exI [of _ "s2\<lparr>calls := calls s2 @ [New_inode, D_make_root (Some (?in (next_ptr s1 + 2)))]\<rparr>"]
        exI [of _ "next_ptr s1 + 2"]) (simp add: caches_def)
qed

section \<open>The module\<close>

text \<open>
  What every variant of the module promises of its entry point: \<open>loaded\<close> tells whether it ran
  before, the first run registers the file system, and no later run does anything.
\<close>

fun repeatK :: "nat \<Rightarrow> ('s, int) km \<Rightarrow> ('s, int) km" where
  "repeatK 0 m = retK 0"
| "repeatK (Suc 0) m = m"
| "repeatK (Suc (Suc n)) m = thenK m (repeatK (Suc n) m)"

locale load_once =
  fixes init :: "('s, int) km" and loaded :: "'s \<Rightarrow> bool" and already :: int
    and trace :: "'s \<Rightarrow> kcall list" and boot :: "'s \<Rightarrow> kcall list"
  assumes first: "\<not> loaded s \<Longrightarrow> \<exists>r s'. init s = Ret (r, s') \<and> loaded s' \<and> trace s' = trace s @ boot s"
    and again: "loaded s \<Longrightarrow> \<exists>s'. init s = Ret (already, s') \<and> loaded s' \<and> trace s' = trace s"
begin

lemma repeat_loaded:
  "loaded s \<Longrightarrow> \<exists>s'. repeatK (Suc n) init s = Ret (already, s') \<and> loaded s' \<and> trace s' = trace s"
proof (induction n arbitrary: s)
  case 0
  then show ?case using again by simp
next
  case (Suc n)
  from again [OF Suc.prems] obtain s1 where s1: "init s = Ret (already, s1)" "loaded s1" "trace s1 = trace s"
    by blast
  with Suc.IH [OF s1(2)] show ?case by (auto simp: run_simps)
qed

lemma repeat_once:
  assumes "\<not> loaded s"
  shows "\<exists>r s'. repeatK (Suc n) init s = Ret (r, s') \<and> loaded s' \<and> trace s' = trace s @ boot s"
proof -
  from first [OF assms] obtain r s1 where s1: "init s = Ret (r, s1)" "loaded s1" "trace s1 = trace s @ boot s"
    by blast
  then show ?thesis
    using repeat_loaded [OF s1(2), of "n - 1"] by (cases n) (auto simp: run_simps)
qed

lemma second_result:
  "init s = Ret (r, s') \<Longrightarrow> \<exists>s''. init s' = Ret (already, s'') \<and> trace s'' = trace s'"
  using first [of s] again [of s] again [of s'] by (cases "loaded s") auto

end

definition sjfs_boot :: "kcall list" where
  "sjfs_boot = [Call_usermodehelper [''/usr/local/bin/sjfs_helper'', ''/tmp/sjfs.img''],
     Register_filesystem ''sjfs'']"

lemma sjfs_init_run:
  "sjfs_init K s = (if once s then Ret (- EBUSY, s)
     else Ret (kret K (calls s @ [hd sjfs_boot]) (Register_filesystem ''sjfs''),
       s\<lparr>once := True, cn_sem := 1, cb_sem := 1, calls := calls s @ sjfs_boot\<rparr>))"
  by (simp add: sjfs_init_def run_simps sjfs_boot_def sjfs_fs_type_def)

interpretation modinit: load_once "sjfs_init K" once "- EBUSY" calls "\<lambda>_. sjfs_boot" for K
  by unfold_locales (simp_all add: sjfs_init_run)

lemma sjfs_mount_run:
  "sjfs_mount K s = (let add = Cn_add_callback (cn_id K) cn_name in
     if kret K (calls s) add \<noteq> 0
     then Ret (None, s\<lparr>calls := calls s @ add # (if nls_socket s then [Sock_release] else [])\<rparr>)
     else Ret (Some (kret K (calls s @ [add]) (Mount_single ''sjfs_fill_super'')),
       s\<lparr>calls := calls s @ [add, Mount_single ''sjfs_fill_super'']\<rparr>))"
  by (simp add: sjfs_mount_def run_simps release_socket_def Let_def)

lemma sjfs_kill_sb_run:
  "sjfs_kill_sb K s = Ret ((), s\<lparr>calls := calls s @ [Kill_litter_super, Cn_del_callback (cn_id K)]
     @ (if nls_socket s then [Sock_release] else [])\<rparr>)"
  by (simp add: sjfs_kill_sb_def run_simps release_socket_def)

section \<open>The heap invariant\<close>

lemma keeps_load_bitmaps [keeps]: "keepsK heap_wf (load_bitmaps K user q lim i)"
proof (induction K user q lim i rule: load_bitmaps.induct)
  case (1 K user q lim i)
  show ?case
    by (subst load_bitmaps.simps) (auto intro!: keeps 1)
qed

lemma keeps_fill_root [keeps]: "keepsK heap_wf (fill_root K p sb r)"
  unfolding fill_root_def Let_def by (auto intro!: keeps split: option.split)

lemma keeps_fill_super_from [keeps]: "keepsK heap_wf (fill_super_from K user p sb)"
  unfolding fill_super_from_def Let_def by (auto intro!: keeps keepsK_modK)

lemma keeps_sjfs_fill_super [keeps]: "keepsK heap_wf (sjfs_fill_super K user sb)"
  unfolding sjfs_fill_super_def by (intro keeps)

section \<open>Properties\<close>

definition sample_super :: super_block where
  "sample_super = \<lparr>s_blocksize_bits = 0, s_blocksize = 0, s_maxbytes = 0, s_time_gran = 0, s_op = '''',
     s_magic = 0, s_fs_info = 0, s_root = None\<rparr>"

text \<open>The state after the superblock has been fetched to address 2.\<close>

definition sample_super_state :: "superblock_t \<Rightarrow> sjfs_state" where
  "sample_super_state dsb = sample_state\<lparr>heap := (heap sample_state)(2 \<mapsto> superblock_image dsb)\<rparr>"

lemma sample_super_state_simps [simp]:
  "conn_idle (sample_super_state dsb)" "heap (sample_super_state dsb) 2 = Some (superblock_image dsb)"
  by (auto simp: conn_idle_def sample_super_state_def sample_state_def heap_wf_def)

lemma sample_root_available [simp]: "root_available sample_kernel sample_inode"
  by (simp add: root_available_def sample_kernel_def)

lemma sample_root_bit: "bit (hd sample_inode_block) 7"
proof -
  let ?img = "inode_image sample_disk_inode"
  have "bytes_at 0 2 ?img = le16 0x4180"
    using inode_bytes [OF wf_sample_disk_inode, folded inode_image_def, unfolded place_inode, of 0]
    by (simp add: inode_fields_def sample_disk_inode_def)
  moreover have "le16 0x4180 = [0x80, 0x41]" unfolding le16_def numeral_2_eq_2 by simp
  ultimately have "take 2 ?img = [0x80, 0x41]" by (simp add: bytes_at_def)
  then have "hd sample_inode_block = 0x80"
    by (cases ?img) (auto simp: sample_inode_block_def)
  then show ?thesis by simp
qed

text \<open>C6. Once a superblock with the magic number has been fetched, with a device that answers and bit 7 of the
  first bitmap byte set, the rest of \<open>sjfs_fill_super\<close> succeeds: the inode bitmap and every datablock
  bitmap are cached as user space served them, the sizes and operations are set, and the root dentry
  gets number, operations, mode, owner, size, times, link count and block count from the first inode of
  block 2, whose copy it keeps as private data; nothing else of the new inode is changed.\<close>

theorem mount_from_good_superblock:
  assumes "device_ok K user D" "conn_idle s"
    "heap s disk_sb = Some (superblock_image dsb)" "wf_superblock dsb" "sb_magic dsb = SJFS_MAGIC"
    "n = unat (datablock_blocks_count dsb)" "n * SJFS_BLOCKSIZE \<le> INT_MAX"
    "root_available K inode0" "inode_setters K" "bit (hd (D (read_request 1))) 7"
    "di = inode_of (bytes_at 0 200 (D (read_request 2)))"
  shows "\<exists>s' r. fill_super_from K user disk_sb sb s =
      Ret ((0, sb\<lparr>s_blocksize_bits := 8, s_blocksize := 1024, s_maxbytes := MAX_LFS_FILESIZE K,
        s_time_gran := 1, s_op := ''sjfs_sops'', s_magic := SJFS_MAGIC, s_fs_info := disk_sb,
        s_root := Some \<lparr>d_name = None, d_inode = Some (inode0\<lparr>i_ino := 0, i_mode := di_mode di,
          i_uid := ucast (di_uid di), i_gid := ucast (di_gid di), i_size := di_size di,
          i_atime := (di_atime di, snd (i_atime inode0)), i_mtime := (di_mtime di, snd (i_mtime inode0)),
          i_ctime := (di_ctime di, snd (i_ctime inode0)), i_nlink := ucast (di_links di),
          i_blocks := di_blocks di, i_private := r, i_op := ''sjfs_root_dir_iops'',
          i_fop := ''sjfs_root_dir_fops''\<rparr>)\<rparr>\<rparr>), s')
    \<and> heap s' r = Some (bytes_at 0 200 (D (read_request 2)))
    \<and> conn_idle s' \<and> heap s' (inodes_bitmaps_cache s') = Some (D (read_request 1))
    \<and> heap s' (datablocks_bitmaps_cache s') = Some (bitmap_blocks D n)"
  using fill_super_ok [OF assms(1-8,10), of sb] assms(5)
  unfolding root_inode_fields [OF assms(9)] assms(11) [symmetric] super_from_disk_def SJFS_BLOCKSIZE_def
  by simp

theorem mount_from_good_superblock_witness:
  "\<exists>s' sb' i. fill_super_from sample_kernel (sample_user sample_inode_block) 2 sample_super
      (sample_super_state sample_superblock) = Ret ((0, sb'), s')
    \<and> s_root sb' = Some \<lparr>d_name = None, d_inode = Some i\<rparr> \<and> i_op i = ''sjfs_root_dir_iops''
    \<and> heap s' (datablocks_bitmaps_cache s') = Some (sample_inode_block @ sample_inode_block)"
proof -
  have sb: "sb_magic sample_superblock = SJFS_MAGIC" "2 = unat (datablock_blocks_count sample_superblock)"
    by (simp_all add: sample_superblock_def SJFS_MAGIC_def)
  have "(2::nat) * SJFS_BLOCKSIZE \<le> INT_MAX" by (simp add: SJFS_BLOCKSIZE_def INT_MAX_def)
  from mount_from_good_superblock [OF sample_device sample_super_state_simps wf_sample_superblock sb this
      sample_root_available sample_inode_setters sample_root_bit refl, of sample_super]
  show ?thesis by (auto simp: bitmap_blocks_def numeral_2_eq_2)
qed

text \<open>C26. A superblock with any other magic number is refused with \<open>ENOMEM\<close>; no cache is loaded and no root
  is made.\<close>

theorem wrong_magic_refused:
  assumes "heap s disk_sb = Some bytes" "length bytes = sizeof_struct lp64 superblock_fields"
    "sb_magic (superblock_of bytes) \<noteq> SJFS_MAGIC"
  shows "\<exists>sb'. fill_super_from K user disk_sb sb s = Ret ((- ENOMEM, sb'), s)
    \<and> s_root sb' = s_root sb \<and> s_fs_info sb' = s_fs_info sb"
  using fill_super_bad_magic [OF assms] .

theorem wrong_magic_refused_witness:
  "\<exists>sb'. fill_super_from sample_kernel (\<lambda>_. []) 2 sample_super (sample_super_state (sample_superblock\<lparr>sb_magic := 0\<rparr>))
    = Ret ((- ENOMEM, sb'), sample_super_state (sample_superblock\<lparr>sb_magic := 0\<rparr>)) \<and> s_root sb' = None"
proof -
  have wf: "wf_superblock (sample_superblock\<lparr>sb_magic := 0\<rparr>)"
    by (simp add: wf_superblock_def sample_superblock_def)
  have "length (superblock_image (sample_superblock\<lparr>sb_magic := 0\<rparr>)) = sizeof_struct lp64 superblock_fields"
      "sb_magic (superblock_of (superblock_image (sample_superblock\<lparr>sb_magic := 0\<rparr>))) \<noteq> SJFS_MAGIC"
    by (simp_all add: sbc.enc_width [OF wf] sbc.dec_enc [OF wf] layout_simps SJFS_MAGIC_def)
  from wrong_magic_refused [OF sample_super_state_simps(2) this, of sample_kernel "\<lambda>_. []" sample_super]
  show ?thesis by (elim ex_forward) (simp add: sample_super_def)
qed

text \<open>C10. A mount can never succeed: the buffer for the superblock has the size of an \<open>int\<close>, so reading block
  0 into it never returns, and when it cannot even be allocated the result is \<open>ENOMEM\<close>. This holds
  for every kernel and every user space.\<close>

theorem mount_never_succeeds:
  assumes "heap_wf s" "length (read_block_buffer s) = SJFS_BLOCKSIZE"
  shows "sjfs_fill_super K user sb s \<in> {Hang, Ret ((- ENOMEM, sb), s\<lparr>next_ptr := Suc (next_ptr s)\<rparr>)} \<union> range Crash
    \<and> (memory_ok K \<longrightarrow> (\<forall>r. sjfs_fill_super K user sb s \<noteq> Ret r))"
proof -
  have "r = ((- ENOMEM, sb), s\<lparr>next_ptr := Suc (next_ptr s)\<rparr>) \<and> \<not> memory_ok K"
    if ret: "sjfs_fill_super K user sb s = Ret r" for r
  proof -
    obtain p s1 where p: "sjfs_get_disk_superblock K user s = Ret (p, s1)"
        "(if p = 0 then retK (- ENOMEM, sb) else fill_super_from K user p sb) s1 = Ret r"
      using ret unfolding sjfs_fill_super_def by (blast dest: bindK_eq_RetD)
    with superblock_never [OF assms p(1)] show ?thesis
      by (auto simp: run_simps memory_ok_def)
  qed
  then show ?thesis by (cases "sjfs_fill_super K user sb s") auto
qed

theorem mount_never_succeeds_witness:
  "sjfs_fill_super sample_kernel_oom (\<lambda>_. []) sample_super sample_state
      = Ret ((- ENOMEM, sample_super), sample_state\<lparr>next_ptr := 5\<rparr>)
    \<and> (\<forall>r. sjfs_fill_super sample_kernel (\<lambda>_. []) sample_super sample_state \<noteq> Ret r)"
proof -
  have wf: "heap_wf sample_state" using sample_state_idle by (simp add: conn_idle_def)
  have "sjfs_fill_super sample_kernel_oom (\<lambda>_. []) sample_super sample_state
      = Ret ((- ENOMEM, sample_super), sample_state\<lparr>next_ptr := 5\<rparr>)"
    by (simp add: sjfs_fill_super_def sjfs_get_disk_superblock_def run_simps kmalloc_def Let_def)
  then show ?thesis
    using mount_never_succeeds [OF wf sample_state_fields(7), of sample_kernel "\<lambda>_. []" sample_super]
      sample_kernel_ok(2) by blast
qed

text \<open>C27. A disk with up to six datablock bitmaps has the same contents cached for all of them: blocks 8194 to
  8199 are all requested as block 819.\<close>

theorem datablock_bitmaps_alias:
  assumes "device_ok K user D" "conn_idle s" "n \<le> 6" "heap s q = Some bs" "length bs = n * SJFS_BLOCKSIZE"
  shows "\<exists>s'. load_bitmaps K user q (datablocks_bitmaps_offset + n) datablocks_bitmaps_offset s = Ret ((), s')
    \<and> heap s' = (heap s)(q \<mapsto> concat (replicate n (D (read_request 819))))"
proof -
  have "n * SJFS_BLOCKSIZE \<le> INT_MAX"
    using assms(3) by (simp add: SJFS_BLOCKSIZE_def INT_MAX_def)
  from load_bitmaps_rounds [OF assms(1) this assms(2), of q 0 bs] assms show ?thesis
    by (auto simp: bitmap_blocks_alias)
qed

theorem datablock_bitmaps_alias_witness:
  "\<exists>s'. load_bitmaps sample_kernel (sample_user sample_inode_block) 3 (datablocks_bitmaps_offset + 1)
      datablocks_bitmaps_offset sample_state = Ret ((), s') \<and> heap s' 3 = Some sample_inode_block"
  using datablock_bitmaps_alias [OF sample_device sample_state_idle _ sample_state_fields(1), of 1] by auto

text \<open>C28. Loading the module any number of times registers the file system and starts the helper once; every
  further attempt reports \<open>EBUSY\<close> and changes nothing.\<close>

theorem module_loads_once:
  assumes "\<not> once s"
  shows "\<exists>r s'. repeatK (Suc n) (sjfs_init K) s = Ret (r, s') \<and> once s'
    \<and> calls s' = calls s @ sjfs_boot \<and> sjfs_init K s' = Ret (- EBUSY, s')"
  using modinit.repeat_once [OF assms, of n K] by (auto simp: sjfs_init_run)

theorem module_loads_once_witness:
  "\<exists>r s'. repeatK 4 (sjfs_init sample_kernel) sample_state = Ret (r, s') \<and> calls s' = sjfs_boot"
  using module_loads_once [of sample_state 3 sample_kernel] by (auto simp: sample_state_def)

end
