(* ===== verification/Helper.thy ===== *)
theory Helper
  imports Super
begin

text \<open>
  The user-space helper of \<open>src/user_space_application/main.c\<close>: making a new disk image, decoding a
  request, sending a message, the command line and the main loop.

  Files are byte lists named by their path, a \<open>printf\<close> is an entry of \<open>out\<close>, and a message given to
  \<open>send\<close> an entry of \<open>sent\<close>. What the operating system answers is a value of the record \<open>os\<close>. The
  identifiers that \<open>main.c\<close> uses without declaring them (\<open>BLOCK_SIZE\<close>, \<open>MIN_BLOCKS\<close>, the
  \<open>OPCODE_\<close> constants, and \<open>opcode\<close> and \<open>address\<close> in \<open>do_work\<close>) are the parameters in \<open>config\<close>.
\<close>

section \<open>State and environment\<close>

record config =
  BLOCK_SIZE :: nat
  MIN_BLOCKS :: int
  OPCODE_READ :: int
  OPCODE_WRITE :: int
  OPCODE_NOTIFY :: int
  opcode_of :: "byte list \<Rightarrow> int"
  address_of :: "byte list \<Rightarrow> int"

record nlmsg =
  nlmsg_len :: uint
  nlmsg_type :: int
  nlmsg_flags :: ushort
  nlmsg_seq :: uint
  nlmsg_pid :: uint
  nlmsg_data :: cn_msg

record os =
  calloc_ok :: "nat \<Rightarrow> bool"                 \<comment> \<open>by the number of bytes asked for\<close>
  fopen_ok :: "string \<Rightarrow> string \<Rightarrow> bool"       \<comment> \<open>file name and mode\<close>
  fwrite_count :: "nat \<Rightarrow> nat \<Rightarrow> nat"         \<comment> \<open>length of the file, bytes to write\<close>
  fclose_ok :: "string \<Rightarrow> bool"
  open_ok :: "string \<Rightarrow> bool"
  fseek_ok :: "int \<Rightarrow> bool"
  send_ret :: "nlmsg \<Rightarrow> int"
  getpid :: uint
  flock_rc :: int
  flock_wouldblock :: bool
  socket_ret :: int
  bind_ret :: int
  close_ret :: int
  NLMSG_SPACE :: "nat \<Rightarrow> nat"
  nlmsg_hdrlen :: nat                        \<comment> \<open>offset of NLMSG_DATA\<close>
  os_sizeof_cn_msg :: nat
  NLMSG_ERROR :: int
  NLMSG_DONE :: int
  cn_msg_bytes :: "cn_msg \<Rightarrow> byte list"

record helper_state =
  files :: "string \<Rightarrow> byte list option"
  out :: "(string \<times> parg list) list"
  sent :: "nlmsg list"
  seq :: uint
  need_exit :: bool

definition printf :: "string \<Rightarrow> parg list \<Rightarrow> (helper_state, unit) km" where
  "printf fmt args = modK (\<lambda>s. s\<lparr>out := out s @ [(fmt, args)]\<rparr>)"

lemma printf_run [run_simps]: "printf fmt args s = Ret ((), s\<lparr>out := out s @ [(fmt, args)]\<rparr>)"
  by (simp add: printf_def run_simps)

section \<open>format\<close>

text \<open>\<open>fwrite\<close> of the first \<open>n\<close> bytes of the object \<open>obj\<close> to the end of a file.\<close>

definition fwrite :: "os \<Rightarrow> string \<Rightarrow> byte list \<Rightarrow> nat \<Rightarrow> (helper_state, nat) km" where
  "fwrite Os filename obj n = (\<lambda>s. case files s filename of
       None \<Rightarrow> Crash BadPointer
     | Some bs \<Rightarrow> if length obj < n then Crash OutOfBounds
         else let k = min n (fwrite_count Os (length bs) n) in
           Ret (k, s\<lparr>files := (files s)(filename \<mapsto> bs @ take k obj)\<rparr>))"

text \<open>A block size of 0 would make the loop endless; \<open>sz\<close> and \<open>i\<close> are values of type \<open>int\<close>.\<close>

function format_loop :: "os \<Rightarrow> config \<Rightarrow> string \<Rightarrow> byte list \<Rightarrow> int \<Rightarrow> int \<Rightarrow> (helper_state, unit) km" where
  "format_loop Os C filename zeroBlock sz i =
     (if i < sz
      then if BLOCK_SIZE C = 0 then (\<lambda>s. Hang)
           else thenK (fwrite Os filename zeroBlock (sizeof lp64 Pointer))
            (if i + int (BLOCK_SIZE C) > int INT_MAX then crashK SignedOverflow
             else format_loop Os C filename zeroBlock sz (i + int (BLOCK_SIZE C)))
      else retK ())"
  by pat_completeness auto
termination
  by (relation "measure (\<lambda>(Os, C, filename, z, sz, i). nat (sz - i))") auto

declare format_loop.simps [simp del]

definition fopen_wb :: "os \<Rightarrow> string \<Rightarrow> (helper_state, bool) km" where
  "fopen_wb Os filename = (\<lambda>s. if fopen_ok Os filename ''wb''
     then Ret (True, s\<lparr>files := (files s)(filename \<mapsto> [])\<rparr>) else Ret (False, s))"

text \<open>1 is success. \<open>sizeof(sb)\<close> and \<open>sizeof(zeroBlock)\<close> are the sizes of pointers.\<close>

definition format :: "os \<Rightarrow> config \<Rightarrow> string \<Rightarrow> int \<Rightarrow> (helper_state, int) km" where
  "format Os C filename sz =
     (let sb = replicate (sizeof_struct lp64 superblock_fields) 0;
          zeroBlock = replicate (BLOCK_SIZE C) 0
      in if \<not> calloc_ok Os (sizeof_struct lp64 superblock_fields) then retK 0
      else bindK (fopen_wb Os filename) (\<lambda>opened.
        if \<not> opened then retK 0
        else bindK (fwrite Os filename sb (sizeof lp64 Pointer)) (\<lambda>bytes.
          if bytes \<noteq> sizeof lp64 Pointer then retK 0
          else if \<not> calloc_ok Os (BLOCK_SIZE C) then retK 0
          else thenK (format_loop Os C filename zeroBlock sz (int (BLOCK_SIZE C)))
            (if fclose_ok Os filename then retK 1 else retK 0))))"

section \<open>netlink\_send\<close>

text \<open>\<open>memcpy\<close> and \<open>send\<close> work on a stack buffer of 2048 bytes.\<close>

definition nl_message :: "os \<Rightarrow> cn_msg \<Rightarrow> uint \<Rightarrow> nlmsg" where
  "nl_message Os msg sq =
    \<lparr>nlmsg_len = of_nat (NLMSG_SPACE Os (os_sizeof_cn_msg Os + unat (msg_len msg))),
     nlmsg_type = NLMSG_DONE Os, nlmsg_flags = 0, nlmsg_seq = sq, nlmsg_pid = getpid Os,
     nlmsg_data = msg\<rparr>"

definition netlink_send :: "os \<Rightarrow> cn_msg \<Rightarrow> (helper_state, int) km" where
  "netlink_send Os msg =
     (let sz = NLMSG_SPACE Os (os_sizeof_cn_msg Os + unat (msg_len msg)) in
      bindK (getK seq) (\<lambda>sq.
      thenK (modK (\<lambda>s. s\<lparr>seq := sq + 1\<rparr>))
     (if nlmsg_hdrlen Os + (os_sizeof_cn_msg Os + unat (msg_len msg)) > 2048 \<or> sz > 2048
      then crashK OutOfBounds
      else let nlh = nl_message Os msg sq;
               err = send_ret Os nlh
           in if err = -1
              then thenK (printf ''Failed to send: %s [%d].\<newline>'' []) (retK err)
              else thenK (modK (\<lambda>s. s\<lparr>sent := sent s @ [nlh]\<rparr>)) (retK err))))"

section \<open>do\_work\<close>

text \<open>The branches for reading and writing are empty in the source too: the call that would answer
  is commented out.\<close>

definition do_work :: "os \<Rightarrow> config \<Rightarrow> byte list \<Rightarrow> (helper_state, int) km" where
  "do_work Os C buffer =
     (if \<not> fseek_ok Os (address_of C buffer * int (BLOCK_SIZE C)) then retK (-1)
      else thenK
       (if opcode_of C buffer = OPCODE_READ C then retK ()
        else if opcode_of C buffer = OPCODE_WRITE C then retK ()
        else if opcode_of C buffer = OPCODE_NOTIFY C
        then printf ''Info sjfs said: %s\<newline>'' [PStr (c_string buffer)]
        else printf ''Warn unknown opcode.\<newline>'' [])
       (retK 0))"

section \<open>main\<close>

text \<open>\<open>strtol(s, _, 10)\<close>: optional white space and sign, then digits; the flag is \<open>ERANGE\<close>.\<close>

definition is_blank :: "char \<Rightarrow> bool" where
  "is_blank c \<longleftrightarrow> of_char c \<in> {9, 10, 11, 12, 13, 32 :: nat}"

definition is_digit :: "char \<Rightarrow> bool" where
  "is_digit c \<longleftrightarrow> 48 \<le> (of_char c :: nat) \<and> (of_char c :: nat) \<le> 57"

definition digits_value :: "string \<Rightarrow> int" where
  "digits_value ds = foldl (\<lambda>a c. 10 * a + (int (of_char c) - 48)) 0 ds"

definition strtol :: "string \<Rightarrow> int \<times> bool" where
  "strtol str =
    (let t = dropWhile is_blank str;
         neg = (t \<noteq> [] \<and> hd t = CHR ''-'');
         t' = (if t \<noteq> [] \<and> hd t \<in> {CHR ''+'', CHR ''-''} then tl t else t);
         v = digits_value (takeWhile is_digit t');
         w = (if neg then - v else v)
     in if w > 2 ^ 63 - 1 then (2 ^ 63 - 1, True)
        else if w < - (2 ^ 63) then (- (2 ^ 63), True) else (w, False))"

text \<open>What \<open>getopt(argc, argv, "n:")\<close> returns: the options it meets, in order.\<close>

datatype opt = Opt_n string | Opt_bad

definition usage :: "(helper_state, unit) km" where
  "usage = thenK (printf ''Usage: sjfs_helper [-n <size>] <filename>\<newline>'' [])
                 (printf ''         -n <size>  create a new disk of size in KB'' [])"

text \<open>\<open>None\<close> is \<open>exit(EXIT_FAILURE)\<close>; the \<open>long\<close> that \<open>strtol\<close> returns is stored in an \<open>int\<close>.\<close>

fun parse_opts :: "config \<Rightarrow> opt list \<Rightarrow> int \<Rightarrow> (helper_state, int option) km" where
  "parse_opts C [] sz = retK (Some sz)"
| "parse_opts C (Opt_bad # opts) sz = thenK usage (retK None)"
| "parse_opts C (Opt_n arg # opts) sz =
     (let sz' = sint (of_int (fst (strtol arg)) :: uint) in
      if snd (strtol arg) \<or> sz' < MIN_BLOCKS C then thenK usage (retK None)
      else parse_opts C opts sz')"

text \<open>One turn of the main loop: what \<open>poll\<close> and then \<open>recv\<close> give.\<close>

datatype event = Poll_timeout | Poll_error bool | Recv_error | Recv nlmsg  \<comment> \<open>the flag: EINTR\<close>

definition handle :: "os \<Rightarrow> config \<Rightarrow> nlmsg \<Rightarrow> (helper_state, unit) km" where
  "handle Os C reply =
     (if nlmsg_type reply = NLMSG_ERROR Os then printf ''Warn message received.\<newline>'' []
      else if nlmsg_type reply = NLMSG_DONE Os
      then let data = nlmsg_data reply in
        thenK (printf ''[%x.%x] [%08u.%08u].\<newline>'' [PNum (uint (fst (msg_id data))),
            PNum (uint (snd (msg_id data))), PNum (uint (msg_seq data)), PNum (uint (msg_ack data))])
          (bindK (do_work Os C (cn_msg_bytes Os data)) (\<lambda>r.
             if r < 0 then printf ''Warn failed to do_work.'' [] else retK ()))
      else printf ''Warn unknown nlmsg_type.\<newline>'' [])"

definition turn :: "os \<Rightarrow> config \<Rightarrow> event \<Rightarrow> (helper_state, unit) km" where
  "turn Os C e = (case e of
       Poll_timeout \<Rightarrow> modK (\<lambda>s. s\<lparr>need_exit := True\<rparr>)
     | Poll_error eintr \<Rightarrow> if eintr then retK () else modK (\<lambda>s. s\<lparr>need_exit := True\<rparr>)
     | Recv_error \<Rightarrow> printf ''recv buf'' []
     | Recv reply \<Rightarrow> handle Os C reply)"

text \<open>The loop on the events that have happened so far; \<open>False\<close>: it is waiting for the next one.\<close>

fun main_loop :: "os \<Rightarrow> config \<Rightarrow> event list \<Rightarrow> (helper_state, bool) km" where
  "main_loop Os C [] = getK need_exit"
| "main_loop Os C (e # es) = bindK (getK need_exit) (\<lambda>stop.
     if stop then retK True else thenK (turn Os C e) (main_loop Os C es))"

datatype exit = EXIT_FAILURE | EXIT_SUCCESS | Serving

definition fopen_append :: "os \<Rightarrow> string \<Rightarrow> (helper_state, bool) km" where
  "fopen_append Os filename = (\<lambda>s. if fopen_ok Os filename ''a+b''
     then Ret (True, s\<lparr>files := (files s)(filename := (case files s filename of None \<Rightarrow> Some [] | Some b \<Rightarrow> Some b))\<rparr>)
     else Ret (False, s))"

definition serve :: "os \<Rightarrow> config \<Rightarrow> event list \<Rightarrow> uint \<Rightarrow> (helper_state, exit) km" where
  "serve Os C events users =
     (if socket_ret Os = -1 then thenK (printf ''socket'' []) (retK EXIT_FAILURE)
      else thenK (printf ''subscribing to %u.%u\<newline>'' [PNum (uint (users + 3)), PNum 0x456])
       (if bind_ret Os = -1 then thenK (printf ''bind'' []) (retK EXIT_FAILURE)
        else bindK (main_loop Os C events) (\<lambda>stopped.
          if \<not> stopped then retK Serving
          else thenK (if close_ret Os = -1 then printf ''s close'' [] else retK ())
            (retK EXIT_SUCCESS))))"

text \<open>\<open>open("/var/run/sjfs_helper.pid", O_CREAT | O_RDWR, 0666)\<close> makes the file when there is none. Its
  result is not tested.\<close>

definition pid_file :: string where
  "pid_file = ''/var/run/sjfs_helper.pid''"

definition open_pid_file :: "os \<Rightarrow> (helper_state, unit) km" where
  "open_pid_file Os = modK (\<lambda>s. if open_ok Os pid_file
     then s\<lparr>files := (files s)(pid_file := (case files s pid_file of None \<Rightarrow> Some [] | Some b \<Rightarrow> Some b))\<rparr>
     else s)"

definition helper_main ::
  "os \<Rightarrow> config \<Rightarrow> uint \<Rightarrow> opt list \<Rightarrow> string list \<Rightarrow> event list \<Rightarrow> (helper_state, exit) km" where
  "helper_main Os C users opts operands events =
     thenK (open_pid_file Os)
     (if flock_rc Os \<noteq> 0 \<and> flock_wouldblock Os then retK EXIT_FAILURE
      else bindK (parse_opts C opts 0) (\<lambda>parsed. case parsed of
          None \<Rightarrow> retK EXIT_FAILURE
        | Some sz \<Rightarrow> (case operands of
              [] \<Rightarrow> thenK usage (retK EXIT_FAILURE)
            | filename # _ \<Rightarrow>
                bindK (if sz \<noteq> 0 then format Os C filename sz else retK 1) (\<lambda>r.
                if r = 0 then thenK (printf ''Could not format disk.'' []) (retK EXIT_FAILURE)
                else bindK (fopen_append Os filename) (\<lambda>opened.
                  if \<not> opened then thenK (printf ''Error opening file'' []) (retK EXIT_FAILURE)
                  else serve Os C events users)))))"

section \<open>The image that format writes\<close>

lemma pointer_bytes_lp64 [simp]: "pointer_bytes lp64 = 8"
  by (simp add: lp64_def)

definition os_healthy :: "os \<Rightarrow> bool" where
  "os_healthy Os \<longleftrightarrow> (\<forall>n. calloc_ok Os n) \<and> (\<forall>f m. fopen_ok Os f m) \<and> (\<forall>l n. fwrite_count Os l n = n)
     \<and> (\<forall>f. fclose_ok Os f)"

definition loop_rounds :: "nat \<Rightarrow> int \<Rightarrow> int \<Rightarrow> nat" where
  "loop_rounds bs sz i = nat ((sz - i + int bs - 1) div int bs)"

lemma loop_rounds_step:
  assumes "0 < bs" "i < sz"
  shows "loop_rounds bs sz i = Suc (loop_rounds bs sz (i + int bs))"
proof -
  have "sz - i + int bs - 1 = (sz - (i + int bs) + int bs - 1) + int bs" by simp
  then have "(sz - i + int bs - 1) div int bs = (sz - (i + int bs) + int bs - 1) div int bs + 1"
    using assms(1) by (metis div_add_self2 of_nat_0_eq_iff not_less0)
  moreover have "0 \<le> (sz - (i + int bs) + int bs - 1) div int bs"
    using assms by (intro pos_imp_zdiv_nonneg_iff [THEN iffD2]) simp_all
  ultimately show ?thesis
    by (simp add: loop_rounds_def nat_add_distrib)
qed

lemma loop_rounds_done: "0 < bs \<Longrightarrow> \<not> i < sz \<Longrightarrow> loop_rounds bs sz i = 0"
proof -
  assume "0 < bs" "\<not> i < sz"
  then have "(sz - i + int bs - 1) div int bs < 1"
    using zdiv_mono1 [of "sz - i + int bs - 1" "int bs - 1" "int bs"] by simp
  then show ?thesis by (simp add: loop_rounds_def)
qed

lemma fwrite_zeros:
  "os_healthy Os \<Longrightarrow> files s f = Some bs \<Longrightarrow> 8 \<le> n
    \<Longrightarrow> fwrite Os f (replicate n 0) 8 s = Ret (8, s\<lparr>files := (files s)(f \<mapsto> bs @ replicate 8 0)\<rparr>)"
  by (simp add: fwrite_def os_healthy_def min_absorb1)

lemma format_loop_run:
  assumes os: "os_healthy Os" and bs: "8 \<le> BLOCK_SIZE C" and fits: "sz + int (BLOCK_SIZE C) \<le> int INT_MAX"
  shows "files s f = Some bytes \<Longrightarrow>
    format_loop Os C f (replicate (BLOCK_SIZE C) 0) sz i s =
      Ret ((), s\<lparr>files := (files s)(f \<mapsto> bytes @ replicate (8 * loop_rounds (BLOCK_SIZE C) sz i) 0)\<rparr>)"
proof (induction "loop_rounds (BLOCK_SIZE C) sz i" arbitrary: i s bytes)
  case 0
  then have "\<not> i < sz"
    using bs loop_rounds_step [of "BLOCK_SIZE C" i sz] by auto
  then show ?case using 0
    by (simp add: format_loop.simps run_simps fun_upd_idem)
next
  case (Suc k)
  have i: "i < sz"
  proof (rule ccontr)
    assume "\<not> i < sz"
    then have "loop_rounds (BLOCK_SIZE C) sz i = 0" using bs by (intro loop_rounds_done) simp_all
    with Suc.hyps(2) show False by simp
  qed
  let ?j = "i + int (BLOCK_SIZE C)"
  have k: "k = loop_rounds (BLOCK_SIZE C) sz ?j"
    using Suc.hyps(2) loop_rounds_step [of "BLOCK_SIZE C" i sz] i bs by simp
  let ?s = "s\<lparr>files := (files s)(f \<mapsto> bytes @ replicate 8 0)\<rparr>"
  have "format_loop Os C f (replicate (BLOCK_SIZE C) 0) sz i s
      = format_loop Os C f (replicate (BLOCK_SIZE C) 0) sz ?j ?s"
    using i bs fits fwrite_zeros [OF os Suc.prems bs]
    by (subst format_loop.simps) (simp add: thenK_Ret)
  also have "\<dots> = Ret ((), s\<lparr>files := (files s)(f \<mapsto> (bytes @ replicate 8 0) @ replicate (8 * k) 0)\<rparr>)"
    using Suc.hyps(1) [OF k, of ?s "bytes @ replicate 8 0"] k by simp
  finally show ?case
    using Suc.hyps(2) [symmetric] by (simp add: replicate_add)
qed

lemma format_run:
  assumes os: "os_healthy Os" and bs: "8 \<le> BLOCK_SIZE C"
    and sz: "0 < sz" "sz + int (BLOCK_SIZE C) \<le> int INT_MAX"
  shows "format Os C f sz s = Ret (1, s\<lparr>files := (files s)(f \<mapsto>
    replicate (8 * (1 + nat ((sz - 1) div int (BLOCK_SIZE C)))) 0)\<rparr>)"
proof -
  let ?s0 = "s\<lparr>files := (files s)(f \<mapsto> [])\<rparr>"
  let ?s1 = "s\<lparr>files := (files s)(f \<mapsto> replicate 8 0)\<rparr>"
  have w: "fwrite Os f (replicate 1056 0) 8 ?s0 = Ret (8, ?s1)"
    using fwrite_zeros [OF os, of ?s0 f "[]" 1056] by simp
  have l: "format_loop Os C f (replicate (BLOCK_SIZE C) 0) sz (int (BLOCK_SIZE C)) ?s1
      = Ret ((), s\<lparr>files := (files s)(f \<mapsto> replicate 8 0 @ replicate (8 * loop_rounds (BLOCK_SIZE C) sz (int (BLOCK_SIZE C))) 0)\<rparr>)"
    using format_loop_run [OF os bs sz(2), of ?s1 f "replicate 8 0" "int (BLOCK_SIZE C)"] by simp
  have "loop_rounds (BLOCK_SIZE C) sz (int (BLOCK_SIZE C)) = nat ((sz - 1) div int (BLOCK_SIZE C))"
    by (simp add: loop_rounds_def)
  then show ?thesis
    using os w l
    by (simp add: format_def Let_def layout_simps fopen_wb_def run_simps os_healthy_def
        replicate_add [symmetric])
qed

section \<open>The helper never answers\<close>

lemma keeps_turn:
  assumes "\<And>s l. P s \<Longrightarrow> P (s\<lparr>out := l\<rparr>)" "\<And>s b. P s \<Longrightarrow> P (s\<lparr>need_exit := b\<rparr>)"
  shows "keepsK P (turn Os C e)"
proof -
  have pf: "keepsK P (printf fmt args)" for fmt args
    unfolding printf_def by (rule keepsK_modK) (rule assms(1))
  have dw: "keepsK P (do_work Os C b)" for b
    unfolding do_work_def by (intro keeps pf)
  have "keepsK P (handle Os C m)" for m
    unfolding handle_def Let_def by (intro keeps pf dw)
  moreover have "keepsK P (modK (\<lambda>s. s\<lparr>need_exit := True\<rparr>))"
    by (rule keepsK_modK) (rule assms(2))
  ultimately show ?thesis
    unfolding turn_def by (cases e) (auto intro: pf keeps)
qed

lemma turn_total: "\<exists>s'. turn Os C e s = Ret ((), s')"
  by (cases e) (simp_all add: turn_def handle_def do_work_def Let_def run_simps)

lemma turn_quiet:
  assumes "turn Os C e s = Ret (r, s')"
  shows "sent s' = sent s \<and> files s' = files s"
  using keepsKD [OF keeps_turn [of "\<lambda>x. sent x = sent s \<and> files x = files s"] assms] by simp

lemma main_loop_quiet:
  "\<exists>stop s'. main_loop Os C es s = Ret (stop, s') \<and> sent s' = sent s \<and> files s' = files s"
proof (induction es arbitrary: s)
  case Nil
  then show ?case by (simp add: run_simps)
next
  case (Cons e es)
  obtain s1 where s1: "turn Os C e s = Ret ((), s1)" using turn_total by blast
  then show ?case
    using Cons [of s1] turn_quiet [OF s1] by (auto simp: run_simps)
qed

text \<open>The answers of the helper to one message of the module, as the module's parameter \<open>user\<close>.\<close>

definition helper_user :: "os \<Rightarrow> config \<Rightarrow> helper_state \<Rightarrow> cn_msg \<Rightarrow> cn_msg list" where
  "helper_user Os C s m =
    (case turn Os C (Recv \<lparr>nlmsg_len = of_nat (NLMSG_SPACE Os (os_sizeof_cn_msg Os + unat (msg_len m))),
          nlmsg_type = NLMSG_DONE Os, nlmsg_flags = 0, nlmsg_seq = msg_seq m, nlmsg_pid = 0,
          nlmsg_data = m\<rparr>) s of
       Ret (_, s') \<Rightarrow> map nlmsg_data (drop (length (sent s)) (sent s'))
     | _ \<Rightarrow> [])"

lemma helper_user_silent: "helper_user Os C s m = []"
  unfolding helper_user_def by (auto split: outcome.split dest!: turn_quiet)

section \<open>netlink\_send\<close>

lemma netlink_send_run:
  assumes "NLMSG_SPACE Os (os_sizeof_cn_msg Os + unat (msg_len msg)) \<le> 2048"
    "nlmsg_hdrlen Os + (os_sizeof_cn_msg Os + unat (msg_len msg)) \<le> 2048"
  shows "\<exists>s'. netlink_send Os msg s = Ret (send_ret Os (nl_message Os msg (seq s)), s')
    \<and> seq s' = seq s + 1 \<and> files s' = files s
    \<and> sent s' = sent s @ (if send_ret Os (nl_message Os msg (seq s)) = -1 then [] else [nl_message Os msg (seq s)])"
  using assms by (simp add: netlink_send_def Let_def run_simps not_less [symmetric])

lemma netlink_send_overrun:
  assumes "2048 < NLMSG_SPACE Os (os_sizeof_cn_msg Os + unat (msg_len msg))"
  shows "netlink_send Os msg s = Crash OutOfBounds"
  using assms by (simp add: netlink_send_def Let_def run_simps)

text \<open>Several messages in a row.\<close>

fun send_all :: "os \<Rightarrow> cn_msg list \<Rightarrow> (helper_state, unit) km" where
  "send_all Os [] = retK ()"
| "send_all Os (m # ms) = thenK (netlink_send Os m) (send_all Os ms)"

abbreviation fits :: "os \<Rightarrow> cn_msg \<Rightarrow> bool" where
  "fits Os m \<equiv> NLMSG_SPACE Os (os_sizeof_cn_msg Os + unat (msg_len m)) \<le> 2048"

lemma fits_run:
  assumes "\<And>n. nlmsg_hdrlen Os + n \<le> NLMSG_SPACE Os n" "fits Os m"
  shows "\<exists>r s'. netlink_send Os m s = Ret (r, s') \<and> seq s' = seq s + 1 \<and> files s' = files s
    \<and> sent s' = sent s @ filter (\<lambda>x. send_ret Os x \<noteq> -1) [nl_message Os m (seq s)]"
proof -
  have "nlmsg_hdrlen Os + (os_sizeof_cn_msg Os + unat (msg_len m)) \<le> 2048"
    using assms order_trans by blast
  from netlink_send_run [OF assms(2) this, of s] show ?thesis by auto
qed

lemma send_all_run:
  assumes hdr: "\<And>n. nlmsg_hdrlen Os + n \<le> NLMSG_SPACE Os n"
  shows "list_all (fits Os) msgs \<Longrightarrow> \<exists>s'. send_all Os msgs s = Ret ((), s')
    \<and> seq s' = seq s + of_nat (length msgs) \<and> files s' = files s
    \<and> sent s' = sent s @ filter (\<lambda>m. send_ret Os m \<noteq> -1)
        (map (\<lambda>i. nl_message Os (msgs ! i) (seq s + of_nat i)) [0..<length msgs])"
proof (induction msgs arbitrary: s)
  case Nil
  then show ?case by (simp add: run_simps)
next
  case (Cons m ms)
  from Cons.prems have m: "fits Os m" "list_all (fits Os) ms" by simp_all
  obtain r s1 where s1: "netlink_send Os m s = Ret (r, s1)" "seq s1 = seq s + 1" "files s1 = files s"
      "sent s1 = sent s @ filter (\<lambda>x. send_ret Os x \<noteq> -1) [nl_message Os m (seq s)]"
    using fits_run [OF hdr m(1), of s] by (elim exE conjE)
  have idx: "[0..<length (m # ms)] = 0 # map Suc [0..<length ms]"
    by (simp add: map_Suc_upt upt_conv_Cons del: upt_Suc)
  from Cons.IH [OF m(2), of s1] show ?case
    unfolding idx using s1 by (auto simp: thenK_Ret [where m = "netlink_send Os m" and s = s, OF s1(1)] comp_def add.assoc)
qed

lemma send_all_overrun:
  assumes hdr: "\<And>n. nlmsg_hdrlen Os + n \<le> NLMSG_SPACE Os n"
  shows "\<not> list_all (fits Os) msgs \<Longrightarrow> send_all Os msgs s = Crash OutOfBounds"
proof (induction msgs arbitrary: s)
  case (Cons m ms)
  show ?case
  proof (cases "fits Os m")
    case True
    obtain r s1 where "netlink_send Os m s = Ret (r, s1)" using fits_run [OF hdr True, of s] by blast
    with Cons True show ?thesis by (simp add: run_simps)
  next
    case False
    then show ?thesis by (simp add: run_simps netlink_send_overrun)
  qed
qed simp

section \<open>The size argument\<close>

definition decimal_string :: "nat \<Rightarrow> string" where
  "decimal_string n = map (\<lambda>b. char_of (unat b)) (decimal n)"

lemma decimal_digits: "b \<in> set (decimal n) \<Longrightarrow> 48 \<le> unat b \<and> unat b \<le> 57"
proof (induction n rule: decimal.induct)
  case (1 n)
  show ?case
  proof (cases "n < 10")
    case True
    with 1(2) show ?thesis using unat_digit [OF True]
      by (simp add: decimal.simps [of n] del: of_nat_add)
  next
    case False
    have "n mod 10 < 10" by simp
    from unat_digit [OF this] show ?thesis
      using 1 False by (auto simp: decimal.simps [of n] simp del: of_nat_add)
  qed
qed

lemma of_char_digit: "b \<in> set (decimal n) \<Longrightarrow> (of_char (char_of (unat b) :: char) :: nat) = unat b"
  using decimal_digits [of b n] by simp

lemma decimal_string_chars:
  assumes "c \<in> set (decimal_string n)"
  shows "is_digit c" "\<not> is_blank c" "c \<noteq> CHR ''-''" "c \<noteq> CHR ''+''"
proof -
  from assms obtain b where b: "b \<in> set (decimal n)" "c = char_of (unat b)"
    by (auto simp: decimal_string_def)
  then have v: "of_char c = unat b" using of_char_digit by simp
  then show "is_digit c" "\<not> is_blank c"
    using decimal_digits [OF b(1)] by (auto simp: is_digit_def is_blank_def)
  show "c \<noteq> CHR ''-''" "c \<noteq> CHR ''+''"
    using v decimal_digits [OF b(1)] by auto
qed

lemma digits_value_decimal: "digits_value (decimal_string n) = int n"
proof -
  have "foldl (\<lambda>a c. 10 * a + (int (of_char c) - 48)) (int a) (map (\<lambda>b. char_of (unat b)) bs)
      = int (foldl (\<lambda>a b. 10 * a + (unat b - 48)) a bs)"
    if "\<forall>b \<in> set bs. 48 \<le> unat b \<and> unat b \<le> 57" for bs :: "byte list" and a
    using that
  proof (induction bs arbitrary: a)
    case Nil
    then show ?case by simp
  next
    case (Cons b bs)
    have eq: "10 * int a + (int (of_char (char_of (unat b) :: char)) - 48) = int (10 * a + (unat b - 48))"
      using Cons.prems by (simp add: of_nat_diff)
    show ?case
      unfolding list.map foldl_Cons eq using Cons.prems by (intro Cons.IH) simp
  qed
  from this [of "decimal n" 0] show ?thesis
    using decimal_digits [of _ n] undecimal_decimal [of n]
    by (simp add: digits_value_def decimal_string_def undecimal_def)
qed

lemma strtol_decimal:
  assumes "n < 2 ^ 63"
  shows "strtol (decimal_string n) = (int n, False)"
proof -
  let ?t = "decimal_string n"
  have ne: "?t \<noteq> []" by (simp add: decimal_string_def decimal.simps [of n])
  then have hd: "\<not> is_blank (hd ?t)" "hd ?t \<noteq> CHR ''-''" "hd ?t \<noteq> CHR ''+''"
    using decimal_string_chars [of "hd ?t" n] by simp_all
  have "dropWhile is_blank ?t = ?t"
    using hd(1) by (cases ?t) simp_all
  moreover have "takeWhile is_digit ?t = ?t"
    using decimal_string_chars(1) by (simp add: takeWhile_eq_all_conv)
  moreover have "int n \<le> 2 ^ 63 - 1" using assms by simp
  ultimately show ?thesis
    using hd by (simp add: strtol_def Let_def digits_value_decimal del: takeWhile_eq_all_conv)
qed

text \<open>The option keeps the low 32 bits of the number, as a signed \<open>int\<close>.\<close>

lemma parse_size:
  assumes "n < 2 ^ 63" "MIN_BLOCKS C \<le> sint (of_nat n :: uint)"
  shows "parse_opts C [Opt_n (decimal_string n)] sz s = Ret (Some (sint (of_nat n :: uint)), s)"
  using assms by (simp add: strtol_decimal Let_def run_simps not_less [symmetric])

lemma parse_size_small:
  assumes "n < 2 ^ 63" "sint (of_nat n :: uint) < MIN_BLOCKS C"
  shows "\<exists>s'. parse_opts C (Opt_n (decimal_string n) # opts) sz s = Ret (None, s') \<and> files s' = files s"
  using assms by (simp add: strtol_decimal Let_def run_simps usage_def)

section \<open>main\<close>

lemma serve_quiet:
  "\<exists>r s'. serve Os C es u s = Ret (r, s') \<and> files s' = files s \<and> sent s' = sent s"
proof -
  let ?s = "s\<lparr>out := out s @ [(''subscribing to %u.%u\<newline>'', [PNum (uint (u + 3)), PNum 0x456])]\<rparr>"
  obtain stop s1 where "main_loop Os C es ?s = Ret (stop, s1)" "sent s1 = sent s" "files s1 = files s"
    using main_loop_quiet [of Os C es ?s] by auto
  then show ?thesis
    by (simp add: serve_def run_simps)
qed

text \<open>Started on an existing image without \<open>-n\<close>, the helper leaves it as it is and sends nothing,
  whatever messages arrive.\<close>

lemma open_pid_file_run:
  "\<exists>s'. open_pid_file Os s = Ret ((), s') \<and> files s \<subseteq>\<^sub>m files s' \<and> dom (files s') \<subseteq> insert pid_file (dom (files s))
    \<and> sent s' = sent s \<and> seq s' = seq s"
  by (auto simp: open_pid_file_def run_simps map_le_def split: option.splits)

lemma main_keeps_image:
  assumes "files s f = Some img"
  shows "\<exists>r s'. helper_main Os C u [] (f # rest) es s = Ret (r, s') \<and> sent s' = sent s
    \<and> files s \<subseteq>\<^sub>m files s' \<and> dom (files s') \<subseteq> insert pid_file (dom (files s))"
proof -
  obtain s0 where s0: "open_pid_file Os s = Ret ((), s0)" "files s \<subseteq>\<^sub>m files s0"
      "dom (files s0) \<subseteq> insert pid_file (dom (files s))" "sent s0 = sent s"
    using open_pid_file_run [of Os s] by auto
  have "files s0 f = Some img" using s0(2) assms by (metis map_le_def domI)
  then have "fopen_append Os f s0 = Ret (fopen_ok Os f ''a+b'', s0)"
    by (simp add: fopen_append_def fun_upd_idem)
  then show ?thesis
    using s0 serve_quiet [of Os C es u s0] by (auto simp: helper_main_def run_simps)
qed

text \<open>Started with a size it makes a new image and then serves: the image holds only zeros.\<close>

lemma main_formats:
  assumes os: "os_healthy Os" "flock_rc Os = 0" and bs: "8 \<le> BLOCK_SIZE C"
    and n: "0 < n" "int n + int (BLOCK_SIZE C) \<le> int INT_MAX" "MIN_BLOCKS C \<le> int n"
  shows "\<exists>r s' s0. helper_main Os C u [Opt_n (decimal_string n)] (f # rest) es s = Ret (r, s') \<and> sent s' = sent s
    \<and> open_pid_file Os s = Ret ((), s0)
    \<and> files s' = (files s0)(f \<mapsto> replicate (8 * (1 + (n - 1) div BLOCK_SIZE C)) 0)"
proof -
  obtain s0 where s0: "open_pid_file Os s = Ret ((), s0)" "sent s0 = sent s"
    using open_pid_file_run [of Os s] by auto
  let ?img = "replicate (8 * (1 + (n - 1) div BLOCK_SIZE C)) 0 :: byte list"
  let ?s1 = "s0\<lparr>files := (files s0)(f \<mapsto> ?img)\<rparr>"
  have small: "n \<le> 2147483647" using n(2) by (simp add: INT_MAX_def)
  then have v: "sint (of_nat n :: uint) = int n"
    by (simp add: signed_of_nat signed_take_bit_int_eq_self)
  have p: "parse_opts C [Opt_n (decimal_string n)] 0 s0 = Ret (Some (int n), s0)"
    using parse_size [of n C 0 s0] small n(3) v by simp
  have "nat ((int n - 1) div int (BLOCK_SIZE C)) = (n - 1) div BLOCK_SIZE C"
    using n(1) by (simp add: of_nat_diff [symmetric, of 1 n, simplified] nat_div_distrib nat_diff_distrib)
  then have fm: "format Os C f (int n) s0 = Ret (1, ?s1)"
    using format_run [OF os(1) bs, of "int n" f s0] n by simp
  have "fopen_append Os f ?s1 = Ret (True, ?s1)"
    using os(1) by (simp add: fopen_append_def os_healthy_def)
  then show ?thesis
    using s0 p fm n(1) os(2) serve_quiet [of Os C es u ?s1] by (auto simp: helper_main_def run_simps)
qed

section \<open>Properties\<close>

definition sample_os :: os where
  "sample_os =
    \<lparr>calloc_ok = (\<lambda>_. True), fopen_ok = (\<lambda>_ _. True), fwrite_count = (\<lambda>_ n. n), fclose_ok = (\<lambda>_. True), open_ok = (\<lambda>_. True),
     fseek_ok = (\<lambda>n. 0 \<le> n), send_ret = (\<lambda>_. 1), getpid = 4711, flock_rc = 0, flock_wouldblock = False,
     socket_ret = 5, bind_ret = 0, close_ret = 0, NLMSG_SPACE = (\<lambda>n. align_up (n + 16) 4),
     nlmsg_hdrlen = 16, os_sizeof_cn_msg = 20, NLMSG_ERROR = 2, NLMSG_DONE = 3, cn_msg_bytes = msg_data\<rparr>"

definition sample_config :: config where
  "sample_config = \<lparr>BLOCK_SIZE = 1024, MIN_BLOCKS = 6, OPCODE_READ = 0, OPCODE_WRITE = 1, OPCODE_NOTIFY = 2,
     opcode_of = (\<lambda>b. uint (hd b)), address_of = (\<lambda>b. int (undecimal (tl b)))\<rparr>"

definition sample_helper :: helper_state where
  "sample_helper = \<lparr>files = (\<lambda>_. None), out = [], sent = [], seq = 0, need_exit = False\<rparr>"

lemma sample_os_healthy [simp]: "os_healthy sample_os"
  by (simp add: os_healthy_def sample_os_def)

text \<open>C14. A new image of size \<open>sz\<close> consists of zero bytes only, eight for the superblock and eight for every
  further multiple of the block size below \<open>sz\<close>: the sizes written are those of pointers, and the size
  is taken as bytes although the option promises kilobytes.\<close>

theorem formatted_image:
  assumes "os_healthy Os" "8 \<le> BLOCK_SIZE C" "0 < sz" "sz + int (BLOCK_SIZE C) \<le> int INT_MAX"
  shows "format Os C f sz s = Ret (1, s\<lparr>files := (files s)(f \<mapsto>
    replicate (8 * (1 + nat ((sz - 1) div int (BLOCK_SIZE C)))) 0)\<rparr>)"
  using format_run [OF assms] .

theorem formatted_image_witness:
  "format sample_os sample_config ''disk'' 4096 sample_helper
    = Ret (1, sample_helper\<lparr>files := (files sample_helper)(''disk'' \<mapsto> replicate 32 0)\<rparr>)"
  using formatted_image [of sample_os sample_config 4096 "''disk''" sample_helper]
  by (simp add: sample_config_def INT_MAX_def)

text \<open>C29. Started on an existing image without \<open>-n\<close>, the helper returns or goes on serving without sending
  any message, whatever messages it receives: every file keeps its contents, and the only file it can
  make is its pid file.\<close>

theorem helper_keeps_image:
  assumes "files s f = Some img"
  shows "\<exists>r s'. helper_main Os C u [] (f # rest) es s = Ret (r, s') \<and> sent s' = sent s
    \<and> files s \<subseteq>\<^sub>m files s' \<and> dom (files s') \<subseteq> insert pid_file (dom (files s))"
  using main_keeps_image [OF assms] .

theorem helper_keeps_image_witness:
  "\<exists>r s'. helper_main sample_os sample_config 11 [] [''disk''] [Poll_error True, Recv_error, Poll_timeout]
      (sample_helper\<lparr>files := [''disk'' \<mapsto> [1, 2, 3]]\<rparr>) = Ret (r, s') \<and> files s' ''disk'' = Some [1, 2, 3]"
  using helper_keeps_image [of "sample_helper\<lparr>files := [''disk'' \<mapsto> [1, 2, 3]]\<rparr>" "''disk''" "[1, 2, 3]"
      sample_os sample_config 11 "[]" "[Poll_error True, Recv_error, Poll_timeout]"] by (auto simp: map_le_def)

text \<open>C15. Started with \<open>-n\<close> and a number, the helper makes an image of that name and then serves: whatever it
  receives, the image stays the zeros that \<open>format\<close> wrote, eight bytes and eight more for every further
  block size below the number, no message is sent, and no file but the image and the pid file is
  touched.\<close>

theorem new_disk_image:
  assumes "os_healthy Os" "flock_rc Os = 0" "8 \<le> BLOCK_SIZE C"
    "0 < n" "int n + int (BLOCK_SIZE C) \<le> int INT_MAX" "MIN_BLOCKS C \<le> int n"
  shows "\<exists>r s'. helper_main Os C u [Opt_n (decimal_string n)] (f # rest) es s = Ret (r, s') \<and> sent s' = sent s
    \<and> files s' f = Some (replicate (8 * (1 + (n - 1) div BLOCK_SIZE C)) 0)
    \<and> files s |` (- {f}) \<subseteq>\<^sub>m files s' \<and> dom (files s') \<subseteq> {f, pid_file} \<union> dom (files s)"
proof -
  obtain r s' s0 where s': "helper_main Os C u [Opt_n (decimal_string n)] (f # rest) es s = Ret (r, s')"
      "sent s' = sent s" "open_pid_file Os s = Ret ((), s0)"
      "files s' = (files s0)(f \<mapsto> replicate (8 * (1 + (n - 1) div BLOCK_SIZE C)) 0)"
    using main_formats [OF assms] by blast
  have s0: "files s \<subseteq>\<^sub>m files s0" "dom (files s0) \<subseteq> insert pid_file (dom (files s))"
    using open_pid_file_run [of Os s] s'(3) by auto
  then have "files s |` (- {f}) \<subseteq>\<^sub>m files s'" "dom (files s') \<subseteq> {f, pid_file} \<union> dom (files s)"
    unfolding s'(4) by (auto simp: map_le_def restrict_map_def)
  with s' show ?thesis by auto
qed

theorem new_disk_image_witness:
  "\<exists>r s'. helper_main sample_os sample_config 11 [Opt_n (decimal_string 4096)] [''disk''] [Recv_error] sample_helper
      = Ret (r, s') \<and> files s' ''disk'' = Some (replicate 32 0)"
proof -
  have c: "flock_rc sample_os = 0" "8 \<le> BLOCK_SIZE sample_config" "0 < (4096::nat)"
      "int 4096 + int (BLOCK_SIZE sample_config) \<le> int INT_MAX" "MIN_BLOCKS sample_config \<le> int 4096"
    and b: "8 * (1 + (4096 - 1) div BLOCK_SIZE sample_config) = 32"
    by (simp_all add: sample_os_def sample_config_def INT_MAX_def)
  from new_disk_image [OF sample_os_healthy c, of 11 "''disk''" "[]" "[Recv_error]" sample_helper]
  show ?thesis unfolding b by blast
qed

text \<open>C30. The size given with \<open>-n\<close> is the low 32 bits of the number as a signed \<open>int\<close>: it is accepted when
  that is at least the minimum, and refused otherwise, without touching a file.\<close>

theorem size_option_wraps:
  assumes "n < 2 ^ 63"
  shows "\<exists>s'. parse_opts C [Opt_n (decimal_string n)] 0 s =
      Ret (if sint (of_nat n :: uint) < MIN_BLOCKS C then None else Some (sint (of_nat n :: uint)), s')
    \<and> files s' = files s"
proof (cases "sint (of_nat n :: uint) < MIN_BLOCKS C")
  case True
  then show ?thesis using parse_size_small [OF assms True, of "[]" 0 s] by auto
next
  case False
  then show ?thesis using parse_size [OF assms, of C 0 s] by auto
qed

theorem size_option_wraps_witness:
  "\<exists>s'. parse_opts sample_config [Opt_n (decimal_string 4294967304)] 0 sample_helper = Ret (Some 8, s')"
  using size_option_wraps [of 4294967304 sample_config sample_helper] by (auto simp: sample_config_def)

text \<open>C31. Sending several messages one after another: when each of them fits the 2048-byte buffer, the socket is
  given exactly these messages, unchanged and in order, with the sequence numbers that follow the
  last one used (also when an earlier \<open>send\<close> failed), the length of each and the number of the process;
  as soon as one does not fit, its copy overruns the buffer.\<close>

theorem netlink_send_numbered:
  assumes "\<And>n. nlmsg_hdrlen Os + n \<le> NLMSG_SPACE Os n"
  shows "if list_all (\<lambda>m. NLMSG_SPACE Os (os_sizeof_cn_msg Os + unat (msg_len m)) \<le> 2048) msgs
    then \<exists>s'. send_all Os msgs s = Ret ((), s') \<and> seq s' = seq s + of_nat (length msgs) \<and> files s' = files s
      \<and> sent s' = sent s @ filter (\<lambda>m. send_ret Os m \<noteq> -1) (map (\<lambda>i.
          \<lparr>nlmsg_len = of_nat (NLMSG_SPACE Os (os_sizeof_cn_msg Os + unat (msg_len (msgs ! i)))),
           nlmsg_type = NLMSG_DONE Os, nlmsg_flags = 0, nlmsg_seq = seq s + of_nat i,
           nlmsg_pid = getpid Os, nlmsg_data = msgs ! i\<rparr>) [0..<length msgs])
    else send_all Os msgs s = Crash OutOfBounds"
  using send_all_run [OF assms, of msgs s] send_all_overrun [OF assms, of msgs s]
  by (auto simp: nl_message_def)

theorem netlink_send_numbered_witness:
  "\<exists>s'. send_all sample_os [\<lparr>msg_id = (14, 0x456), msg_seq = 1, msg_ack = 0, msg_len = 1, msg_data = [9]\<rparr>,
      \<lparr>msg_id = (14, 0x456), msg_seq = 1, msg_ack = 0, msg_len = 0, msg_data = []\<rparr>] (sample_helper\<lparr>seq := 4294967295\<rparr>)
      = Ret ((), s') \<and> map nlmsg_seq (sent s') = [4294967295, 0]"
proof -
  have h: "nlmsg_hdrlen sample_os + n \<le> NLMSG_SPACE sample_os n" for n
    using align_up_ge [of 4 "n + 16"] by (simp add: sample_os_def)
  let ?ms = "[\<lparr>msg_id = (14, 0x456), msg_seq = 1, msg_ack = 0, msg_len = 1, msg_data = [9]\<rparr>,
      \<lparr>msg_id = (14, 0x456), msg_seq = 1, msg_ack = 0, msg_len = 0, msg_data = []\<rparr>] :: cn_msg list"
  have "list_all (\<lambda>m. NLMSG_SPACE sample_os (os_sizeof_cn_msg sample_os + unat (msg_len m)) \<le> 2048) ?ms"
    by (simp add: sample_os_def align_up_def)
  then show ?thesis
    using netlink_send_numbered [of sample_os, OF h, of ?ms "sample_helper\<lparr>seq := 4294967295\<rparr>"]
    by (auto simp: sample_helper_def) (auto simp: sample_os_def)
qed

end
