(* ===== verification/Ramfs.thy ===== *)
theory Ramfs
  imports Super
begin

text \<open>
  The test module \<open>src/ramfs_test/sjfs_ram.c\<close>: a file system in memory whose handlers log their
  arguments and forward to the kernel's library, except for \<open>read\<close>, \<open>write\<close>, \<open>mkdir\<close> and
  \<open>symlink\<close>, which fail on purpose. Names that clash with those of \<open>sjfs.c\<close> have the prefix \<open>ram_\<close>.

  Pointer arguments that the source tests for \<open>NULL\<close> are options. A forwarded call appears in
  \<open>calls\<close> under the name of the library function.
\<close>

section \<open>State and logging\<close>

record ram_state = kstate +
  ram_once :: bool

record kfile =
  f_path_dentry :: "dentry option"

record iov_iter =
  iter_type :: int
  iov_offset :: int
  iter_count :: int

record address_space =
  as_host :: "kinode option"

definition quoted :: string where
  "quoted = [CHR 0x22] @ ''%s'' @ [CHR 0x22]"

definition log_file_path :: "kfile option \<Rightarrow> ('a kstate_scheme, unit) km" where
  "log_file_path f = (case Option.bind f (\<lambda>f. Option.bind (f_path_dentry f) d_name) of
       Some name \<Rightarrow> printk (''--- file.path: '' @ quoted @ '');\<newline>'') [PStr name]
     | None \<Rightarrow> printk ''--- file.path: NULL);\<newline>'' [])"

definition log_dir :: "kinode option \<Rightarrow> ('a kstate_scheme, unit) km" where
  "log_dir dir = (case dir of
       Some d \<Rightarrow> printk ''--- dir.ino:%lu\<newline>'' [PNum (uint (i_ino d))]
     | None \<Rightarrow> printk ''--- dir.ino:NULL\<newline>'' [])"

definition log_dentry :: "dentry option \<Rightarrow> ('a kstate_scheme, unit) km" where
  "log_dentry d = (case Option.bind d d_name of
       Some name \<Rightarrow> printk (''--- dentry.name: '' @ quoted @ ''\<newline>'') [PStr name]
     | None \<Rightarrow> printk ''--- dentry.name: NULL\<newline>'' [])"

definition log_iter :: "string \<Rightarrow> iov_iter option \<Rightarrow> ('a kstate_scheme, unit) km" where
  "log_iter var it = (case it of
       Some i \<Rightarrow> thenK (printk (''--- '' @ var @ ''.type: %i\<newline>'') [PNum (iter_type i)])
         (thenK (printk (''--- '' @ var @ ''.iov_offset: %i\<newline>'') [PNum (iov_offset i)])
           (printk (''--- '' @ var @ ''.count: %i\<newline>'') [PNum (iter_count i)]))
     | None \<Rightarrow> printk (''--- '' @ var @ '': NULL\<newline>'') [])"

definition log_mapping :: "address_space option \<Rightarrow> ('a kstate_scheme, unit) km" where
  "log_mapping m = (case Option.bind m as_host of
       Some host \<Rightarrow> printk ''--- mapping.host: %lu\<newline>'' [PNum (uint (i_ino host))]
     | None \<Rightarrow> printk ''--- mapping.host: NULL\<newline>'' [])"

text \<open>A handler that writes one line and returns what a library function returns.\<close>

definition forward :: "kernel \<Rightarrow> string \<Rightarrow> kcall \<Rightarrow> ('a kstate_scheme, int) km" where
  "forward K line c = thenK (printk (line @ ''\<newline>'') []) (kcall K c)"

lemma forward_run [run_simps]:
  "forward K line c s = Ret (kret K (calls s) c,
     s\<lparr>klog := klog s @ [(line @ ''\<newline>'', [])], calls := calls s @ [c]\<rparr>)"
  by (simp add: forward_def run_simps)

section \<open>File operations\<close>

definition ram_read :: "nat \<Rightarrow> int \<Rightarrow> (ram_state, int) km" where
  "ram_read count pos = thenK (printk ''%s\<newline>'' [PStr ''sjfs_read'']) (retK (- EFAULT))"

definition ram_write :: "byte list \<Rightarrow> nat \<Rightarrow> int \<Rightarrow> (ram_state, int) km" where
  "ram_write from count ppos = thenK (printk ''%s\<newline>'' [PStr ''sjfs_write'']) (retK (- EFAULT))"

definition ram_fops_read_iter :: "kernel \<Rightarrow> kfile option \<Rightarrow> iov_iter option \<Rightarrow> (ram_state, int) km" where
  "ram_fops_read_iter K ki_filp iter =
     thenK (printk ''sjfs_fops_read_iter -> generic_file_read_iter(\<newline>'' [])
    (thenK (log_file_path ki_filp)
    (thenK (log_iter ''iter'' iter)
    (thenK (printk '');\<newline>'' [])
           (kcall K (Generic_call ''generic_file_read_iter'')))))"

definition ram_fops_write_iter :: "kernel \<Rightarrow> kfile option \<Rightarrow> iov_iter option \<Rightarrow> (ram_state, int) km" where
  "ram_fops_write_iter K ki_filp from =
     thenK (printk ''sjfs_fops_write_iter -> generic_file_write_iter(\<newline>'' [])
    (thenK (log_file_path ki_filp)
    (thenK (log_iter ''from'' from)
    (thenK (printk '');\<newline>'' [])
           (kcall K (Generic_call ''generic_file_write_iter'')))))"

definition ram_fops_mmap :: "kernel \<Rightarrow> (ram_state, int) km" where
  "ram_fops_mmap K = forward K ''sjfs_fops_mmap -> generic_file_mmap'' (Generic_call ''generic_file_mmap'')"

definition ram_fops_fsync :: "kernel \<Rightarrow> (ram_state, int) km" where
  "ram_fops_fsync K = forward K ''sjfs_fops_fsync -> noop_fsync'' (Generic_call ''noop_fsync'')"

definition ram_fops_splice_read :: "kernel \<Rightarrow> (ram_state, int) km" where
  "ram_fops_splice_read K =
     forward K ''sjfs_fops_splice_read -> generic_file_splice_read'' (Generic_call ''generic_file_splice_read'')"

definition ram_fops_splice_write :: "kernel \<Rightarrow> (ram_state, int) km" where
  "ram_fops_splice_write K =
     forward K ''sjfs_fops_splice_write -> iter_file_splice_write'' (Generic_call ''iter_file_splice_write'')"

definition ram_fops_llseek :: "kernel \<Rightarrow> (ram_state, int) km" where
  "ram_fops_llseek K = forward K ''sjfs_fops_llseek -> generic_file_llseek'' (Generic_call ''generic_file_llseek'')"

text \<open>An operation table lists its slots in the order of the source.\<close>

type_synonym op_table = "(string \<times> string) list"

definition ram_file_operations :: op_table where
  "ram_file_operations =
    [(''read_iter'', ''sjfs_fops_read_iter''), (''write_iter'', ''sjfs_fops_write_iter''),
     (''mmap'', ''sjfs_fops_mmap''), (''fsync'', ''sjfs_fops_fsync''),
     (''splice_read'', ''sjfs_fops_splice_read''), (''splice_write'', ''sjfs_fops_splice_write''),
     (''llseek'', ''sjfs_fops_llseek''), (''read'', ''sjfs_read''), (''write'', ''sjfs_write'')]"

section \<open>Directory file operations\<close>

definition ram_dir_fops_open :: "kernel \<Rightarrow> kinode option \<Rightarrow> kfile option \<Rightarrow> (ram_state, int) km" where
  "ram_dir_fops_open K dir file =
     thenK (printk ''sjfs_dir_fops_open -> dcache_dir_open(\<newline>'' [])
    (thenK (log_dir dir)
    (thenK (log_file_path file)
           (kcall K (Generic_call ''dcache_dir_open''))))"

definition ram_dir_fops_release :: "kernel \<Rightarrow> kinode option \<Rightarrow> kfile option \<Rightarrow> (ram_state, int) km" where
  "ram_dir_fops_release K dir file =
     thenK (printk ''sjfs_dir_fops_release -> dcache_dir_close(\<newline>'' [])
    (thenK (log_dir dir)
    (thenK (log_file_path file)
           (kcall K (Generic_call ''dcache_dir_close''))))"

definition ram_dir_fops_llseek :: "kernel \<Rightarrow> (ram_state, int) km" where
  "ram_dir_fops_llseek K = forward K ''sjfs_dir_fops_llseek -> dcache_dir_lseek'' (Generic_call ''dcache_dir_lseek'')"

definition ram_dir_fops_read :: "kernel \<Rightarrow> (ram_state, int) km" where
  "ram_dir_fops_read K = forward K ''sjfs_dir_fops_read -> generic_read_dir'' (Generic_call ''generic_read_dir'')"

definition ram_dir_fops_iterate :: "kernel \<Rightarrow> (ram_state, int) km" where
  "ram_dir_fops_iterate K = forward K ''sjfs_dir_fops_iterate -> dcache_readdir'' (Generic_call ''dcache_readdir'')"

definition ram_dir_fops_fsync :: "kernel \<Rightarrow> (ram_state, int) km" where
  "ram_dir_fops_fsync K = forward K ''sjfs_dir_fops_fsync -> noop_fsync'' (Generic_call ''noop_fsync'')"

definition ram_dir_operations :: op_table where
  "ram_dir_operations =
    [(''open'', ''sjfs_dir_fops_open''), (''release'', ''sjfs_dir_fops_release''),
     (''llseek'', ''sjfs_dir_fops_llseek''), (''read'', ''sjfs_dir_fops_read''),
     (''iterate'', ''sjfs_dir_fops_iterate''), (''fsync'', ''sjfs_dir_fops_fsync'')]"

section \<open>File inode operations and address space operations\<close>

definition ram_file_iops_setattr :: "kernel \<Rightarrow> dentry \<Rightarrow> (ram_state, int) km" where
  "ram_file_iops_setattr K dentry =
     forward K ''sjfs_file_iops_setattr -> simple_setattr (for testing only)'' (Simple_setattr dentry)"

definition ram_file_iops_getattr :: "kernel \<Rightarrow> dentry \<Rightarrow> (ram_state, int) km" where
  "ram_file_iops_getattr K dentry =
     forward K ''sjfs_file_iops_getattr -> simple_getattr'' (Simple_getattr dentry)"

definition ram_file_inode_operations :: op_table where
  "ram_file_inode_operations =
    [(''setattr'', ''sjfs_file_iops_setattr''), (''getattr'', ''sjfs_file_iops_getattr'')]"

definition ram_aops_readpage :: "kernel \<Rightarrow> (ram_state, int) km" where
  "ram_aops_readpage K = forward K ''sjfs_aops_readpage -> simple_readpage'' (Generic_call ''simple_readpage'')"

definition ram_aops_write_begin ::
  "kernel \<Rightarrow> kfile option \<Rightarrow> address_space option \<Rightarrow> int \<Rightarrow> uint \<Rightarrow> uint \<Rightarrow> (ram_state, int) km" where
  "ram_aops_write_begin K file mapping pos len flags =
     thenK (printk ''sjfs_aops_write_begin -> simple_write_begin(\<newline>'' [])
    (thenK (log_file_path file)
    (thenK (log_mapping mapping)
    (thenK (printk ''--- pos: %lli\<newline>'' [PNum pos])
    (thenK (printk ''--- len: %u\<newline>'' [PNum (uint len)])
    (thenK (printk ''--- flags: %u\<newline>'' [PNum (uint flags)])
    (thenK (printk ''--- pagep: ???)\<newline>'' [])
           (kcall K (Generic_call ''simple_write_begin''))))))))"

definition ram_aops_write_end ::
  "kernel \<Rightarrow> kfile option \<Rightarrow> address_space option \<Rightarrow> int \<Rightarrow> uint \<Rightarrow> uint \<Rightarrow> (ram_state, int) km" where
  "ram_aops_write_end K file mapping pos len copied =
     thenK (printk ''sjfs_aops_write_end -> simple_write_endi(\<newline>'' [])
    (thenK (log_file_path file)
    (thenK (log_mapping mapping)
    (thenK (printk ''--- pos: %lli\<newline>'' [PNum pos])
    (thenK (printk ''--- len: %u\<newline>'' [PNum (uint len)])
    (thenK (printk ''--- copied: %u\<newline>'' [PNum (uint copied)])
    (thenK (printk ''--- page: ???)\<newline>'' [])
           (kcall K (Generic_call ''simple_write_end''))))))))"

definition ramfs2_aops :: op_table where
  "ramfs2_aops =
    [(''readpage'', ''sjfs_aops_readpage''), (''write_begin'', ''sjfs_aops_write_begin''),
     (''write_end'', ''sjfs_aops_write_end'')]"

section \<open>Making inodes\<close>

text \<open>The \<open>switch\<close> on the type of the new inode, shared by the three modules that have one; the
  parameters are the tables it installs.\<close>

definition type_switch ::
  "kernel \<Rightarrow> string \<Rightarrow> string \<Rightarrow> string \<Rightarrow> string \<Rightarrow> umode_t \<Rightarrow> uint \<Rightarrow> kinode \<Rightarrow> kinode" where
  "type_switch K file_iops file_fops dir_iops dir_fops mode dev inode =
     (let t = mode AND S_IFMT in
      if t = S_IFREG then inode\<lparr>i_op := file_iops, i_fop := file_fops\<rparr>
      else if t = S_IFDIR then inc_nlink K (inode\<lparr>i_op := dir_iops, i_fop := dir_fops\<rparr>)
      else if t = S_IFLNK then inode\<lparr>i_op := ''page_symlink_inode_operations''\<rparr>
      else init_special_inode K inode mode dev)"

definition ramfs2_get_inode ::
  "kernel \<Rightarrow> kinode option \<Rightarrow> umode_t \<Rightarrow> uint \<Rightarrow> ('a kstate_scheme, kinode option) km" where
  "ramfs2_get_inode K dir mode dev =
     thenK (case dir of
        Some d \<Rightarrow> printk ''ramfs2_get_inode(sb. dir.ino:%lu, m:%#0hx, dev)\<newline>''
          [PNum (uint (i_ino d)), PNum (uint mode)]
      | None \<Rightarrow> printk ''ramfs2_get_inode(sb. dir.ino:NULL, m:%#0hx, dev)\<newline>'' [PNum (uint mode)])
    (bindK (new_inode K) (\<lambda>new. case new of
        None \<Rightarrow> retK None
      | Some inode0 \<Rightarrow>
          bindK (get_next_ino K) (\<lambda>ino.
          thenK (printk ''--- ret: %lu\<newline>'' [PNum (uint ino)])
         (let inode1 = (inode_init_owner K (inode0\<lparr>i_ino := ino\<rparr>) dir mode)\<lparr>a_ops := ''ramfs2_aops''\<rparr> in
          thenK (kcall K Mapping_set_gfp_mask)
         (thenK (kcall K Mapping_set_unevictable)
         (bindK (CURRENT_TIME K) (\<lambda>now.
          let inode2 = inode1\<lparr>i_ctime := now, i_mtime := now, i_atime := now\<rparr> in
          retK (Some (type_switch K ''sjfs_file_inode_operations'' ''sjfs_file_operations''
            ''sjfs_dir_inode_operations'' ''sjfs_dir_operations'' mode dev inode2)))))))))"

text \<open>The result is the return value and \<open>dir\<close> as the function leaves it. \<open>dir->i_sb\<close> is read
  without a test, and \<open>d_instantiate\<close> needs a dentry.\<close>

definition ramfs2_mknod ::
  "kernel \<Rightarrow> kinode option \<Rightarrow> dentry option \<Rightarrow> umode_t \<Rightarrow> uint \<Rightarrow> ('a kstate_scheme, int \<times> kinode option) km" where
  "ramfs2_mknod K dir dentry mode dev =
     thenK (printk ''ramfs2_mknod(\<newline>'' [])
    (thenK (log_dir dir)
    (thenK (log_dentry dentry)
    (thenK (printk ''--- mode: %#010hx\<newline>'' [PNum (uint mode)])
    (thenK (printk ''--- dev: ???\<newline>'' [])
    (case dir of
       None \<Rightarrow> crashK BadPointer
     | Some d \<Rightarrow>
         bindK (ramfs2_get_inode K dir mode dev) (\<lambda>new. case new of
             None \<Rightarrow> retK (- ENOSPC, dir)
           | Some inode \<Rightarrow> (case dentry of
                 None \<Rightarrow> crashK BadPointer
               | Some de \<Rightarrow>
                   thenK (kcall K (D_instantiate de inode))
                  (thenK (kcall K (Dget de))
                  (bindK (CURRENT_TIME K) (\<lambda>now.
                   retK (0, Some (d\<lparr>i_ctime := now, i_mtime := now\<rparr>))))))))))))"

definition ramfs2_create ::
  "kernel \<Rightarrow> kinode option \<Rightarrow> dentry option \<Rightarrow> umode_t \<Rightarrow> bool \<Rightarrow> ('a kstate_scheme, int \<times> kinode option) km" where
  "ramfs2_create K dir dentry mode excl =
     thenK (printk ''ramfs2_create -> ramfs2_mknod(\<newline>'' [])
    (thenK (log_dir dir)
    (thenK (log_dentry dentry)
    (thenK (printk ''--- mode: %#010hx\<newline>'' [PNum (uint mode)])
    (thenK (printk ''--- excl: %#04hhx);\<newline>'' [PNum (of_bool excl)])
           (ramfs2_mknod K dir dentry (mode OR S_IFREG) 0)))))"

definition ramfs2_mkdir :: "kinode option \<Rightarrow> dentry option \<Rightarrow> umode_t \<Rightarrow> ('a kstate_scheme, int) km" where
  "ramfs2_mkdir dir dentry mode = thenK (printk ''ramfs2_mkdir (will force error)\<newline>'' []) (retK (- ENOSPC))"

definition ramfs2_symlink :: "kinode option \<Rightarrow> dentry option \<Rightarrow> string \<Rightarrow> ('a kstate_scheme, int) km" where
  "ramfs2_symlink dir dentry symname =
     thenK (printk ''ramfs2_symlink (will force error)\<newline>'' []) (retK (- ENOSPC))"

section \<open>Directory inode operations\<close>

definition ram_dir_iops_create ::
  "kernel \<Rightarrow> kinode option \<Rightarrow> dentry option \<Rightarrow> umode_t \<Rightarrow> bool \<Rightarrow> (ram_state, int \<times> kinode option) km" where
  "ram_dir_iops_create K dir dentry mode b =
     thenK (printk ''sjfs_dir_iops_create -> ramfs2_create(\<newline>'' [])
    (thenK (log_dir dir)
    (thenK (log_dentry dentry)
    (thenK (printk ''--- mode: %#010hx\<newline>'' [PNum (uint mode)])
    (thenK (printk ''--- b?: %#04hhx);\<newline>'' [PNum (of_bool b)])
           (ramfs2_create K dir dentry mode b)))))"

text \<open>\<open>simple_lookup\<close> gets both pointers.\<close>

definition ram_dir_iops_lookup :: "kernel \<Rightarrow> kinode option \<Rightarrow> dentry option \<Rightarrow> uint \<Rightarrow> (ram_state, int) km" where
  "ram_dir_iops_lookup K dir dentry flags =
     thenK (printk ''sjfs_dir_iops_lookup -> simple_lookup(\<newline>'' [])
    (thenK (log_dir dir)
    (thenK (log_dentry dentry)
    (thenK (printk ''--- flags: %#010hx);\<newline>'' [PNum (uint flags)])
    (case (dir, dentry) of (Some d, Some de) \<Rightarrow> kcall K (Simple_lookup d de flags)
      | _ \<Rightarrow> crashK BadPointer))))"

definition ram_dir_iops_link :: "kernel \<Rightarrow> dentry \<Rightarrow> kinode \<Rightarrow> dentry \<Rightarrow> (ram_state, int) km" where
  "ram_dir_iops_link K d i d2 = forward K ''sjfs_dir_iops_link -> simple_link'' (Simple_link d i d2)"

definition ram_dir_iops_unlink :: "kernel \<Rightarrow> kinode option \<Rightarrow> dentry option \<Rightarrow> (ram_state, int) km" where
  "ram_dir_iops_unlink K dir dentry =
     thenK (printk ''sjfs_dir_iops_unlink -> simple_unlink\<newline>'' [])
    (thenK (log_dir dir)
    (thenK (log_dentry dentry)
    (case (dir, dentry) of (Some d, Some de) \<Rightarrow> kcall K (Simple_unlink d de)
      | _ \<Rightarrow> crashK BadPointer)))"

definition ram_dir_iops_symlink :: "kinode option \<Rightarrow> dentry option \<Rightarrow> string \<Rightarrow> (ram_state, int) km" where
  "ram_dir_iops_symlink i d c = thenK (printk ''sjfs_dir_iops_symlink -> ramfs2_symlink\<newline>'' []) (ramfs2_symlink i d c)"

definition ram_dir_iops_mkdir :: "kinode option \<Rightarrow> dentry option \<Rightarrow> umode_t \<Rightarrow> (ram_state, int) km" where
  "ram_dir_iops_mkdir i d u = thenK (printk ''sjfs_dir_iops_mkdir -> ramfs2_mkdir\<newline>'' []) (ramfs2_mkdir i d u)"

definition ram_dir_iops_rmdir :: "kernel \<Rightarrow> kinode \<Rightarrow> dentry \<Rightarrow> (ram_state, int) km" where
  "ram_dir_iops_rmdir K i d = forward K ''sjfs_dir_iops_rmdir -> simple_rmdir'' (Simple_rmdir i d)"

definition ram_dir_iops_mknod ::
  "kernel \<Rightarrow> kinode option \<Rightarrow> dentry option \<Rightarrow> umode_t \<Rightarrow> uint \<Rightarrow> (ram_state, int \<times> kinode option) km" where
  "ram_dir_iops_mknod K dir dentry mode dev =
     thenK (printk ''sjfs_dir_iops_mknod -> ramfs2_mknod(\<newline>'' [])
    (thenK (log_dir dir)
    (thenK (log_dentry dentry)
    (thenK (printk ''--- mode: %#010hx\<newline>'' [PNum (uint mode)])
    (thenK (printk ''--- dev: ???);\<newline>'' [])
           (ramfs2_mknod K dir dentry mode dev)))))"

definition ram_dir_iops_rename :: "kernel \<Rightarrow> kinode \<Rightarrow> dentry \<Rightarrow> kinode \<Rightarrow> dentry \<Rightarrow> (ram_state, int) km" where
  "ram_dir_iops_rename K i d i2 d2 =
     forward K ''sjfs_dir_iops_rename -> simple_rename'' (Simple_rename i d i2 d2)"

definition ram_dir_inode_operations :: op_table where
  "ram_dir_inode_operations =
    [(''create'', ''sjfs_dir_iops_create''), (''lookup'', ''sjfs_dir_iops_lookup''),
     (''link'', ''sjfs_dir_iops_link''), (''unlink'', ''sjfs_dir_iops_unlink''),
     (''symlink'', ''sjfs_dir_iops_symlink''), (''mkdir'', ''sjfs_dir_iops_mkdir''),
     (''rmdir'', ''sjfs_dir_iops_rmdir''), (''mknod'', ''sjfs_dir_iops_mknod''),
     (''rename'', ''sjfs_dir_iops_rename'')]"

section \<open>Super block, file system type, module\<close>

definition ram_sops :: op_table where
  "ram_sops = [(''drop_inode'', ''generic_delete_inode''), (''statfs'', ''simple_statfs''),
     (''show_options'', ''generic_show_options'')]"

definition ram_fill_super :: "kernel \<Rightarrow> super_block \<Rightarrow> (ram_state, int \<times> super_block) km" where
  "ram_fill_super K sb =
     thenK (printk ''sjfs_fill_super\<newline>'' [])
    (let sb1 = sb\<lparr>s_maxbytes := MAX_LFS_FILESIZE K, s_blocksize := PAGE_CACHE_SIZE K,
           s_blocksize_bits := PAGE_CACHE_SHIFT K, s_magic := SJFS_MAGIC, s_op := ''sjfs_sops'',
           s_time_gran := 1\<rparr> in
     thenK (kcall K Save_mount_options)
    (bindK (ramfs2_get_inode K None (S_IFDIR OR S_IRWXU OR S_IRGRP OR S_IXGRP OR S_IROTH OR S_IXOTH) 0)
      (\<lambda>new. case new of
         None \<Rightarrow> retK (- ENOMEM, sb1)
       | Some inode \<Rightarrow> bindK (d_make_root K (Some inode)) (\<lambda>root. case root of
             None \<Rightarrow> retK (- ENOMEM, sb1)
           | Some d \<Rightarrow> retK (0, sb1\<lparr>s_root := Some d\<rparr>)))))"

definition ram_mount :: "kernel \<Rightarrow> (ram_state, int) km" where
  "ram_mount K = forward K ''sjfs_mount -> mount_single'' (Mount_single ''sjfs_fill_super'')"

definition ram_kill_sb :: "kernel \<Rightarrow> super_block \<Rightarrow> (ram_state, unit) km" where
  "ram_kill_sb K sb =
     thenK (printk ''sjfs_kill_sb\<newline>'' [])
    (thenK (kfree (s_fs_info sb))
    (thenK (kcall K Kill_litter_super)
           (retK ())))"

definition ram_fs_type :: "string \<times> uint \<times> string \<times> string" where
  "ram_fs_type = (''sjfs_ram'', 0, ''sjfs_mount'', ''sjfs_kill_sb'')"

definition ram_init :: "kernel \<Rightarrow> (ram_state, int) km" where
  "ram_init K =
     thenK (printk ''sjfs_init\<newline>'' [])
    (bindK (getK ram_once) (\<lambda>old.
     thenK (modK (\<lambda>s. s\<lparr>ram_once := True\<rparr>))
     (if old then retK (- EBUSY) else kcall K (Register_filesystem (fst ram_fs_type)))))"

definition ram_exit :: "kernel \<Rightarrow> (ram_state, unit) km" where
  "ram_exit K =
     thenK (printk ''sjfs_exit\<newline>'' []) (thenK (kcall K (Unregister_filesystem (fst ram_fs_type))) (retK ()))"

section \<open>Making inodes, for every module that does\<close>

text \<open>
  What the operations that add a name to a directory rely on: \<open>get\<close> fails exactly when
  \<open>new_inode\<close> does, otherwise gives an inode whose operation tables follow the file type, and
  touches nothing of the module's own state.
\<close>

definition inode_tables_ok :: "string \<times> string \<Rightarrow> string \<times> string \<Rightarrow> umode_t \<Rightarrow> kinode \<Rightarrow> bool" where
  "inode_tables_ok file dir mode i \<longleftrightarrow>
     (mode AND S_IFMT = S_IFREG \<longrightarrow> (i_op i, i_fop i) = file) \<and>
     (mode AND S_IFMT = S_IFDIR \<longrightarrow> (i_op i, i_fop i) = dir) \<and>
     (mode AND S_IFMT = S_IFLNK \<longrightarrow> i_op i = ''page_symlink_inode_operations'')"

text \<open>\<open>inc_nlink\<close> changes nothing but the link count.\<close>

definition nlink_only :: "kernel \<Rightarrow> bool" where
  "nlink_only K \<longleftrightarrow> (\<forall>i. \<exists>n. inc_nlink K i = i\<lparr>i_nlink := n\<rparr>)"

lemma type_switch_tables:
  assumes "nlink_only K"
  shows "inode_tables_ok (fi, ff) (di, df) mode (type_switch K fi ff di df mode dev i)"
proof -
  obtain n where "inc_nlink K (i\<lparr>i_op := di, i_fop := df\<rparr>) = i\<lparr>i_op := di, i_fop := df\<rparr>\<lparr>i_nlink := n\<rparr>"
    using assms unfolding nlink_only_def by blast
  then show ?thesis
    by (auto simp: inode_tables_ok_def type_switch_def Let_def S_IFREG_def S_IFDIR_def S_IFLNK_def)
qed

text \<open>The common body of the operations that add an entry: \<open>mknod\<close> of every module.\<close>

definition add_entry ::
  "(kernel \<Rightarrow> kinode option \<Rightarrow> umode_t \<Rightarrow> uint \<Rightarrow> ('a kstate_scheme, kinode option) km)
    \<Rightarrow> kernel \<Rightarrow> kinode \<Rightarrow> dentry \<Rightarrow> umode_t \<Rightarrow> uint \<Rightarrow> ('a kstate_scheme, int \<times> kinode) km" where
  "add_entry get K d de mode dev = bindK (get K (Some d) mode dev) (\<lambda>new. case new of
       None \<Rightarrow> retK (- ENOSPC, d)
     | Some inode \<Rightarrow> thenK (kcall K (D_instantiate de inode)) (thenK (kcall K (Dget de))
         (bindK (CURRENT_TIME K) (\<lambda>now. retK (0, d\<lparr>i_ctime := now, i_mtime := now\<rparr>)))))"

locale inode_maker =
  fixes get :: "kernel \<Rightarrow> kinode option \<Rightarrow> umode_t \<Rightarrow> uint \<Rightarrow> ('a kstate_scheme, kinode option) km"
    and ftab dtab :: "string \<times> string"
  assumes get_none: "knew_inode K (calls s) = None \<Longrightarrow>
      \<exists>s'. get K d mode dev s = Ret (None, s') \<and> heap s' = heap s \<and> kstate.more s' = kstate.more s"
    and get_some: "knew_inode K (calls s) = Some i0 \<Longrightarrow> nlink_only K \<Longrightarrow>
      \<exists>i s'. get K d mode dev s = Ret (Some i, s') \<and> inode_tables_ok ftab dtab mode i
        \<and> heap s' = heap s \<and> kstate.more s' = kstate.more s"
begin

lemma add_entry_fails:
  assumes "knew_inode K (calls s) = None"
  shows "\<exists>s'. add_entry get K d de mode dev s = Ret ((- ENOSPC, d), s') \<and> heap s' = heap s
    \<and> kstate.more s' = kstate.more s"
  using get_none [OF assms, of "Some d" mode dev] by (auto simp: add_entry_def run_simps)

lemma add_entry_ok:
  assumes "knew_inode K (calls s) = Some i0" "nlink_only K"
  shows "\<exists>i now h s'. add_entry get K d de mode dev s = Ret ((0, d\<lparr>i_ctime := now, i_mtime := now\<rparr>), s')
    \<and> inode_tables_ok ftab dtab mode i \<and> calls s' = h @ [D_instantiate de i, Dget de, Current_time]
    \<and> heap s' = heap s \<and> kstate.more s' = kstate.more s"
  using get_some [OF assms, of "Some d" mode dev] by (fastforce simp: add_entry_def run_simps)

end

interpretation ram2: inode_maker ramfs2_get_inode
  "(''sjfs_file_inode_operations'', ''sjfs_file_operations'')"
  "(''sjfs_dir_inode_operations'', ''sjfs_dir_operations'')"
proof unfold_locales
  fix K d mode dev and s :: "'a kstate_scheme" and i0
  show "\<exists>s'. ramfs2_get_inode K d mode dev s = Ret (None, s') \<and> heap s' = heap s \<and> kstate.more s' = kstate.more s"
    if "knew_inode K (calls s) = None"
    using that by (cases d) (simp_all add: ramfs2_get_inode_def run_simps)
  show "\<exists>i s'. ramfs2_get_inode K d mode dev s = Ret (Some i, s') \<and> inode_tables_ok
      (''sjfs_file_inode_operations'', ''sjfs_file_operations'')
      (''sjfs_dir_inode_operations'', ''sjfs_dir_operations'') mode i
      \<and> heap s' = heap s \<and> kstate.more s' = kstate.more s"
    if "knew_inode K (calls s) = Some i0" "nlink_only K"
    using that type_switch_tables [OF that(2)] by (cases d) (simp_all add: ramfs2_get_inode_def run_simps Let_def)
qed

section \<open>Adding and refusing entries\<close>

text \<open>What \<open>mknod\<close> logs before it makes the inode.\<close>

definition dentry_line :: "dentry \<Rightarrow> string \<times> parg list" where
  "dentry_line de = (case d_name de of
       Some n \<Rightarrow> (''--- dentry.name: '' @ quoted @ ''\<newline>'', [PStr n])
     | None \<Rightarrow> (''--- dentry.name: NULL\<newline>'', []))"

lemma log_dentry_run [run_simps]: "log_dentry (Some de) s = Ret ((), s\<lparr>klog := klog s @ [dentry_line de]\<rparr>)"
  by (simp add: log_dentry_def dentry_line_def run_simps split: option.split)

lemma log_dir_run [run_simps]:
  "log_dir (Some d) s = Ret ((), s\<lparr>klog := klog s @ [(''--- dir.ino:%lu\<newline>'', [PNum (uint (i_ino d))])]\<rparr>)"
  by (simp add: log_dir_def run_simps)

definition mknod_log :: "kinode \<Rightarrow> dentry \<Rightarrow> umode_t \<Rightarrow> (string \<times> parg list) list" where
  "mknod_log d de mode =
    [(''ramfs2_mknod(\<newline>'', []), (''--- dir.ino:%lu\<newline>'', [PNum (uint (i_ino d))]),
     dentry_line de, (''--- mode: %#010hx\<newline>'', [PNum (uint mode)]), (''--- dev: ???\<newline>'', [])]"

text \<open>Up to the log, \<open>ramfs2_mknod\<close> is the common body.\<close>

lemma mknod_refines:
  "ramfs2_mknod K (Some d) (Some de) mode dev s =
    (case add_entry ramfs2_get_inode K d de mode dev (s\<lparr>klog := klog s @ mknod_log d de mode\<rparr>) of
       Ret ((r, d'), s') \<Rightarrow> Ret ((r, Some d'), s') | Hang \<Rightarrow> Hang | Crash e \<Rightarrow> Crash e)"
  by (auto simp: ramfs2_mknod_def add_entry_def mknod_log_def run_simps split: outcome.split option.split)

lemma ramfs2_mknod_ok:
  assumes "knew_inode K (calls s) = Some i0" "nlink_only K"
  shows "\<exists>i now h s'. ramfs2_mknod K (Some d) (Some de) mode dev s
      = Ret ((0, Some (d\<lparr>i_ctime := now, i_mtime := now\<rparr>)), s')
    \<and> inode_tables_ok (''sjfs_file_inode_operations'', ''sjfs_file_operations'')
        (''sjfs_dir_inode_operations'', ''sjfs_dir_operations'') mode i
    \<and> calls s' = h @ [D_instantiate de i, Dget de, Current_time] \<and> heap s' = heap s"
proof -
  let ?s = "s\<lparr>klog := klog s @ mknod_log d de mode\<rparr>"
  have "knew_inode K (calls ?s) = Some i0" using assms(1) by simp
  from ram2.add_entry_ok [OF this assms(2), of d de mode dev]
  show ?thesis by (fastforce simp: mknod_refines)
qed

lemma ramfs2_mknod_fails:
  assumes "knew_inode K (calls s) = None"
  shows "\<exists>s'. ramfs2_mknod K (Some d) (Some de) mode dev s = Ret ((- ENOSPC, Some d), s') \<and> heap s' = heap s"
proof -
  let ?s = "s\<lparr>klog := klog s @ mknod_log d de mode\<rparr>"
  have "knew_inode K (calls ?s) = None" using assms by simp
  from ram2.add_entry_fails [OF this, of d de mode dev]
  show ?thesis by (auto simp: mknod_refines)
qed

text \<open>\<open>create\<close> makes a regular file whatever type bits its mode has, as long as they are those of a
  regular file or none.\<close>

lemma create_mode:
  assumes "mode AND S_IFMT = 0 \<or> mode AND S_IFMT = S_IFREG"
  shows "(mode OR S_IFREG) AND S_IFMT = S_IFREG"
proof -
  have "(mode OR S_IFREG) AND S_IFMT = (mode AND S_IFMT) OR (S_IFREG AND S_IFMT)"
    by (rule bit.conj_disj_distrib2)
  moreover have "S_IFREG AND S_IFMT = S_IFREG" by (simp add: mode_defs)
  ultimately show ?thesis using assms by auto
qed

lemma create_calls_mknod:
  "\<exists>l. ram_dir_iops_create K (Some d) (Some de) mode b s
     = ramfs2_mknod K (Some d) (Some de) (mode OR S_IFREG) 0 (s\<lparr>klog := klog s @ l\<rparr>)"
  by (auto simp: ram_dir_iops_create_def ramfs2_create_def run_simps)

lemma ram_create_ok:
  assumes "knew_inode K (calls s) = Some i0" "nlink_only K"
    "mode AND S_IFMT = 0 \<or> mode AND S_IFMT = S_IFREG"
  shows "\<exists>i now h s'. ram_dir_iops_create K (Some d) (Some de) mode b s
      = Ret ((0, Some (d\<lparr>i_ctime := now, i_mtime := now\<rparr>)), s')
    \<and> i_op i = ''sjfs_file_inode_operations'' \<and> i_fop i = ''sjfs_file_operations''
    \<and> calls s' = h @ [D_instantiate de i, Dget de, Current_time]"
proof -
  obtain l where l: "ram_dir_iops_create K (Some d) (Some de) mode b s
     = ramfs2_mknod K (Some d) (Some de) (mode OR S_IFREG) 0 (s\<lparr>klog := klog s @ l\<rparr>)"
    using create_calls_mknod by blast
  have "knew_inode K (calls (s\<lparr>klog := klog s @ l\<rparr>)) = Some i0" using assms(1) by simp
  from ramfs2_mknod_ok [OF this assms(2), of d de "mode OR S_IFREG" 0] create_mode [OF assms(3)]
  show ?thesis unfolding l inode_tables_ok_def prod.inject by blast
qed

text \<open>The two operations that are switched off change nothing.\<close>

lemma ram_refuses:
  "\<exists>l. ram_dir_iops_mkdir d de mode s = Ret (- ENOSPC, s\<lparr>klog := klog s @ l\<rparr>)"
  "\<exists>l. ram_dir_iops_symlink d de name s = Ret (- ENOSPC, s\<lparr>klog := klog s @ l\<rparr>)"
  "\<exists>l. ram_read count pos s = Ret (- EFAULT, s\<lparr>klog := klog s @ l\<rparr>)"
  "\<exists>l. ram_write bs count pos s = Ret (- EFAULT, s\<lparr>klog := klog s @ l\<rparr>)"
  by (auto simp: ram_dir_iops_mkdir_def ram_dir_iops_symlink_def ramfs2_mkdir_def ramfs2_symlink_def
      ram_read_def ram_write_def run_simps)

section \<open>Mounting\<close>

lemma ram_fill_super_ok:
  assumes root: "root_available K i0" and K: "nlink_only K"
  shows "\<exists>i s' sb'. ram_fill_super K sb s = Ret ((0, sb'), s')
    \<and> s_root sb' = Some \<lparr>d_name = None, d_inode = Some i\<rparr> \<and> s_magic sb' = SJFS_MAGIC
    \<and> s_fs_info sb' = s_fs_info sb
    \<and> (i_op i, i_fop i) = (''sjfs_dir_inode_operations'', ''sjfs_dir_operations'') \<and> heap s' = heap s"
proof -
  let ?mode = "S_IFDIR OR S_IRWXU OR S_IRGRP OR S_IXGRP OR S_IROTH OR S_IXOTH"
  let ?s = "s\<lparr>klog := klog s @ [(''sjfs_fill_super\<newline>'', [])], calls := calls s @ [Save_mount_options]\<rparr>"
  have "knew_inode K (calls ?s) = Some i0" using root by (simp add: root_available_def)
  from ram2.get_some [OF this K, of None ?mode 0] obtain i s1 where
    i: "ramfs2_get_inode K None ?mode 0 ?s = Ret (Some i, s1)" "heap s1 = heap s"
      "inode_tables_ok (''sjfs_file_inode_operations'', ''sjfs_file_operations'')
        (''sjfs_dir_inode_operations'', ''sjfs_dir_operations'') ?mode i"
    by auto
  have "?mode AND S_IFMT = S_IFDIR" by (simp add: mode_defs)
  then have "(i_op i, i_fop i) = (''sjfs_dir_inode_operations'', ''sjfs_dir_operations'')"
    using i(3) by (simp add: inode_tables_ok_def)
  then show ?thesis
    using i(1,2) root by (simp add: ram_fill_super_def run_simps Let_def root_available_def)
qed

lemma ram_kill_sb_ok:
  "s_fs_info sb = 0 \<Longrightarrow> \<exists>s'. ram_kill_sb K sb s = Ret ((), s') \<and> heap s' = heap s"
  by (simp add: ram_kill_sb_def run_simps kfree_def)

interpretation raminit: load_once "ram_init K" ram_once "- EBUSY" calls
  "\<lambda>_. [Register_filesystem ''sjfs_ram'']" for K
  by unfold_locales (simp_all add: ram_init_def run_simps ram_fs_type_def)

section \<open>Properties\<close>

lemma sample_nlink_only [simp]: "nlink_only sample_kernel"
  by (auto simp: nlink_only_def sample_kernel_def)

definition sample_ram :: ram_state where
  "sample_ram = \<lparr>heap = (\<lambda>_. None), next_ptr = 1, klog = [], calls = [], ram_once = False\<rparr>"

text \<open>C33. Creating a file in the test module attaches a new inode with the file operations to the dentry, pins
  the dentry, stamps the directory with one time and returns 0.\<close>

theorem ram_create_file:
  assumes "knew_inode K (calls s) = Some i0" "nlink_only K"
    "mode AND S_IFMT = 0 \<or> mode AND S_IFMT = S_IFREG"
  shows "\<exists>i now h s'. ram_dir_iops_create K (Some d) (Some de) mode b s
      = Ret ((0, Some (d\<lparr>i_ctime := now, i_mtime := now\<rparr>)), s')
    \<and> i_op i = ''sjfs_file_inode_operations'' \<and> i_fop i = ''sjfs_file_operations''
    \<and> calls s' = h @ [D_instantiate de i, Dget de, Current_time]"
  using ram_create_ok [OF assms] .

theorem ram_create_file_witness:
  "\<exists>now s'. ram_dir_iops_create sample_kernel (Some sample_inode) (Some \<lparr>d_name = Some ''me'', d_inode = None\<rparr>)
      0x1B6 True sample_ram = Ret ((0, Some (sample_inode\<lparr>i_ctime := now, i_mtime := now\<rparr>)), s')"
proof -
  have k: "knew_inode sample_kernel (calls sample_ram) = Some sample_inode" by (simp add: sample_kernel_def)
  have m: "(0x1B6 :: umode_t) AND S_IFMT = 0 \<or> (0x1B6 :: umode_t) AND S_IFMT = S_IFREG" by (simp add: S_IFMT_def)
  from ram_create_file [OF k sample_nlink_only m, of sample_inode "\<lparr>d_name = Some ''me'', d_inode = None\<rparr>" True]
  show ?thesis by blast
qed

text \<open>When the kernel has no inode left, making a node fails with \<open>ENOSPC\<close> and leaves the directory as it
  was.\<close>

lemma ram_mknod_no_space:
  assumes "knew_inode K (calls s) = None"
  shows "\<exists>s'. ramfs2_mknod K (Some d) (Some de) mode dev s = Ret ((- ENOSPC, Some d), s') \<and> heap s' = heap s"
  using ramfs2_mknod_fails [OF assms] .

text \<open>C34. Mounting the test module gives a super block with the magic number and a root directory with the
  directory operations, and unmounting it again needs no private data.\<close>

theorem ram_mount_root:
  assumes "root_available K i0" "nlink_only K" "s_fs_info sb = 0"
  shows "\<exists>i s' sb'. ram_fill_super K sb s = Ret ((0, sb'), s')
    \<and> s_root sb' = Some \<lparr>d_name = None, d_inode = Some i\<rparr> \<and> s_magic sb' = SJFS_MAGIC
    \<and> (i_op i, i_fop i) = (''sjfs_dir_inode_operations'', ''sjfs_dir_operations'')
    \<and> (\<exists>s''. ram_kill_sb K sb' s' = Ret ((), s'') \<and> heap s'' = heap s)"
proof -
  from ram_fill_super_ok [OF assms(1,2), of sb s] obtain i s' sb' where
    m: "ram_fill_super K sb s = Ret ((0, sb'), s')" "s_root sb' = Some \<lparr>d_name = None, d_inode = Some i\<rparr>"
      "s_magic sb' = SJFS_MAGIC" "s_fs_info sb' = s_fs_info sb"
      "(i_op i, i_fop i) = (''sjfs_dir_inode_operations'', ''sjfs_dir_operations'')" "heap s' = heap s"
    by (elim exE conjE)
  from m(4) assms(3) have "s_fs_info sb' = 0" by simp
  from ram_kill_sb_ok [OF this, of K s'] obtain s'' where "ram_kill_sb K sb' s' = Ret ((), s'')" "heap s'' = heap s"
    unfolding m(6) by (elim exE conjE)
  with m show ?thesis by (intro exI [of _ i] exI [of _ s'] exI [of _ sb'] exI [of _ s''] conjI)
qed

theorem ram_mount_root_witness:
  "\<exists>i s' sb'. ram_fill_super sample_kernel sample_super sample_ram = Ret ((0, sb'), s')
    \<and> s_root sb' = Some \<lparr>d_name = None, d_inode = Some i\<rparr> \<and> i_op i = ''sjfs_dir_inode_operations''"
  using ram_mount_root [OF sample_root_available sample_nlink_only, of sample_super sample_ram]
  by (auto simp: sample_super_def)

end
