(* ===== verification/Plan_Ramfs.thy ===== *)
theory Plan_Ramfs
  imports Ramfs
begin

text \<open>
  The part that the two fallback modules \<open>src/backup_plans/a/sjfs.c\<close> and
  \<open>src/backup_plans/b/sjfs.c\<close> have word for word in common: a file system in memory on the kernel's
  library functions, with files, directories and symbolic links. The definitions work on the state
  of either module; \<open>Backup_B\<close> and \<open>Backup_A\<close> add what is different.
\<close>

section \<open>Operation tables\<close>

definition plan_file_inode_operations :: op_table where
  "plan_file_inode_operations = [(''setattr'', ''simple_setattr''), (''getattr'', ''simple_getattr'')]"

definition plan_aops :: op_table where
  "plan_aops = [(''readpage'', ''simple_readpage''), (''write_begin'', ''simple_write_begin''),
     (''write_end'', ''simple_write_end''), (''set_page_dirty'', ''sjfs_set_page_dirty_no_writeback'')]"

definition plan_dir_inode_operations :: op_table where
  "plan_dir_inode_operations =
    [(''create'', ''sjfs_create''), (''lookup'', ''simple_lookup''), (''link'', ''simple_link''),
     (''unlink'', ''simple_unlink''), (''symlink'', ''sjfs_symlink''), (''mkdir'', ''sjfs_mkdir''),
     (''rmdir'', ''simple_rmdir''), (''mknod'', ''sjfs_mknod''), (''rename'', ''simple_rename'')]"

definition plan_ops :: op_table where
  "plan_ops = [(''statfs'', ''simple_statfs''), (''drop_inode'', ''generic_delete_inode''),
     (''show_options'', ''generic_show_options'')]"

text \<open>\<open>PageDirty\<close> is the flag at the first look, \<open>old\<close> the flag that \<open>TestSetPageDirty\<close> finds; the
  second result is the flag afterwards.\<close>

definition sjfs_set_page_dirty_no_writeback :: "bool \<Rightarrow> bool \<Rightarrow> int \<times> bool" where
  "sjfs_set_page_dirty_no_writeback PageDirty old =
     (if \<not> PageDirty then (of_bool (\<not> old), True) else (0, PageDirty))"

section \<open>Inodes and directory entries\<close>

definition sjfs_get_inode ::
  "kernel \<Rightarrow> kinode option \<Rightarrow> umode_t \<Rightarrow> uint \<Rightarrow> ('a kstate_scheme, kinode option) km" where
  "sjfs_get_inode K dir mode dev =
     bindK (new_inode K) (\<lambda>new. case new of
        None \<Rightarrow> retK None
      | Some inode0 \<Rightarrow>
          bindK (get_next_ino K) (\<lambda>ino.
          let inode1 = (inode_init_owner K (inode0\<lparr>i_ino := ino\<rparr>) dir mode)\<lparr>a_ops := ''sjfs_aops''\<rparr> in
          thenK (kcall K Mapping_set_gfp_mask)
         (thenK (kcall K Mapping_set_unevictable)
         (bindK (CURRENT_TIME K) (\<lambda>now.
          let inode2 = inode1\<lparr>i_ctime := now, i_mtime := now, i_atime := now\<rparr> in
          retK (Some (type_switch K ''sjfs_file_inode_operations'' ''sjfs_file_operations''
            ''sjfs_dir_inode_operations'' ''simple_dir_operations'' mode dev inode2)))))))"

text \<open>The result is the return value and \<open>dir\<close> as the function leaves it.\<close>

definition sjfs_mknod ::
  "kernel \<Rightarrow> kinode \<Rightarrow> dentry \<Rightarrow> umode_t \<Rightarrow> uint \<Rightarrow> ('a kstate_scheme, int \<times> kinode) km" where
  "sjfs_mknod K dir dentry mode dev =
     bindK (sjfs_get_inode K (Some dir) mode dev) (\<lambda>new. case new of
        None \<Rightarrow> retK (- ENOSPC, dir)
      | Some inode \<Rightarrow>
          thenK (kcall K (D_instantiate dentry inode))
         (thenK (kcall K (Dget dentry))
         (bindK (CURRENT_TIME K) (\<lambda>now. retK (0, dir\<lparr>i_ctime := now, i_mtime := now\<rparr>)))))"

definition sjfs_mkdir ::
  "kernel \<Rightarrow> kinode \<Rightarrow> dentry \<Rightarrow> umode_t \<Rightarrow> ('a kstate_scheme, int \<times> kinode) km" where
  "sjfs_mkdir K dir dentry mode =
     bindK (sjfs_mknod K dir dentry (mode OR S_IFDIR) 0) (\<lambda>(retval, dir').
     if retval = 0 then retK (retval, inc_nlink K dir') else retK (retval, dir'))"

definition sjfs_create ::
  "kernel \<Rightarrow> kinode \<Rightarrow> dentry \<Rightarrow> umode_t \<Rightarrow> bool \<Rightarrow> ('a kstate_scheme, int \<times> kinode) km" where
  "sjfs_create K dir dentry mode excl = sjfs_mknod K dir dentry (mode OR S_IFREG) 0"

definition sjfs_symlink ::
  "kernel \<Rightarrow> kinode \<Rightarrow> dentry \<Rightarrow> string \<Rightarrow> ('a kstate_scheme, int \<times> kinode) km" where
  "sjfs_symlink K dir dentry symname =
     bindK (sjfs_get_inode K (Some dir) (S_IFLNK OR S_IRWXUGO) 0) (\<lambda>new. case new of
        None \<Rightarrow> retK (- ENOSPC, dir)
      | Some inode \<Rightarrow>
          bindK (kcall K (Page_symlink inode symname (length symname + 1))) (\<lambda>error.
          if error = 0
          then thenK (kcall K (D_instantiate dentry inode))
              (thenK (kcall K (Dget dentry))
              (bindK (CURRENT_TIME K) (\<lambda>now. retK (error, dir\<lparr>i_ctime := now, i_mtime := now\<rparr>))))
          else thenK (kcall K (Iput inode)) (retK (error, dir))))"

section \<open>Super block and file system type\<close>

definition plan_fill_super :: "kernel \<Rightarrow> super_block \<Rightarrow> ('a kstate_scheme, int \<times> super_block) km" where
  "plan_fill_super K sb =
     thenK (kcall K Save_mount_options)
    (let sb1 = sb\<lparr>s_maxbytes := MAX_LFS_FILESIZE K, s_blocksize := PAGE_CACHE_SIZE K,
           s_blocksize_bits := PAGE_CACHE_SHIFT K, s_magic := SJFS_MAGIC, s_op := ''sjfs_ops'',
           s_time_gran := 1\<rparr> in
     bindK (sjfs_get_inode K None (S_IFDIR OR 0x1ED) 0) (\<lambda>inode.
     bindK (d_make_root K inode) (\<lambda>root.
       let sb2 = sb1\<lparr>s_root := root\<rparr> in
       if root = None then retK (- ENOMEM, sb2) else retK (0, sb2))))"

definition plan_mount :: "kernel \<Rightarrow> ('a kstate_scheme, int) km" where
  "plan_mount K = kcall K (Mount_nodev ''sjfs_fill_super'')"

definition plan_kill_sb :: "kernel \<Rightarrow> ('a kstate_scheme, unit) km" where
  "plan_kill_sb K = thenK (kcall K Kill_litter_super) (retK ())"

text \<open>\<open>FS_USERNS_MOUNT\<close> is a constant of the kernel.\<close>

definition plan_fs_type :: "uint \<Rightarrow> string \<times> uint \<times> string \<times> string" where
  "plan_fs_type FS_USERNS_MOUNT = (''sjfs'', FS_USERNS_MOUNT, ''sjfs_mount'', ''sjfs_kill_sb'')"

definition cn_sjfs_id :: "kernel \<Rightarrow> uint \<times> uint" where
  "cn_sjfs_id K = (CN_NETLINK_USERS K + 3, 0x456)"

definition cn_sjfs_name :: string where
  "cn_sjfs_name = ''cn_sjfs''"

section \<open>The interface of inode makers\<close>

interpretation plan: inode_maker sjfs_get_inode
  "(''sjfs_file_inode_operations'', ''sjfs_file_operations'')"
  "(''sjfs_dir_inode_operations'', ''simple_dir_operations'')"
proof unfold_locales
  fix K d mode dev and s :: "'a kstate_scheme" and i0
  show "\<exists>s'. sjfs_get_inode K d mode dev s = Ret (None, s') \<and> heap s' = heap s \<and> kstate.more s' = kstate.more s"
    if "knew_inode K (calls s) = None"
    using that by (simp add: sjfs_get_inode_def run_simps)
  show "\<exists>i s'. sjfs_get_inode K d mode dev s = Ret (Some i, s') \<and> inode_tables_ok
      (''sjfs_file_inode_operations'', ''sjfs_file_operations'')
      (''sjfs_dir_inode_operations'', ''simple_dir_operations'') mode i
      \<and> heap s' = heap s \<and> kstate.more s' = kstate.more s"
    if "knew_inode K (calls s) = Some i0" "nlink_only K"
    using that type_switch_tables [OF that(2)] by (simp add: sjfs_get_inode_def run_simps Let_def)
qed

lemma mknod_eq_add_entry: "sjfs_mknod K = add_entry sjfs_get_inode K"
  by (intro ext) (simp add: sjfs_mknod_def add_entry_def)

text \<open>\<open>mkdir\<close> keeps the link count of the parent: one link more exactly when the entry was made.\<close>

lemma mkdir_mode:
  assumes "mode AND S_IFMT = 0 \<or> mode AND S_IFMT = S_IFDIR"
  shows "(mode OR S_IFDIR) AND S_IFMT = S_IFDIR"
proof -
  have "(mode OR S_IFDIR) AND S_IFMT = (mode AND S_IFMT) OR (S_IFDIR AND S_IFMT)"
    by (rule bit.conj_disj_distrib2)
  moreover have "S_IFDIR AND S_IFMT = S_IFDIR" by (simp add: mode_defs)
  ultimately show ?thesis using assms by auto
qed

lemma sjfs_mkdir_ok:
  assumes "knew_inode K (calls s) = Some i0" "nlink_only K"
    "mode AND S_IFMT = 0 \<or> mode AND S_IFMT = S_IFDIR"
  shows "\<exists>i now h s'. sjfs_mkdir K d de mode s = Ret ((0, inc_nlink K (d\<lparr>i_ctime := now, i_mtime := now\<rparr>)), s')
    \<and> (i_op i, i_fop i) = (''sjfs_dir_inode_operations'', ''simple_dir_operations'')
    \<and> calls s' = h @ [D_instantiate de i, Dget de, Current_time]
    \<and> heap s' = heap s \<and> kstate.more s' = kstate.more s"
proof -
  from plan.add_entry_ok [OF assms(1,2), of d de "mode OR S_IFDIR" 0] obtain i now h s' where
    a: "sjfs_mknod K d de (mode OR S_IFDIR) 0 s = Ret ((0, d\<lparr>i_ctime := now, i_mtime := now\<rparr>), s')"
      "inode_tables_ok (''sjfs_file_inode_operations'', ''sjfs_file_operations'')
        (''sjfs_dir_inode_operations'', ''simple_dir_operations'') (mode OR S_IFDIR) i"
      "calls s' = h @ [D_instantiate de i, Dget de, Current_time]"
      "heap s' = heap s" "kstate.more s' = kstate.more s"
    unfolding mknod_eq_add_entry by (elim exE conjE)
  have "sjfs_mkdir K d de mode s = Ret ((0, inc_nlink K (d\<lparr>i_ctime := now, i_mtime := now\<rparr>)), s')"
    using a(1) by (simp add: sjfs_mkdir_def run_simps)
  moreover have "(i_op i, i_fop i) = (''sjfs_dir_inode_operations'', ''simple_dir_operations'')"
    using a(2) mkdir_mode [OF assms(3)] by (simp add: inode_tables_ok_def)
  ultimately show ?thesis using a(3-5) by blast
qed

lemma sjfs_mkdir_fails:
  assumes "knew_inode K (calls s) = None"
  shows "\<exists>s'. sjfs_mkdir K d de mode s = Ret ((- ENOSPC, d), s') \<and> heap s' = heap s"
proof -
  from plan.add_entry_fails [OF assms, of d de "mode OR S_IFDIR" 0] obtain s' where
    "sjfs_mknod K d de (mode OR S_IFDIR) 0 s = Ret ((- ENOSPC, d), s')" "heap s' = heap s"
    unfolding mknod_eq_add_entry by (elim exE conjE)
  then show ?thesis by (simp add: sjfs_mkdir_def run_simps ENOSPC_def)
qed

text \<open>\<open>symlink\<close> gives the new inode back with \<open>iput\<close> when the target cannot be stored, and then neither
  touches the directory nor the dentry.\<close>

lemma sjfs_symlink_outcome:
  assumes "knew_inode K (calls s) = Some i0" "nlink_only K"
  shows "\<exists>i s1. sjfs_get_inode K (Some d) (S_IFLNK OR S_IRWXUGO) 0 s = Ret (Some i, s1) \<and>
    (let e = kret K (calls s1) (Page_symlink i name (length name + 1)) in
     \<exists>now s'. sjfs_symlink K d de name s = Ret ((e, if e = 0 then d\<lparr>i_ctime := now, i_mtime := now\<rparr> else d), s')
     \<and> calls s' = calls s1 @ Page_symlink i name (length name + 1) #
         (if e = 0 then [D_instantiate de i, Dget de, Current_time] else [Iput i]))"
proof -
  from plan.get_some [OF assms, of "Some d" "S_IFLNK OR S_IRWXUGO" 0] obtain i s1 where
    g: "sjfs_get_inode K (Some d) (S_IFLNK OR S_IRWXUGO) 0 s = Ret (Some i, s1)"
    by (elim exE conjE)
  let ?c = "Page_symlink i name (length name + 1)"
  let ?now = "ktime K (calls s1 @ [?c, D_instantiate de i, Dget de])" and ?e = "kret K (calls s1) ?c"
  have "\<exists>s'. sjfs_symlink K d de name s
        = Ret ((?e, if ?e = 0 then d\<lparr>i_ctime := ?now, i_mtime := ?now\<rparr> else d), s')
      \<and> calls s' = calls s1 @ ?c # (if ?e = 0 then [D_instantiate de i, Dget de, Current_time] else [Iput i])"
    using g by (simp add: sjfs_symlink_def run_simps)
  with g show ?thesis unfolding Let_def by blast
qed

lemma plan_fill_super_ok:
  assumes root: "root_available K i0" and K: "nlink_only K"
  shows "\<exists>i s' sb'. plan_fill_super K sb s = Ret ((0, sb'), s')
    \<and> s_root sb' = Some \<lparr>d_name = None, d_inode = Some i\<rparr> \<and> s_magic sb' = SJFS_MAGIC
    \<and> (i_op i, i_fop i) = (''sjfs_dir_inode_operations'', ''simple_dir_operations'') \<and> heap s' = heap s"
proof -
  let ?mode = "S_IFDIR OR 0x1ED" and ?s = "s\<lparr>calls := calls s @ [Save_mount_options]\<rparr>"
  have "knew_inode K (calls ?s) = Some i0" using root by (simp add: root_available_def)
  from plan.get_some [OF this K, of None ?mode 0] obtain i s1 where
    i: "sjfs_get_inode K None ?mode 0 ?s = Ret (Some i, s1)"
      "inode_tables_ok (''sjfs_file_inode_operations'', ''sjfs_file_operations'')
        (''sjfs_dir_inode_operations'', ''simple_dir_operations'') ?mode i" "heap s1 = heap ?s"
    by (elim exE conjE)
  have "?mode AND S_IFMT = S_IFDIR" by (simp add: mode_defs)
  then have "(i_op i, i_fop i) = (''sjfs_dir_inode_operations'', ''simple_dir_operations'')"
    using i(2) by (simp add: inode_tables_ok_def)
  then show ?thesis
    using i(1,3) root by (simp add: plan_fill_super_def run_simps Let_def root_available_def)
qed

text \<open>A dirty page stays dirty, and the return value tells whether this call made it so.\<close>

lemma set_page_dirty:
  "snd (sjfs_set_page_dirty_no_writeback d d) \<and> (fst (sjfs_set_page_dirty_no_writeback d d) = 1 \<longleftrightarrow> \<not> d)"
  by (simp add: sjfs_set_page_dirty_no_writeback_def)

section \<open>Properties\<close>

text \<open>C35. In both fallback plans, making a directory attaches a new inode with the directory operations to the
  dentry, pins the dentry, stamps the parent and adds one link to it; when no inode is left it fails
  with \<open>ENOSPC\<close> and leaves the parent as it was.\<close>

theorem plan_mkdir_outcome:
  assumes "nlink_only K" "mode AND S_IFMT = 0 \<or> mode AND S_IFMT = S_IFDIR"
  shows "case knew_inode K (calls s) of
      None \<Rightarrow> \<exists>s'. sjfs_mkdir K d de mode s = Ret ((- ENOSPC, d), s') \<and> heap s' = heap s
    | Some i0 \<Rightarrow> \<exists>i now h s'. sjfs_mkdir K d de mode s
          = Ret ((0, inc_nlink K (d\<lparr>i_ctime := now, i_mtime := now\<rparr>)), s')
        \<and> (i_op i, i_fop i) = (''sjfs_dir_inode_operations'', ''simple_dir_operations'')
        \<and> calls s' = h @ [D_instantiate de i, Dget de, Current_time]
        \<and> heap s' = heap s \<and> kstate.more s' = kstate.more s"
proof (cases "knew_inode K (calls s)")
  case None
  from sjfs_mkdir_fails [OF this, of d de mode] show ?thesis by (simp only: None option.case)
next
  case (Some i0)
  from sjfs_mkdir_ok [OF this assms, of d de] show ?thesis by (simp only: Some option.case)
qed

theorem plan_mkdir_outcome_witness:
  "\<exists>now s'. sjfs_mkdir sample_kernel sample_inode \<lparr>d_name = Some ''d'', d_inode = None\<rparr> 0x1ED sample_state
     = Ret ((0, sample_inode\<lparr>i_ctime := now, i_mtime := now, i_nlink := 2\<rparr>), s')"
proof -
  have m: "(0x1ED :: umode_t) AND S_IFMT = 0 \<or> (0x1ED :: umode_t) AND S_IFMT = S_IFDIR" by (simp add: S_IFMT_def)
  have k: "knew_inode sample_kernel (calls sample_state) = Some sample_inode" by (simp add: sample_kernel_def)
  have l: "inc_nlink sample_kernel (sample_inode\<lparr>i_ctime := now, i_mtime := now\<rparr>)
      = sample_inode\<lparr>i_ctime := now, i_mtime := now, i_nlink := 2\<rparr>" for now
    by (simp add: sample_kernel_def sample_inode_def)
  from plan_mkdir_outcome [OF sample_nlink_only m, where s = sample_state and d = sample_inode
      and de = "\<lparr>d_name = Some ''d'', d_inode = None\<rparr>"]
  show ?thesis unfolding k option.case l by (elim exE conjE) (intro exI)
qed

end
