(* ===== verification/Backup_A.thy ===== *)
theory Backup_A
  imports Plan_Ramfs
begin

text \<open>
  The fallback module \<open>src/backup_plans/a/sjfs.c\<close>: the file system in memory of \<open>Plan_Ramfs\<close>, whose
  files are read and written by messages to the helper. Packets are those of \<open>a/ipc.h\<close>; the padding
  bytes of a packet are taken to be zero. As in \<open>Connector\<close>, the functions run one thread, \<open>user\<close> is
  what user space sends back, and pending messages are delivered while the thread sleeps.
\<close>

section \<open>Packets\<close>

definition request_fields :: cstruct where
  "request_fields = [(''opcode'', UChar), (''inode'', ULong), (''pos'', UInt), (''count'', LongLong)]"

definition response_fields :: cstruct where
  "response_fields = [(''count'', LongLong)]"

record request_packet =
  rq_opcode :: byte
  rq_inode :: ulong
  rq_pos :: uint
  rq_count :: ulong

definition load32 :: "nat \<Rightarrow> byte list \<Rightarrow> uint" where
  "load32 off bs = of_nat (le_value (bytes_at off 4 bs))"

definition le32 :: "uint \<Rightarrow> byte list" where
  "le32 w = le_bytes 4 (unat w)"

definition request_image :: "request_packet \<Rightarrow> byte list" where
  "request_image rq = struct_image lp64 request_fields
     [[rq_opcode rq], le64 (rq_inode rq), le32 (rq_pos rq), le64 (rq_count rq)]"

definition request_of :: "byte list \<Rightarrow> request_packet" where
  "request_of bs = \<lparr>rq_opcode = load8 0 bs, rq_inode = load64 8 bs, rq_pos = load32 16 bs, rq_count = load64 24 bs\<rparr>"

lemma sizeof_request [layout_simps]: "sizeof_struct lp64 request_fields = 32"
  by (simp add: struct_calc request_fields_def)

lemma sizeof_response [layout_simps]: "sizeof_struct lp64 response_fields = 8"
  by (simp add: struct_calc response_fields_def)

lemma place_request:
  "place lp64 0 request_fields =
    [(''opcode'', 0, UChar), (''inode'', 8, ULong), (''pos'', 16, UInt), (''count'', 24, LongLong)]"
  by (simp add: struct_calc request_fields_def)

lemma length_le32 [simp]: "length (le32 w) = 4"
  by (simp add: le32_def)

lemma load32_le32: "bytes_at off 4 bs = le32 w \<Longrightarrow> load32 off bs = w"
  using unsigned_less [of w, where 'a = nat] by (simp add: load32_def le32_def le_value_bytes)

lemma fits_request:
  "fields_fit lp64 request_fields
     [[rq_opcode rq], le64 (rq_inode rq), le32 (rq_pos rq), le64 (rq_count rq)]"
  by (simp add: fields_fit_def request_fields_def)

interpretation rqc: struct_codec request_image request_of 32 "\<lambda>_. True"
proof unfold_locales
  fix rq :: request_packet
  show "length (request_image rq) = 32"
    unfolding request_image_def length_struct_image [OF abi_ok_lp64 fits_request]
    by (simp add: layout_simps)
  note sl = bytes_at_struct_image [OF abi_ok_lp64 fits_request, of _ _ _ _ rq, folded request_image_def,
      unfolded place_request]
  have len: "length request_fields = 4" by (simp add: request_fields_def)
  show "request_of (request_image rq) = rq"
    using sl [of 0] sl [of 1] sl [of 2] sl [of 3]
    by (simp add: len request_of_def load8_byte load64_le64 load32_le32)
qed

section \<open>State and semaphores\<close>

record plan_a_state = kstate +
  a_cn_sem :: nat
  a_cb_sem :: nat
  a_counter :: uint
  sjfs_read_buffer :: ptr
  a_nls :: bool
  a_once :: bool
  a_inbox :: "cn_msg list"

definition a_up_cb :: "kernel \<Rightarrow> (plan_a_state, unit) km" where
  "a_up_cb K = modK (\<lambda>s. s\<lparr>a_cb_sem := sem_up K (a_cb_sem s)\<rparr>)"

definition a_up_cn :: "kernel \<Rightarrow> (plan_a_state, unit) km" where
  "a_up_cn K = modK (\<lambda>s. s\<lparr>a_cn_sem := sem_up K (a_cn_sem s)\<rparr>)"

definition a_down_trylock_cb :: "kernel \<Rightarrow> (plan_a_state, int) km" where
  "a_down_trylock_cb K = (\<lambda>s. case sem_trylock K (a_cb_sem s) of (r, n) \<Rightarrow> Ret (r, s\<lparr>a_cb_sem := n\<rparr>))"

definition a_down_cn :: "kernel \<Rightarrow> (plan_a_state, unit) km" where
  "a_down_cn K = (\<lambda>s. case sem_down K (a_cn_sem s) of None \<Rightarrow> Hang | Some n \<Rightarrow> Ret ((), s\<lparr>a_cn_sem := n\<rparr>))"

section \<open>The callback\<close>

text \<open>\<open>packet->count\<close>, read from the message as it came.\<close>

definition response_count :: "cn_msg \<Rightarrow> (plan_a_state, ulong) km" where
  "response_count msg = (if length (msg_data msg) < sizeof_struct lp64 response_fields then crashK OutOfBounds
     else retK (load64 0 (msg_data msg)))"

definition a_callback :: "kernel \<Rightarrow> cn_msg \<Rightarrow> (plan_a_state, unit) km" where
  "a_callback K msg =
     bindK (a_down_trylock_cb K) (\<lambda>r.
       if r = 0 then a_up_cb K
       else bindK (response_count msg) (\<lambda>count.
         bindK (kzalloc K (unat count)) (\<lambda>p.
         thenK (modK (\<lambda>s. s\<lparr>sjfs_read_buffer := p\<rparr>))
        (thenK
          (if p \<noteq> 0 then
             if length (msg_data msg) < sizeof_struct lp64 response_fields + unat count then crashK OutOfBounds
             else heap_write p 0 (bytes_at (sizeof_struct lp64 response_fields) (unat count) (msg_data msg))
           else retK ())
          (a_up_cb K)))))"

fun a_down_cb_wait :: "kernel \<Rightarrow> cn_msg list \<Rightarrow> (plan_a_state, unit) km" where
  "a_down_cb_wait K [] s = (case sem_down K (a_cb_sem s) of
       None \<Rightarrow> Hang | Some n \<Rightarrow> Ret ((), s\<lparr>a_cb_sem := n, a_inbox := []\<rparr>))"
| "a_down_cb_wait K (m # ms) s = (case sem_down K (a_cb_sem s) of
       Some n \<Rightarrow> Ret ((), s\<lparr>a_cb_sem := n, a_inbox := m # ms\<rparr>)
     | None \<Rightarrow> (case a_callback K m s of
           Ret r \<Rightarrow> a_down_cb_wait K ms (snd r) | Hang \<Rightarrow> Hang | Crash e \<Rightarrow> Crash e))"

definition a_down_cb :: "kernel \<Rightarrow> (plan_a_state, unit) km" where
  "a_down_cb K = (\<lambda>s. a_down_cb_wait K (a_inbox s) s)"

definition a_send :: "kernel \<Rightarrow> (cn_msg \<Rightarrow> cn_msg list) \<Rightarrow> cn_msg \<Rightarrow> (plan_a_state, int) km" where
  "a_send K user m = bindK (kcall K (Cn_netlink_send m)) (\<lambda>r.
     thenK (modK (\<lambda>s. if r < 0 then s else s\<lparr>a_inbox := a_inbox s @ user m\<rparr>)) (retK r))"

section \<open>Reading and writing a file\<close>

definition a_packet :: "byte \<Rightarrow> ulong \<Rightarrow> int \<Rightarrow> ulong \<Rightarrow> byte list" where
  "a_packet opcode ino ppos count =
     request_image \<lparr>rq_opcode = opcode, rq_inode = ino, rq_pos = of_int ppos, rq_count = count\<rparr>"

definition a_msg :: "kernel \<Rightarrow> uint \<Rightarrow> ushort \<Rightarrow> byte list \<Rightarrow> cn_msg" where
  "a_msg K sq len data =
     \<lparr>msg_id = cn_sjfs_id K, msg_seq = sq, msg_ack = 0, msg_len = len, msg_data = data\<rparr>"

text \<open>The second result is what \<open>copy_to_user\<close> is given.\<close>

definition a_fops_read ::
  "kernel \<Rightarrow> (cn_msg \<Rightarrow> cn_msg list) \<Rightarrow> ulong \<Rightarrow> ulong \<Rightarrow> int \<Rightarrow> (plan_a_state, int \<times> byte list) km" where
  "a_fops_read K user ino count ppos =
     (let packet = a_packet SJFS_OPCODE_READ ino ppos count in
      thenK (a_down_cn K)
     (thenK (a_down_cb K)
     (bindK (kzalloc K (sizeof_cn_msg K + sizeof_struct lp64 request_fields)) (\<lambda>m.
      thenK
       (if m \<noteq> 0 then
          bindK (getK a_counter) (\<lambda>sq.
          thenK (heap_write m (sizeof_cn_msg K) packet)
         (thenK (a_send K user (a_msg K sq (of_nat (sizeof_struct lp64 request_fields)) packet))
                (kfree m)))
        else retK ())
     (thenK (modK (\<lambda>s. s\<lparr>a_counter := a_counter s + 1\<rparr>))
     (thenK (a_down_cb K)
     (thenK (a_up_cb K)
     (bindK (getK sjfs_read_buffer) (\<lambda>buf.
      bindK (heap_read buf 0 (unat count)) (\<lambda>bytes.
      thenK (a_up_cn K)
            (retK (sint count, bytes))))))))))))"

text \<open>\<open>res\<close> is what \<open>copy_from_user\<close> returns: the number of bytes it could \<^emph>\<open>not\<close> copy from \<open>from\<close>.\<close>

definition a_fops_write ::
  "kernel \<Rightarrow> (cn_msg \<Rightarrow> cn_msg list) \<Rightarrow> ulong \<Rightarrow> byte list \<Rightarrow> ulong \<Rightarrow> ulong \<Rightarrow> int \<Rightarrow> (plan_a_state, int) km" where
  "a_fops_write K user ino from res count ppos =
     (let packet = a_packet SJFS_OPCODE_WRITE ino ppos count;
          psize = sizeof_struct lp64 request_fields;
          len = of_nat psize + ucast count :: ushort
      in
      thenK (a_down_cn K)
     (bindK (kzalloc K (unat (of_nat (sizeof_cn_msg K + psize) + count))) (\<lambda>m.
      bindK (kzalloc K (unat (of_nat psize + count))) (\<lambda>data.
      thenK
       (if m \<noteq> 0 \<and> data \<noteq> 0 then
          bindK (getK a_counter) (\<lambda>sq.
          thenK (heap_write data 0 packet)
         (thenK (heap_write data psize (take (unat count - unat res) from))
         (thenK
           (if res = count then
              bindK (heap_read data 0 (unat len)) (\<lambda>bytes.
              thenK (heap_write m (sizeof_cn_msg K) bytes)
             (thenK (a_send K user (a_msg K sq len bytes)) (retK ())))
            else retK ())
           (kfree m))))
        else retK ())
     (thenK (modK (\<lambda>s. s\<lparr>a_counter := a_counter s + 1\<rparr>))
     (thenK (a_up_cn K)
            (retK (sint count))))))))"

definition a_file_operations :: op_table where
  "a_file_operations =
    [(''read_iter'', ''generic_file_read_iter''), (''write_iter'', ''generic_file_write_iter''),
     (''mmap'', ''generic_file_mmap''), (''fsync'', ''noop_fsync''),
     (''splice_read'', ''generic_file_splice_read''), (''splice_write'', ''iter_file_splice_write''),
     (''llseek'', ''generic_file_llseek''), (''read'', ''sjfs_fops_read''), (''write'', ''sjfs_fops_write'')]"

section \<open>The file system in memory\<close>

text \<open>These functions have the same text in both plans.\<close>

definition a_get_inode :: "kernel \<Rightarrow> kinode option \<Rightarrow> umode_t \<Rightarrow> uint \<Rightarrow> (plan_a_state, kinode option) km" where
  "a_get_inode = sjfs_get_inode"
definition a_mknod :: "kernel \<Rightarrow> kinode \<Rightarrow> dentry \<Rightarrow> umode_t \<Rightarrow> uint \<Rightarrow> (plan_a_state, int \<times> kinode) km" where
  "a_mknod = sjfs_mknod"
definition a_mkdir :: "kernel \<Rightarrow> kinode \<Rightarrow> dentry \<Rightarrow> umode_t \<Rightarrow> (plan_a_state, int \<times> kinode) km" where
  "a_mkdir = sjfs_mkdir"
definition a_create :: "kernel \<Rightarrow> kinode \<Rightarrow> dentry \<Rightarrow> umode_t \<Rightarrow> bool \<Rightarrow> (plan_a_state, int \<times> kinode) km" where
  "a_create = sjfs_create"
definition a_symlink :: "kernel \<Rightarrow> kinode \<Rightarrow> dentry \<Rightarrow> string \<Rightarrow> (plan_a_state, int \<times> kinode) km" where
  "a_symlink = sjfs_symlink"
definition a_fill_super :: "kernel \<Rightarrow> super_block \<Rightarrow> (plan_a_state, int \<times> super_block) km" where
  "a_fill_super = plan_fill_super"
definition a_mount :: "kernel \<Rightarrow> (plan_a_state, int) km" where
  "a_mount = plan_mount"
definition a_kill_sb :: "kernel \<Rightarrow> (plan_a_state, unit) km" where
  "a_kill_sb = plan_kill_sb"

section \<open>Loading and unloading\<close>

definition a_release :: "kernel \<Rightarrow> (plan_a_state, unit) km" where
  "a_release K = bindK (getK a_nls) (\<lambda>open.
     if open then thenK (kcall K Sock_release) (retK ()) else retK ())"

definition a_init :: "kernel \<Rightarrow> (plan_a_state, int) km" where
  "a_init K = bindK (getK a_once) (\<lambda>old.
     thenK (modK (\<lambda>s. s\<lparr>a_once := True\<rparr>))
     (if old then retK 0
      else thenK (modK (\<lambda>s. s\<lparr>a_cn_sem := 1\<rparr>))
          (thenK (modK (\<lambda>s. s\<lparr>a_cb_sem := 1\<rparr>))
          (bindK (kcall K (Cn_add_callback (cn_sjfs_id K) cn_sjfs_name)) (\<lambda>err.
           if err \<noteq> 0 then thenK (a_release K) (retK err)
           else kcall K (Register_filesystem ''sjfs''))))))"

text \<open>\<open>cb_sem\<close> and \<open>cn_sem\<close> are static variables, not objects of the heap.\<close>

definition kfree_static :: "(plan_a_state, unit) km" where
  "kfree_static = crashK BadFree"

definition a_exit :: "kernel \<Rightarrow> (plan_a_state, unit) km" where
  "a_exit K =
     thenK (kcall K (Unregister_filesystem ''sjfs''))
    (thenK (kcall K (Cn_del_callback (cn_sjfs_id K)))
    (thenK (a_release K)
    (thenK kfree_static
           kfree_static)))"

definition a_boot :: "kernel \<Rightarrow> plan_a_state \<Rightarrow> kcall list" where
  "a_boot K s = (let add = Cn_add_callback (cn_sjfs_id K) cn_sjfs_name in
     add # (if kret K (calls s) add = 0 then [Register_filesystem ''sjfs'']
            else if a_nls s then [Sock_release] else []))"

interpretation ainit: load_once "a_init K" a_once 0 calls "a_boot K" for K
  by unfold_locales (simp_all add: a_init_def run_simps a_release_def a_boot_def Let_def)

lemma a_exit_crashes: "a_exit K s = Crash BadFree"
  by (simp add: a_exit_def run_simps a_release_def kfree_static_def)

section \<open>What a read does\<close>

definition a_idle :: "plan_a_state \<Rightarrow> bool" where
  "a_idle s \<longleftrightarrow> a_cn_sem s = 1 \<and> a_cb_sem s = 1 \<and> a_inbox s = [] \<and> heap_wf s"

definition a_request :: "kernel \<Rightarrow> plan_a_state \<Rightarrow> ulong \<Rightarrow> ulong \<Rightarrow> int \<Rightarrow> cn_msg" where
  "a_request K s ino count ppos = a_msg K (a_counter s) 32 (a_packet SJFS_OPCODE_READ ino ppos count)"

lemma length_a_packet [simp]: "length (a_packet op ino pos count) = 32"
  by (simp add: a_packet_def rqc.enc_width)

lemmas a_defs = a_send_def a_up_cb_def a_up_cn_def a_down_cn_def a_down_trylock_cb_def

lemma a_down_cb_run:
  "counting_semaphores K \<Longrightarrow> a_cb_sem s \<noteq> 0 \<Longrightarrow> a_down_cb K s = Ret ((), s\<lparr>a_cb_sem := a_cb_sem s - 1\<rparr>)"
  by (cases "a_inbox s") (simp_all add: a_down_cb_def)

lemma heap_wf_a_updates [simp]:
  "heap_wf (s\<lparr>a_cn_sem := n\<rparr>) = heap_wf s" "heap_wf (s\<lparr>a_cb_sem := n\<rparr>) = heap_wf s"
  "heap_wf (s\<lparr>a_counter := w\<rparr>) = heap_wf s" "heap_wf (s\<lparr>sjfs_read_buffer := p\<rparr>) = heap_wf s"
  "heap_wf (s\<lparr>a_inbox := ms\<rparr>) = heap_wf s"
  by (simp_all add: heap_wf_def)

text \<open>Up to the second \<open>down\<close>.\<close>

lemma a_read_send:
  assumes K: "counting_semaphores K" "sends_ok K" "memory_ok K" and idle: "a_idle s"
  shows "a_fops_read K user ino count ppos s =
    thenK (a_down_cb K) (thenK (a_up_cb K) (bindK (getK sjfs_read_buffer) (\<lambda>buf.
      bindK (heap_read buf 0 (unat count)) (\<lambda>bytes. thenK (a_up_cn K) (retK (sint count, bytes))))))
    (s\<lparr>a_cn_sem := 0, a_cb_sem := 0, next_ptr := Suc (next_ptr s),
       calls := calls s @ [Cn_netlink_send (a_request K s ino count ppos)],
       a_inbox := user (a_request K s ino count ppos), a_counter := a_counter s + 1\<rparr>)"
proof -
  let ?m = "a_request K s ino count ppos"
  have "\<not> kret K (calls s) (Cn_netlink_send ?m) < 0"
    using K(2) by (simp add: sends_ok_def not_less)
  moreover have "(heap s)(next_ptr s := None) = heap s"
    using idle by (simp add: a_idle_def fun_upd_idem)
  ultimately show ?thesis
    using idle K
    by (simp add: a_fops_read_def run_simps kzalloc_run Let_def a_idle_def a_defs heap_write_def kfree_def
        a_down_cb_run layout_simps a_request_def)
qed

text \<open>An answered read delivers the bytes of the answer; the buffer that holds them is never freed.\<close>

lemma a_read_answered:
  assumes K: "counting_semaphores K" "sends_ok K" "memory_ok K" and idle: "a_idle s"
    and user: "user (a_request K s ino count ppos) = [r]" "msg_data r = le64 count @ bytes"
    and len: "length bytes = unat count"
  shows "\<exists>s'. a_fops_read K user ino count ppos s = Ret ((sint count, bytes), s') \<and> a_idle s'
    \<and> heap s' = (heap s)(Suc (next_ptr s) \<mapsto> bytes) \<and> sjfs_read_buffer s' = Suc (next_ptr s)
    \<and> calls s' = calls s @ [Cn_netlink_send (a_request K s ino count ppos)]"
proof -
  let ?m = "a_request K s ino count ppos"
  let ?s1 = "s\<lparr>a_cn_sem := 0, a_cb_sem := 0, next_ptr := Suc (next_ptr s),
       calls := calls s @ [Cn_netlink_send ?m], a_inbox := [r], a_counter := a_counter s + 1\<rparr>"
  let ?s2 = "?s1\<lparr>heap := (heap s)(Suc (next_ptr s) \<mapsto> bytes), next_ptr := Suc (Suc (next_ptr s)),
       sjfs_read_buffer := Suc (next_ptr s), a_inbox := []\<rparr>"
  have cnt: "load64 0 (msg_data r) = count"
    unfolding user(2) by (rule load64_le64) (simp add: bytes_at_def)
  have "bytes_at 8 (unat count) (msg_data r) = bytes"
    using len by (simp add: user(2) bytes_at_def)
  then have cb: "a_callback K r ?s1 = Ret ((), ?s2\<lparr>a_cb_sem := 1, a_inbox := [r]\<rparr>)"
    using K len cnt user(2)
    by (simp add: a_callback_def run_simps a_defs response_count_def layout_simps kzalloc_run
        heap_write_def overwrite_full)
  have d: "a_down_cb K ?s1 = Ret ((), ?s2)"
    using K(1) cb by (simp add: a_down_cb_def)
  have "heap_wf t" if "heap t = (heap s)(Suc (next_ptr s) \<mapsto> bytes)" "next_ptr t = Suc (Suc (next_ptr s))"
    for t :: plan_a_state
    using idle that unfolding a_idle_def heap_wf_def by (auto simp: less_Suc_eq)
  then show ?thesis
    unfolding a_read_send [OF K idle, of user] user(1) thenK_Ret [where m = "a_down_cb K", OF d]
    using K(1) len by (simp add: run_simps a_defs heap_read_def bytes_at_full a_idle_def)
qed

lemma a_read_unanswered:
  assumes "counting_semaphores K" "sends_ok K" "memory_ok K" "a_idle s" "\<And>m. user m = []"
  shows "a_fops_read K user ino count ppos s = Hang"
  unfolding a_read_send [OF assms(1-4)] using assms(1,5) by (simp add: run_simps a_down_cb_def)

text \<open>Without memory for the request the thread waits for an answer nobody was asked for.\<close>

lemma a_read_no_memory:
  assumes "counting_semaphores K" "a_idle s" "\<not> kmalloc_ok K (next_ptr s) (sizeof_cn_msg K + 32)"
  shows "a_fops_read K user ino count ppos s = Hang"
  using assms
  by (simp add: a_fops_read_def run_simps kzalloc_def Let_def a_idle_def a_defs a_down_cb_run layout_simps)
     (simp add: a_down_cb_def)

section \<open>What a write does\<close>

text \<open>The message goes out exactly when \<open>copy_from_user\<close> copied nothing; the copy in \<open>data\<close> is never
  freed; the caller is told that everything was written.\<close>

lemma a_write_run:
  assumes K: "counting_semaphores K" "sends_ok K" "memory_ok K" and wf: "heap_wf s" and sem: "0 < a_cn_sem s"
    and cnt: "unat count < 65504" "sizeof_cn_msg K < 65536" and res: "unat res \<le> unat count" "length from = unat count"
  shows "\<exists>s'. a_fops_write K user ino from res count ppos s = Ret (int (unat count), s')
    \<and> live s' = insert (Suc (next_ptr s)) (live s) \<and> a_cn_sem s' = a_cn_sem s
    \<and> calls s' = calls s @ (if res = count
        then [Cn_netlink_send (a_msg K (a_counter s) (of_nat (32 + unat count))
               (a_packet SJFS_OPCODE_WRITE ino ppos count @ replicate (unat count) 0))]
        else [])"
proof -
  define n where "n = unat count"
  let ?p = "next_ptr s" and ?pk = "a_packet SJFS_OPCODE_WRITE ino ppos count"
  have n: "n < 65504" "unat res \<le> n" "length from = n" using cnt res by (simp_all add: n_def)
  have c: "count = of_nat n" by (simp add: n_def)
  have sz: "unat (of_nat k + count) = k + n" if "k < 2 ^ 32" for k
    using n(1) that unfolding c of_nat_add [symmetric] by (simp add: unat_of_nat del: of_nat_add)
  have len: "unat (32 + ucast count :: ushort) = 32 + n" "32 + ucast count = (of_nat (32 + n) :: ushort)"
    using n(1) unfolding c by (simp_all add: unsigned_of_nat take_bit_nat_eq_self unat_word_ariths)
  have sc: "sint count = int n"
    using n(1) unfolding c by (simp add: signed_of_nat signed_take_bit_int_eq_self)
  have eq: "res = count \<longleftrightarrow> unat res = n" by (simp add: n_def word_unat_eq_iff)
  have send: "\<not> kret K h (Cn_netlink_send m) < 0" for h m
    using K(2) by (simp add: sends_ok_def not_less)
  have data: "overwrite 0 ?pk (replicate (32 + n) 0) = ?pk @ replicate n 0"
    by (simp add: overwrite_def)
  have live: "live t = insert (Suc ?p) (live s)" if "heap t = (heap s)(Suc ?p \<mapsto> x, ?p := None)"
    for t :: plan_a_state and x
    using that wf by (auto simp: live_def)
  have len': "unat (32 + of_nat n :: ushort) = 32 + n"
    using len(1) n(1) unfolding c by (simp add: unsigned_of_nat take_bit_nat_eq_self)
  show ?thesis
  proof (cases "res = count")
    case True
    then show ?thesis
      using K wf sem n cnt(2)
      by (simp add: a_fops_write_def Let_def n_def [symmetric] run_simps kzalloc_run a_defs heap_write_def heap_read_def
          kfree_def sz [of 32, simplified] sz [of "sizeof_cn_msg K + 32", simplified] len len' sc data layout_simps
          send bytes_at_full overwrite_none live)
  next
    case False
    then show ?thesis
      using K wf sem n cnt(2)
      by (simp add: a_fops_write_def Let_def n_def [symmetric] run_simps kzalloc_run a_defs heap_write_def heap_read_def
          kfree_def sz [of 32, simplified] sz [of "sizeof_cn_msg K + 32", simplified] len sc data layout_simps
          bytes_at_full live)
  qed
qed

section \<open>Properties\<close>

definition sample_plan_a :: plan_a_state where
  "sample_plan_a = \<lparr>heap = (\<lambda>_. None), next_ptr = 1, klog = [], calls = [], a_cn_sem = 1, a_cb_sem = 1,
     a_counter = 0, sjfs_read_buffer = 0, a_nls = False, a_once = False, a_inbox = []\<rparr>"

lemma sample_plan_a_idle [simp]: "a_idle sample_plan_a"
  by (simp add: a_idle_def sample_plan_a_def heap_wf_def)

text \<open>C36. In the first plan a read that is answered with a packet of the size asked for returns that size and
  the bytes of the packet, sends one request and leaves the connection idle; the buffer with the
  answer is never freed.\<close>

theorem plan_a_read_delivers:
  assumes "counting_semaphores K" "sends_ok K" "memory_ok K" "a_idle s"
    "user (a_request K s ino count ppos) = [r]" "msg_data r = le64 count @ bytes" "length bytes = unat count"
  shows "\<exists>s'. a_fops_read K user ino count ppos s = Ret ((sint count, bytes), s') \<and> a_idle s'
    \<and> calls s' = calls s @ [Cn_netlink_send (a_request K s ino count ppos)]
    \<and> live s' = insert (sjfs_read_buffer s') (live s) \<and> sjfs_read_buffer s' \<notin> live s"
proof -
  obtain s' where s': "a_fops_read K user ino count ppos s = Ret ((sint count, bytes), s')" "a_idle s'"
      "heap s' = (heap s)(Suc (next_ptr s) \<mapsto> bytes)" "sjfs_read_buffer s' = Suc (next_ptr s)"
      "calls s' = calls s @ [Cn_netlink_send (a_request K s ino count ppos)]"
    using a_read_answered [where user = user and ino = ino and count = count and ppos = ppos and r = r, OF assms] by (elim exE conjE)
  have "Suc (next_ptr s) \<notin> live s"
    using assms(4) unfolding a_idle_def heap_wf_def live_def by fastforce
  moreover have "live s' = insert (Suc (next_ptr s)) (live s)"
    unfolding live_def s'(3) by auto
  ultimately show ?thesis using s' by (intro exI [of _ s']) simp
qed

theorem plan_a_read_delivers_witness:
  "\<exists>s'. a_fops_read sample_kernel (\<lambda>m. [m\<lparr>msg_data := le64 2 @ [5, 6]\<rparr>]) 3 2 0 sample_plan_a = Ret ((2, [5, 6]), s')"
proof -
  let ?u = "\<lambda>m :: cn_msg. [m\<lparr>msg_data := le64 2 @ [5, 6]\<rparr>]"
  have "?u (a_request sample_kernel sample_plan_a 3 2 0)
      = [(a_request sample_kernel sample_plan_a 3 2 0)\<lparr>msg_data := le64 2 @ [5, 6]\<rparr>]"
    by simp
  from plan_a_read_delivers [where user = ?u and count = 2 and ppos = 0 and bytes = "[5, 6]", OF sample_kernel_ok(1) sample_kernel_sends sample_kernel_ok(2) sample_plan_a_idle this]
  show ?thesis by (simp add: signed_of_nat) blast
qed

text \<open>C37. In the first plan a write reports that everything was written, but sends the data only when
  \<open>copy_from_user\<close> failed to copy any of it, and then the data are zeros; the copy of the packet is
  never freed.\<close>

theorem plan_a_write_loses_data:
  assumes "counting_semaphores K" "sends_ok K" "memory_ok K" "heap_wf s" "0 < a_cn_sem s"
    "unat count < 65504" "sizeof_cn_msg K < 65536" "unat res \<le> unat count" "length from = unat count"
  shows "\<exists>s'. a_fops_write K user ino from res count ppos s = Ret (int (unat count), s')
    \<and> live s' = insert (Suc (next_ptr s)) (live s) \<and> a_cn_sem s' = a_cn_sem s
    \<and> calls s' = calls s @ (if res = count
        then [Cn_netlink_send (a_msg K (a_counter s) (of_nat (32 + unat count))
               (a_packet SJFS_OPCODE_WRITE ino ppos count @ replicate (unat count) 0))]
        else [])"
  using a_write_run [OF assms] .

theorem plan_a_write_loses_data_witness:
  "\<exists>s'. a_fops_write sample_kernel (\<lambda>_. []) 3 [7, 8] 0 2 0 sample_plan_a = Ret (2, s') \<and> calls s' = []"
proof -
  have wf: "heap_wf sample_plan_a" "0 < a_cn_sem sample_plan_a" "calls sample_plan_a = []"
    by (simp_all add: sample_plan_a_def heap_wf_def)
  have "sizeof_cn_msg sample_kernel < 65536" by (simp add: sample_kernel_def)
  from plan_a_write_loses_data [OF sample_kernel_ok(1) sample_kernel_sends sample_kernel_ok(2) wf(1,2) _ this,
      of 2 0 "[7, 8]" "\<lambda>_. []" 3 0] wf(3)
  show ?thesis by auto
qed

end
