(* ===== verification/Backup_A_Helper.thy ===== *)
theory Backup_A_Helper
  imports Helper Backup_A
begin

text \<open>
  The user-space program \<open>src/backup_plans/a/sjfs_helper.c\<close> of the first fallback plan. State and
  environment are those of \<open>Helper\<close>. Pointer arithmetic is written out as the source does it: adding
  to a \<open>struct cn_msg\<close> pointer counts in structs, and adding a number to the literal \<open>"/tmp/"\<close> drops
  characters from it.
\<close>

section \<open>netlink\_send\<close>

text \<open>The buffer has 128 bytes; \<open>obj\<close> is the size of the object that \<open>msg\<close> points to, of which
  \<open>sizeof(*m) + msg->len\<close> bytes are read.\<close>

definition ha_netlink_send :: "os \<Rightarrow> nat \<Rightarrow> cn_msg \<Rightarrow> (helper_state, int) km" where
  "ha_netlink_send Os obj msg =
     (let n = os_sizeof_cn_msg Os + unat (msg_len msg); sz = NLMSG_SPACE Os n in
      bindK (getK seq) (\<lambda>sq.
      thenK (modK (\<lambda>s. s\<lparr>seq := sq + 1\<rparr>))
     (if obj < n \<or> nlmsg_hdrlen Os + n > 128 \<or> sz > 128 then crashK OutOfBounds
      else let nlh = nl_message Os msg sq; err = send_ret Os nlh in
        if err = -1 then thenK (printf ''Failed to send: %s [%d].\<newline>'' []) (retK err)
        else thenK (modK (\<lambda>s. s\<lparr>sent := sent s @ [nlh]\<rparr>)) (retK err))))"

section \<open>do\_work\<close>

text \<open>\<open>"/tmp/" + packet->inode\<close>; the literal has six bytes with its terminating zero.\<close>

definition tmp_path :: "ulong \<Rightarrow> string option" where
  "tmp_path inode = (if unat inode < 6 then Some (drop (unat inode) ''/tmp/'') else None)"

text \<open>The \<open>case SJFS_OPCODE_READ\<close>: \<open>fread\<close> on a stream opened with \<open>"wb"\<close> reads nothing.\<close>

definition ha_reply :: "os \<Rightarrow> uint \<Rightarrow> ulong \<Rightarrow> (helper_state, unit) km" where
  "ha_reply Os users count =
     (let S = os_sizeof_cn_msg Os;
          P = sizeof_struct lp64 response_fields;
          obj = unat (of_nat (S + P) + count)
      in if \<not> calloc_ok Os obj then crashK BadPointer
      else bindK (getK seq) (\<lambda>sq.
        thenK (modK (\<lambda>s. s\<lparr>seq := sq + 1\<rparr>))
       (if obj < S * S + P then crashK OutOfBounds
        else thenK (ha_netlink_send Os obj \<lparr>msg_id = (users + 3, 0x456), msg_seq = sq, msg_ack = 0,
            msg_len = of_nat (S + P) + ucast count, msg_data = []\<rparr>) (retK ()))))"

definition ha_do_work :: "os \<Rightarrow> uint \<Rightarrow> byte list \<Rightarrow> (helper_state, unit) km" where
  "ha_do_work Os users buffer =
     (if length buffer < sizeof_struct lp64 request_fields then crashK OutOfBounds
      else let packet = request_of buffer in
       case tmp_path (rq_inode packet) of
         None \<Rightarrow> crashK OutOfBounds
       | Some path \<Rightarrow> bindK (fopen_wb Os path) (\<lambda>opened.
           if \<not> opened then retK ()
           else if fseek_ok Os (sint (rq_count packet)) then retK ()
           else if rq_opcode packet = SJFS_OPCODE_READ then ha_reply Os users (rq_count packet)
           else if rq_opcode packet = SJFS_OPCODE_WRITE
           then thenK (fwrite Os path (drop (sizeof_struct lp64 request_fields) buffer) (unat (rq_count packet))) (retK ())
           else retK ()))"

section \<open>main\<close>

text \<open>\<open>None\<close>: the program goes on; \<open>Some c\<close>: it exits with \<open>c\<close>. In the case \<open>NLMSG_DONE\<close> the call of
  \<open>do_work\<close> stands behind a \<open>break\<close>.\<close>

definition ha_handle :: "os \<Rightarrow> nlmsg \<Rightarrow> (helper_state, unit) km" where
  "ha_handle Os reply =
     (if nlmsg_type reply = NLMSG_ERROR Os then printf ''Error message received.\<newline>'' []
      else if nlmsg_type reply = NLMSG_DONE Os
      then let data = nlmsg_data reply in
        printf ''[%x.%x] [%08u.%08u].\<newline>'' [PNum (uint (fst (msg_id data))),
          PNum (uint (snd (msg_id data))), PNum (uint (msg_seq data)), PNum (uint (msg_ack data))]
      else retK ())"

definition ha_turn :: "os \<Rightarrow> event \<Rightarrow> (helper_state, int option) km" where
  "ha_turn Os e = (case e of
       Poll_timeout \<Rightarrow> thenK (modK (\<lambda>s. s\<lparr>need_exit := True\<rparr>)) (retK None)
     | Poll_error eintr \<Rightarrow> if eintr then retK None else thenK (modK (\<lambda>s. s\<lparr>need_exit := True\<rparr>)) (retK None)
     | Recv_error \<Rightarrow> thenK (printf ''recv buf'' []) (retK (Some (-1)))
     | Recv reply \<Rightarrow> thenK (ha_handle Os reply) (retK None))"

text \<open>The loop on the events so far: \<open>None\<close> while the program waits for the next one.\<close>

fun ha_loop :: "os \<Rightarrow> event list \<Rightarrow> (helper_state, int option) km" where
  "ha_loop Os [] = bindK (getK need_exit) (\<lambda>stop. retK (if stop then Some 0 else None))"
| "ha_loop Os (e # es) = bindK (getK need_exit) (\<lambda>stop.
     if stop then retK (Some 0)
     else bindK (ha_turn Os e) (\<lambda>r. case r of Some c \<Rightarrow> retK (Some c) | None \<Rightarrow> ha_loop Os es))"

definition ha_main :: "os \<Rightarrow> uint \<Rightarrow> event list \<Rightarrow> (helper_state, int option) km" where
  "ha_main Os users events =
     (if socket_ret Os = -1 then thenK (printf ''socket'' []) (retK (Some (-1)))
      else thenK (printf ''subscribing to %u.%u\<newline>'' [PNum (uint (users + 3)), PNum 0x456])
       (if bind_ret Os = -1 then thenK (printf ''bind'' []) (retK (Some (-1)))
        else ha_loop Os events))"

section \<open>The helper does no work\<close>

lemma ha_turn_quiet:
  "\<exists>r s'. ha_turn Os e s = Ret (r, s') \<and> sent s' = sent s \<and> files s' = files s"
  by (cases e) (simp_all add: ha_turn_def ha_handle_def Let_def run_simps)

lemma ha_loop_quiet:
  "\<exists>r s'. ha_loop Os es s = Ret (r, s') \<and> sent s' = sent s \<and> files s' = files s"
proof (induction es arbitrary: s)
  case Nil
  then show ?case by (simp add: run_simps)
next
  case (Cons e es)
  obtain r s1 where s1: "ha_turn Os e s = Ret (r, s1)" "sent s1 = sent s" "files s1 = files s"
    using ha_turn_quiet by blast
  then show ?case
    using Cons [of s1] by (cases r) (auto simp: run_simps)
qed

lemma ha_main_quiet:
  "\<exists>r s'. ha_main Os u es s = Ret (r, s') \<and> sent s' = sent s \<and> files s' = files s"
proof -
  let ?s = "s\<lparr>out := out s @ [(''subscribing to %u.%u\<newline>'', [PNum (uint (u + 3)), PNum 0x456])]\<rparr>"
  obtain r s1 where "ha_loop Os es ?s = Ret (r, s1)" "sent s1 = sent ?s" "files s1 = files ?s"
    using ha_loop_quiet by blast
  then show ?thesis by (simp add: ha_main_def run_simps)
qed

text \<open>The answers of this helper to one message of the module.\<close>

definition ha_user :: "os \<Rightarrow> helper_state \<Rightarrow> cn_msg \<Rightarrow> cn_msg list" where
  "ha_user Os s m =
    (case ha_turn Os (Recv \<lparr>nlmsg_len = of_nat (NLMSG_SPACE Os (os_sizeof_cn_msg Os + unat (msg_len m))),
          nlmsg_type = NLMSG_DONE Os, nlmsg_flags = 0, nlmsg_seq = msg_seq m, nlmsg_pid = 0,
          nlmsg_data = m\<rparr>) s of
       Ret (_, s') \<Rightarrow> map nlmsg_data (drop (length (sent s)) (sent s'))
     | _ \<Rightarrow> [])"

lemma ha_turn_keeps: "ha_turn Os e s = Ret (r, s') \<Longrightarrow> sent s' = sent s"
  using ha_turn_quiet [of Os e s] by auto

lemma ha_user_silent: "ha_user Os s m = []"
  unfolding ha_user_def by (auto split: outcome.split dest!: ha_turn_keeps)

text \<open>Even if \<open>do_work\<close> were reached: a file that can be opened and positioned is left empty, and no
  message is sent.\<close>

lemma ha_do_work_truncates:
  assumes "32 \<le> length buffer" "unat (rq_inode (request_of buffer)) < 6"
    "fopen_ok Os (drop (unat (rq_inode (request_of buffer))) ''/tmp/'') ''wb''"
    "fseek_ok Os (sint (rq_count (request_of buffer)))"
  shows "ha_do_work Os u buffer s = Ret ((), s\<lparr>files := (files s)
    (drop (unat (rq_inode (request_of buffer))) ''/tmp/'' \<mapsto> [])\<rparr>)"
  using assms by (simp add: ha_do_work_def layout_simps tmp_path_def fopen_wb_def run_simps Let_def)

text \<open>And the answer to a read never leaves it: \<open>msg->len\<close> counts the header of the message twice.\<close>

lemma ha_reply_crashes:
  assumes "calloc_ok Os (unat (of_nat (os_sizeof_cn_msg Os + 8) + count))"
    "0 < os_sizeof_cn_msg Os" "unat count + os_sizeof_cn_msg Os + 8 < 65536"
  shows "ha_reply Os u count s = Crash OutOfBounds"
proof -
  define n where "n = unat count"
  let ?S = "os_sizeof_cn_msg Os"
  have n: "n + ?S + 8 < 65536" using assms(3) by (simp add: n_def)
  have c: "count = of_nat n" by (simp add: n_def)
  have obj: "unat (of_nat (?S + 8) + count) = ?S + 8 + n"
    using n unfolding c of_nat_add [symmetric] by (simp add: unat_of_nat del: of_nat_add)
  have "of_nat (?S + 8) + ucast count = (of_nat (?S + 8 + n) :: ushort)"
    using n unfolding c by (simp add: unsigned_of_nat take_bit_nat_eq_self)
  then have len: "unat (of_nat (?S + 8) + ucast count :: ushort) = ?S + 8 + n"
    using n by (simp add: unat_of_nat del: of_nat_add)
  show ?thesis
    using assms(1,2) unfolding ha_reply_def Let_def sizeof_response obj
    by (simp add: run_simps ha_netlink_send_def Let_def len del: of_nat_add)
qed

section \<open>Properties\<close>

text \<open>C38. The program of the first plan never answers and never touches a file, whatever it receives, because
  \<open>do_work\<close> is unreachable; a read of a file in that plan therefore never returns.\<close>

theorem plan_a_helper_idles:
  assumes "counting_semaphores K" "sends_ok K" "memory_ok K" "a_idle s"
  shows "(\<exists>r hs'. ha_main Os u es hs = Ret (r, hs') \<and> sent hs' = sent hs \<and> files hs' = files hs)
    \<and> a_fops_read K (ha_user Os hs) ino count ppos s = Hang"
proof (intro conjI)
  show "a_fops_read K (ha_user Os hs) ino count ppos s = Hang"
    by (rule a_read_unanswered [where user = "ha_user Os hs", OF assms]) (rule ha_user_silent)
qed (rule ha_main_quiet)

theorem plan_a_helper_idles_witness:
  "a_fops_read sample_kernel (ha_user sample_os sample_helper) 3 10 0 sample_plan_a = Hang"
  using plan_a_helper_idles [OF sample_kernel_ok(1) sample_kernel_sends sample_kernel_ok(2) sample_plan_a_idle] by blast

end
