(* ===== verification/Backup_B.thy ===== *)
theory Backup_B
  imports Plan_Ramfs
begin

text \<open>
  The fallback module \<open>src/backup_plans/b/sjfs.c\<close>: the file system in memory of \<open>Plan_Ramfs\<close>, a
  connector callback that logs, and a message with a counter that nothing sends yet.
\<close>

section \<open>State, callback and message\<close>

record plan_b_state = kstate +
  b_counter :: uint
  b_nls :: bool
  b_once :: bool

definition b_callback :: "kernel \<Rightarrow> cn_msg \<Rightarrow> (plan_b_state, unit) km" where
  "b_callback K msg = printk ''%s: idx=%x, val=%x, seq=%u, ack=%u, len=%d: %s.\<newline>''
     [PStr ''cn_sjfs_callback'', PNum (uint (fst (msg_id msg))), PNum (uint (snd (msg_id msg))),
      PNum (uint (msg_seq msg)), PNum (uint (msg_ack msg)), PNum (uint (msg_len msg)),
      PStr (if msg_len msg \<noteq> 0 then c_string (msg_data msg @ after_msg K msg) else '''')]"

text \<open>\<open>scnprintf(data, sizeof(data), "counter = %u", cn_sjfs_counter)\<close> with 32 bytes.\<close>

definition counter_text :: "uint \<Rightarrow> byte list" where
  "counter_text n = map of_char ''counter = '' @ decimal (unat n)"

definition counter_msg :: "kernel \<Rightarrow> uint \<Rightarrow> cn_msg" where
  "counter_msg K n = (let data = scnprintf_bytes 32 (counter_text n) in
     \<lparr>msg_id = cn_sjfs_id K, msg_seq = n, msg_ack = 0, msg_len = of_nat (length data), msg_data = data\<rparr>)"

definition cn_sjfs_send_func :: "kernel \<Rightarrow> (plan_b_state, unit) km" where
  "cn_sjfs_send_func K =
     thenK (printk ''%s: timer fired\<newline>'' [PStr ''cn_sjfs_send_func''])
    (bindK (kzalloc K (sizeof_cn_msg K + 32)) (\<lambda>m.
     thenK
      (if m \<noteq> 0 then
         bindK (getK b_counter) (\<lambda>n.
         thenK (heap_write m (sizeof_cn_msg K) (msg_data (counter_msg K n)))
        (thenK (kcall K (Cn_netlink_send (counter_msg K n)))
               (kfree m)))
       else retK ())
      (modK (\<lambda>s. s\<lparr>b_counter := b_counter s + 1\<rparr>))))"

definition b_file_operations :: op_table where
  "b_file_operations =
    [(''read_iter'', ''generic_file_read_iter''), (''write_iter'', ''generic_file_write_iter''),
     (''mmap'', ''generic_file_mmap''), (''fsync'', ''noop_fsync''),
     (''splice_read'', ''generic_file_splice_read''), (''splice_write'', ''iter_file_splice_write''),
     (''llseek'', ''generic_file_llseek'')]"

section \<open>Loading and unloading\<close>

definition b_release :: "kernel \<Rightarrow> (plan_b_state, unit) km" where
  "b_release K = bindK (getK b_nls) (\<lambda>open.
     if open then thenK (kcall K Sock_release) (retK ()) else retK ())"

definition b_init :: "kernel \<Rightarrow> (plan_b_state, int) km" where
  "b_init K = bindK (getK b_once) (\<lambda>old.
     thenK (modK (\<lambda>s. s\<lparr>b_once := True\<rparr>))
     (if old then retK 0
      else bindK (kcall K (Cn_add_callback (cn_sjfs_id K) cn_sjfs_name)) (\<lambda>err.
        if err \<noteq> 0 then thenK (b_release K) (retK err)
        else kcall K (Register_filesystem ''sjfs''))))"

definition b_exit :: "kernel \<Rightarrow> (plan_b_state, unit) km" where
  "b_exit K =
     thenK (kcall K (Unregister_filesystem ''sjfs''))
    (thenK (kcall K (Cn_del_callback (cn_sjfs_id K)))
           (b_release K))"

text \<open>The calls of the first load: the callback, and the file system only when that worked.\<close>

definition b_boot :: "kernel \<Rightarrow> plan_b_state \<Rightarrow> kcall list" where
  "b_boot K s = (let add = Cn_add_callback (cn_sjfs_id K) cn_sjfs_name in
     add # (if kret K (calls s) add = 0 then [Register_filesystem ''sjfs'']
            else if b_nls s then [Sock_release] else []))"

interpretation binit: load_once "b_init K" b_once 0 calls "b_boot K" for K
  by unfold_locales (simp_all add: b_init_def run_simps b_release_def b_boot_def Let_def)

section \<open>The counter message\<close>

lemma length_decimal_le:
  "n < 10 ^ Suc k \<Longrightarrow> length (decimal n) \<le> Suc k"
proof (induction k arbitrary: n)
  case 0
  then show ?case by (simp add: decimal.simps [of n])
next
  case (Suc k)
  then have "n div 10 < 10 ^ Suc k" by (simp add: div_less_iff_less_mult mult.commute)
  from Suc.IH [OF this] show ?case by (simp add: decimal.simps [of n])
qed

lemma unat32_less: "unat (w :: uint) < 4294967296"
  by (rule order_less_le_trans [OF unsigned_less]) simp

lemma counter_text_fits: "length (counter_text n) \<le> 20"
  using length_decimal_le [of "unat n" 9] unat32_less [of n] by (simp add: counter_text_def)

text \<open>The counter is never cut off, so the receiver can read it back.\<close>

lemma counter_msg_data: "msg_data (counter_msg K n) = counter_text n @ [0]"
  using counter_text_fits [of n] by (simp add: counter_msg_def Let_def scnprintf_bytes_def)

definition read_counter :: "byte list \<Rightarrow> nat" where
  "read_counter bs = undecimal (butlast (drop 10 bs))"

lemma read_counter_msg: "read_counter (msg_data (counter_msg K n)) = unat n"
  by (simp add: counter_msg_data read_counter_def counter_text_def butlast_append undecimal_decimal)

lemma send_func_run:
  assumes "heap_wf s" "kmalloc_ok K (next_ptr s) (sizeof_cn_msg K + 32)"
  shows "\<exists>s'. cn_sjfs_send_func K s = Ret ((), s') \<and> heap s' = heap s \<and> b_counter s' = b_counter s + 1
    \<and> calls s' = calls s @ [Cn_netlink_send (counter_msg K (b_counter s))]"
proof -
  have "(heap s)(next_ptr s := None) = heap s" using assms(1) by (simp add: fun_upd_idem)
  moreover have "length (msg_data (counter_msg K (b_counter s))) \<le> 32"
    using counter_text_fits [of "b_counter s"] by (simp add: counter_msg_data)
  ultimately show ?thesis
    using assms by (simp add: cn_sjfs_send_func_def run_simps kzalloc_def Let_def heap_write_def kfree_def)
qed

section \<open>Properties\<close>

text \<open>C39. The message of the second plan carries its counter in full for every value, so that the receiver can
  read it back; sending it frees the buffer and counts on.\<close>

theorem counter_message_exact:
  assumes "heap_wf s" "kmalloc_ok K (next_ptr s) (sizeof_cn_msg K + 32)"
  shows "\<exists>s' m. cn_sjfs_send_func K s = Ret ((), s') \<and> calls s' = calls s @ [Cn_netlink_send m]
    \<and> read_counter (msg_data m) = unat (b_counter s) \<and> unat (msg_len m) = length (msg_data m)
    \<and> heap s' = heap s \<and> b_counter s' = b_counter s + 1"
proof -
  have "unat (msg_len (counter_msg K n)) = length (msg_data (counter_msg K n))" for n
  proof -
    have "msg_len (counter_msg K n) = of_nat (length (msg_data (counter_msg K n)))"
      by (simp add: counter_msg_def Let_def)
    moreover have "length (msg_data (counter_msg K n)) \<le> 21"
      using counter_text_fits [of n] by (simp add: counter_msg_data)
    ultimately show ?thesis by (simp add: unat_of_nat)
  qed
  then show ?thesis
    using send_func_run [OF assms] read_counter_msg [of K "b_counter s"] by blast
qed

definition sample_plan_b :: plan_b_state where
  "sample_plan_b = \<lparr>heap = (\<lambda>_. None), next_ptr = 1, klog = [], calls = [], b_counter = 4294967295,
     b_nls = False, b_once = False\<rparr>"

theorem counter_message_exact_witness:
  "\<exists>s' m. cn_sjfs_send_func sample_kernel sample_plan_b = Ret ((), s') \<and> calls s' = [Cn_netlink_send m]
    \<and> read_counter (msg_data m) = 4294967295 \<and> b_counter s' = 0"
proof -
  have wf: "heap_wf sample_plan_b" "calls sample_plan_b = []" "b_counter sample_plan_b = 4294967295"
    by (simp_all add: sample_plan_b_def heap_wf_def)
  from counter_message_exact [OF wf(1) sample_kmalloc_ok] wf(2,3) show ?thesis by auto
qed

end
