(* ===== verification/Spec2Isabelle.thy ===== *)
theory Spec2Isabelle
  imports Connector_Progress Connector_Refine Backup_A_Helper Backup_B
begin

text \<open>
  A verification of SJFS, the San Jose file system: a Linux kernel module (\<open>src/kernel_space_module\<close>)
  that keeps no data itself but asks a program in user space (\<open>src/user_space_application\<close>) for the
  blocks of a disk image, by messages over the kernel's connector. The repository also has a test
  module with a file system in memory (\<open>src/ramfs_test\<close>) and two fallback plans
  (\<open>src/backup_plans\<close>). All of these are modelled.

  How the parts interact. The VFS calls the operations of the module through its operation tables.
  \<open>sjfs_fill_super\<close>, \<open>sjfs_get_disk_inode\<close> and \<open>sjfs_set_disk_inode\<close> fetch blocks with
  \<open>sjfs_read_block\<close>, which sends a request and sleeps on the semaphore \<open>cb_sem\<close> until \<open>cn_callback\<close>
  has copied an answer to \<open>read_block_buffer\<close>; \<open>cn_sem\<close> keeps other readers out. The helper
  receives requests in its main loop and decodes them in \<open>do_work\<close>.

  Style of the model. A C function is a state-passing HOL function of type \<open>('s, 'a) km\<close>: it returns
  (\<open>Ret\<close>), sleeps for ever (\<open>Hang\<close>) or has undefined behaviour (\<open>Crash\<close>). Static variables are fields
  of a record, heap objects are byte lists in a heap of their own, machine integers are words. The
  kernel and the operating system are parameters (records \<open>kernel\<close> and \<open>os\<close>), and what a theorem needs
  of them is a named hypothesis: \<open>counting_semaphores\<close> (the documented meaning of \<open>up\<close>, \<open>down\<close> and
  \<open>down_trylock\<close>), \<open>sends_ok\<close>, \<open>memory_ok\<close> and \<open>kmalloc_ok\<close>, \<open>nlink_only\<close> (\<open>inc_nlink\<close>
  changes the link count only), \<open>inode_setters\<close> (\<open>i_uid_write\<close>, \<open>i_gid_write\<close>, \<open>i_size_write\<close> and \<open>set_nlink\<close>
  store their argument), \<open>root_available\<close>, \<open>os_healthy\<close>.
  The sample kernel and the sample operating system satisfy them in the witnesses.

  The theories.
  \<^item> \<open>Sjfs_Prelude\<close>: machine integers, outcomes, combinators, byte lists, little-endian numbers, and
    the collections \<open>run_simps\<close>, \<open>keeps\<close> and \<open>layout_simps\<close> that carry the proofs.
  \<^item> \<open>Blocks\<close>: \<open>src/include/blocks.h\<close> and \<open>ipc.h\<close>. The layout of a struct is computed for an ABI;
    fields never overlap, and the sizes differ from those the comments give. \<open>superblock_image\<close> and
    \<open>inode_image\<close> are specification, since no code encodes these structs: they say which bytes of a
    device hold a superblock or a table of inodes (locale \<open>struct_codec\<close>, which the packets of plan a
    interpret too).
  \<^item> \<open>Kernel_Api\<close>: the kernel functions used, the heap and its well-formedness.
  \<^item> \<open>Connector\<close>: \<open>cn_callback\<close>, \<open>sjfs_read_block\<close> and \<open>sjfs_write_block\<close> of one thread, with the
    answers of user space as an inbox. A read delivers the block asked for and touches nothing else;
    requests name blocks by their first three digits; a read without memory returns old data.
  \<^item> \<open>Connector_Steps\<close>: the same three functions as atomic steps of any number of readers, writers and
    callbacks, with failed allocations and refused sends.
    The locale \<open>step_invariant\<close> turns a preserved predicate into one of every reachable state; it
    gives mutual exclusion and correct contents, and that a silent user space blocks every reader.
    Two runs show how a failed allocation and an unasked message break the protocol.
  \<^item> \<open>Connector_Progress\<close>: a bound on the steps that are left, so that every read returns.
  \<^item> \<open>Connector_Refine\<close>: a forward simulation from the function of one thread to the step relation.
  \<^item> \<open>Disk_Inodes\<close>: the superblock and inodes on the disk. Fetching is correct for the inodes of the
    first block and out of bounds for all others; storing never reaches the disk, and puts the inode at
    the wrong offset of the block.
  \<^item> \<open>Inode_Bitmap\<close>: where the code looks for the bit of an inode (\<open>inode_byte\<close>, \<open>inode_bit\<close>), and the search
    for a free inode. The locale \<open>bit_table\<close>, interpreted on these two, gives the set of inodes in use;
    \<open>set_bit_at\<close>, \<open>clear_bit_at\<close> and \<open>marked_used\<close> belong to this specification and are not code.
  \<^item> \<open>File_Ops\<close>, \<open>Inode_Ops\<close>: the operation tables with the handlers that only log, \<open>create\<close>, \<open>unlink\<close>.
    Their statements on the bitmap refine insertion and deletion; the search of \<open>create\<close> and the
    marking disagree from inode 8 on.
  \<^item> \<open>Super\<close>: \<open>sjfs_fill_super\<close>, mount, unmount, load and unload. From a good superblock the root is made
    as intended (\<open>fill_super_from\<close> is the function after the superblock has been fetched); the
    function as a whole never succeeds, because of the size of the buffer for block 0. The locale
    \<open>load_once\<close> states that a module starts once; all four modules interpret it.
  \<^item> \<open>Helper\<close>: \<open>format\<close>, the command line, the pid file, \<open>netlink_send\<close>, \<open>do_work\<close> and the main loop of
    the helper: what an image looks like after \<open>-n\<close>, and that a helper that serves leaves it alone.
  \<^item> \<open>Ramfs\<close>: the test module; locale \<open>inode_maker\<close> states what \<open>get_inode\<close> promises to \<open>mknod\<close>.
  \<^item> \<open>Plan_Ramfs\<close>, \<open>Backup_B\<close>, \<open>Backup_A\<close>, \<open>Backup_A_Helper\<close>: the code that both fallback plans share, the
    module of plan b, the module of plan a and the program of plan a.
  \<^item> This theory: properties of the module together with the helper.

  Bounds. No definition uses fuel. Loops over data recurse on a measure (\<open>scan_inodes\<close>, \<open>load_bitmaps\<close>,
  \<open>format_loop\<close>); the main loops of the two programs recurse on the list of events that \<open>poll\<close> and
  \<open>recv\<close> report, and the result \<open>Serving\<close> (\<open>None\<close> for plan a) means that the program still waits
  after the last event.
  Sizes are those of LP64 machines unless a lemma names another ABI.

  Identifiers that the sources use without declaring them (\<open>SJFS_INODE_SIZE\<close> in \<open>sjfs_iops_create\<close>;
  \<open>BLOCK_SIZE\<close>, \<open>MIN_BLOCKS\<close>, the opcodes, \<open>opcode\<close> and \<open>address\<close> in \<open>main.c\<close>) are parameters; the local
  variables \<open>inode_bit\<close> and \<open>inode_byte\<close> of \<open>sjfs_iops_create\<close> have the type they have in \<open>unlink\<close>.

  Not modelled. The smoke test \<open>src/ramfs_test/test_sjfs_ram.c\<close> only issues system calls. The build and
  install scripts have no logic. The bytes that \<open>printk\<close> and \<open>printf\<close> produce are not formatted: a log
  entry is the format string with its arguments; where \<open>%s\<close> prints the data of a message without a
  terminating zero, the bytes behind the message are the kernel's (field \<open>after_msg\<close>). Inside
  the kernel, what a library function does with its arguments is not described beyond the hypotheses
  above.
\<close>

section \<open>The module and the helper together\<close>

text \<open>C16. The module waiting for the helper of the repository waits for ever: for every block and every state
  of the helper, a read on an idle connection never returns.\<close>

theorem helper_leaves_reader_waiting:
  assumes "counting_semaphores K" "sends_ok K" "conn_idle s"
    "kmalloc_ok K (next_ptr s) (sizeof_cn_msg K + 5)"
  shows "sjfs_read_block K (helper_user Os C hs) address p off s = Hang"
  by (rule read_block_unanswered [OF assms(1,3,4,2)]) (rule helper_user_silent)

theorem helper_leaves_reader_waiting_witness:
  "sjfs_read_block sample_kernel (helper_user sample_os sample_config sample_helper) 0 3 0 sample_state = Hang"
  using helper_leaves_reader_waiting [OF sample_kernel_ok(1) sample_kernel_sends sample_state_idle sample_kmalloc_ok] .

text \<open>C17. With any number of readers: in every reachable state of the connection between the module and the
  helper of the repository no read has completed, and no reader is past its wait for the answer.\<close>

theorem helper_starves_all_readers:
  assumes "reliable E" "userland E = helper_user Os C hs" "\<And>m. \<not> unsolicited E m" "conn_reach E b s"
  shows "rd_hist s i = [] \<and> rd_pc s i \<le> RWait"
proof -
  have "silent E"
    using assms(1-3) by (simp add: silent_def helper_user_silent)
  with silence.reach_inv [OF assms(4)] show ?thesis by (simp add: silent_inv_def)
qed

theorem helper_starves_all_readers_witness:
  "\<exists>s. conn_run (sample_env\<lparr>userland := helper_user sample_os sample_config sample_helper\<rparr>) read_begin
      (conn_init sample_block) = Some s \<and> rd_hist s 0 = []"
proof -
  let ?E = "sample_env\<lparr>userland := helper_user sample_os sample_config sample_helper\<rparr>"
  have r: "reliable ?E" using sample_env_reliable by (simp add: reliable_def)
  have u: "\<not> unsolicited ?E m" for m by (simp add: sample_env_def)
  obtain s where s: "conn_run ?E read_begin (conn_init sample_block) = Some s"
    by (simp add: read_begin_def run_defs sample_env_def)
  from helper_starves_all_readers [OF r _ u conn_run_reach [OF conn_start s], of _ _ _ 0] s show ?thesis
    by auto
qed

end
